(* ===== verification/Prelude.thy ===== *)
theory Prelude
  imports Main "HOL-Library.Word" "HOL-Library.Sublist"
begin

text \<open>
  Shared vocabulary of the development: the types that name the model's data
  (Python strings, bytes), the Python string built-ins the sources call
  (\<open>str.strip\<close>, \<open>str.splitlines\<close>, \<open>str.startswith\<close>, \<open>str.endswith\<close>,
  the \<open>in\<close> operator on strings), and the generic lemmas on them that the
  component theories use.

  A Python \<open>str\<close> is a sequence of code points. The model reads a HOL
  \<open>char\<close> as the code point \<open>of_char c\<close>, so it covers the Latin-1 range
  U+0000 to U+00FF; the character classes below (whitespace, line
  boundaries, decimal digits) are Python's own classes restricted to that
  range.
\<close>

named_theorems pystr_simps "evaluation rules of the Python string built-ins"

type_synonym pystr = string
type_synonym byte = "8 word"
type_synonym bytes = "byte list"

subsection \<open>Character classes\<close>

text \<open>\<open>str.isspace\<close> on U+0000..U+00FF: tab to carriage return, the four
  information separators U+001C..U+001F, space, NEL (U+0085) and NBSP (U+00A0).\<close>

definition py_isspace :: "char \<Rightarrow> bool" where
  "py_isspace c \<longleftrightarrow>
     (let n = of_char c :: nat
      in (9 \<le> n \<and> n \<le> 13) \<or> (28 \<le> n \<and> n \<le> 32) \<or> n = 133 \<or> n = 160)"

text \<open>The line boundaries of \<open>str.splitlines\<close> on U+0000..U+00FF:
  LF, VT, FF, CR, the separators U+001C..U+001E and NEL.\<close>

definition py_is_line_break :: "char \<Rightarrow> bool" where
  "py_is_line_break c \<longleftrightarrow>
     (let n = of_char c :: nat
      in (10 \<le> n \<and> n \<le> 13) \<or> (28 \<le> n \<and> n \<le> 30) \<or> n = 133)"

text \<open>\<open>\d\<close> of a \<open>re\<close> pattern on a \<open>str\<close>: the Unicode decimal digits, which
  on U+0000..U+00FF are the ASCII digits.\<close>

definition py_isdigit :: "char \<Rightarrow> bool" where
  "py_isdigit c \<longleftrightarrow> (let n = of_char c :: nat in 48 \<le> n \<and> n \<le> 57)"

subsection \<open>String operations\<close>

definition py_lstrip :: "pystr \<Rightarrow> pystr" where
  "py_lstrip s = dropWhile py_isspace s"

definition py_rstrip :: "pystr \<Rightarrow> pystr" where
  "py_rstrip s = rev (dropWhile py_isspace (rev s))"

definition py_strip :: "pystr \<Rightarrow> pystr" where
  "py_strip s = py_rstrip (py_lstrip s)"

definition py_startswith :: "pystr \<Rightarrow> pystr \<Rightarrow> bool" where
  "py_startswith s p \<longleftrightarrow> take (length p) s = p"

definition py_endswith :: "pystr \<Rightarrow> pystr \<Rightarrow> bool" where
  "py_endswith s p \<longleftrightarrow> drop (length s - length p) s = p"

text \<open>\<open>sub in s\<close>: the substring test, by scanning the start positions.\<close>

fun py_in :: "pystr \<Rightarrow> pystr \<Rightarrow> bool" where
  "py_in sub [] \<longleftrightarrow> sub = []"
| "py_in sub (c # cs) \<longleftrightarrow> take (length sub) (c # cs) = sub \<or> py_in sub cs"

text \<open>\<open>str.splitlines()\<close>: \<open>cur\<close> holds the current line reversed. A CR
  directly followed by LF is one boundary; a final boundary does not open an
  empty last line, and the empty string has no lines.\<close>

fun splitlines_acc :: "pystr \<Rightarrow> pystr \<Rightarrow> pystr list" where
  "splitlines_acc cur [] = (if cur = [] then [] else [rev cur])"
| "splitlines_acc cur (c # cs) =
     (if c = CHR 0x0D \<and> cs \<noteq> [] \<and> hd cs = CHR 0x0A
      then rev cur # splitlines_acc [] (tl cs)
      else if py_is_line_break c then rev cur # splitlines_acc [] cs
      else splitlines_acc (c # cur) cs)"

definition py_splitlines :: "pystr \<Rightarrow> pystr list" where
  "py_splitlines s = splitlines_acc [] s"

text \<open>Joining lines with LF, the inverse of \<open>py_splitlines\<close> on lines
  without boundaries.\<close>

definition unlines :: "pystr list \<Rightarrow> pystr" where
  "unlines ls = concat (map (\<lambda>l. l @ [CHR 0x0A]) ls)"

definition no_line_break :: "pystr \<Rightarrow> bool" where
  "no_line_break l \<longleftrightarrow> (\<forall>c \<in> set l. \<not> py_is_line_break c)"

declare py_isspace_def [pystr_simps] py_is_line_break_def [pystr_simps]
  py_isdigit_def [pystr_simps] py_strip_def [pystr_simps] py_lstrip_def [pystr_simps]
  py_rstrip_def [pystr_simps] py_startswith_def [pystr_simps]
  py_endswith_def [pystr_simps] py_splitlines_def [pystr_simps]

subsection \<open>Integers and their decimal text\<close>

text \<open>\<open>str(n)\<close> for an \<open>int\<close> (and an f-string field \<open>{n}\<close>): the decimal
  digits, most significant first, after a minus sign when negative.\<close>

fun dec_digits :: "nat \<Rightarrow> pystr" where
  "dec_digits n =
     (if n < 10 then [char_of (48 + n)] else dec_digits (n div 10) @ [char_of (48 + n mod 10)])"

declare dec_digits.simps [simp del]

definition py_str_int :: "int \<Rightarrow> pystr" where
  "py_str_int i = (if i < 0 then CHR ''-'' # dec_digits (nat (- i)) else dec_digits (nat i))"

text \<open>\<open>int(s)\<close> with base 10: surrounding whitespace stripped, an optional
  sign, then decimal digits in which single underscores may separate digits;
  anything else raises \<open>ValueError\<close> (here \<open>None\<close>).\<close>

definition dec_value :: "pystr \<Rightarrow> nat" where
  "dec_value ds = foldl (\<lambda>acc c. 10 * acc + (of_char c - 48)) 0 ds"

definition int_body_ok :: "pystr \<Rightarrow> bool" where
  "int_body_ok d \<longleftrightarrow>
     d \<noteq> [] \<and> list_all (\<lambda>c. py_isdigit c \<or> c = CHR ''_'') d \<and>
     hd d \<noteq> CHR ''_'' \<and> last d \<noteq> CHR ''_'' \<and> \<not> py_in ''__'' d"

definition py_int :: "pystr \<Rightarrow> int option" where
  "py_int s =
     (let t = py_strip s;
          (neg, d) = (if t \<noteq> [] \<and> hd t = CHR ''-'' then (True, tl t)
                      else if t \<noteq> [] \<and> hd t = CHR ''+'' then (False, tl t) else (False, t))
      in if int_body_ok d
         then Some (let v = int (dec_value (filter (\<lambda>c. c \<noteq> CHR ''_'') d)) in if neg then - v else v)
         else None)"

text \<open>\<open>str.join\<close>.\<close>

fun py_join :: "pystr \<Rightarrow> pystr list \<Rightarrow> pystr" where
  "py_join sep [] = []"
| "py_join sep [x] = x"
| "py_join sep (x # y # zs) = x @ sep @ py_join sep (y # zs)"

text \<open>The value of a hexadecimal digit, either case.\<close>

definition hex_val :: "char \<Rightarrow> nat option" where
  "hex_val c =
     (let n = of_char c :: nat in
      if 48 \<le> n \<and> n \<le> 57 then Some (n - 48)
      else if 65 \<le> n \<and> n \<le> 70 then Some (n - 55)
      else if 97 \<le> n \<and> n \<le> 102 then Some (n - 87)
      else None)"

declare py_str_int_def [pystr_simps] dec_value_def [pystr_simps] int_body_ok_def [pystr_simps]
  py_int_def [pystr_simps]

subsection \<open>Lemmas on the built-ins\<close>

lemma take_length_prefix: "take (length p) s = p \<longleftrightarrow> prefix p s"
proof
  assume "take (length p) s = p"
  then show "prefix p s" by (metis take_is_prefix)
next
  assume "prefix p s"
  then show "take (length p) s = p" by (auto simp: prefix_def)
qed

lemma drop_length_suffix: "drop (length s - length p) s = p \<longleftrightarrow> suffix p s"
proof
  assume "drop (length s - length p) s = p"
  then show "suffix p s" by (metis suffix_drop)
next
  assume "suffix p s"
  then show "drop (length s - length p) s = p" by (auto simp: suffix_def)
qed

lemma py_in_sublist: "py_in sub s \<longleftrightarrow> sublist sub s"
  by (induction s) (auto simp: take_length_prefix sublist_Cons_right)

lemma py_startswith_prefix: "py_startswith s p \<longleftrightarrow> prefix p s"
  by (simp add: py_startswith_def take_length_prefix)

lemma py_startswith_drop: "py_startswith s p \<longleftrightarrow> s = p @ drop (length p) s"
  unfolding py_startswith_def
proof
  assume "take (length p) s = p"
  then show "s = p @ drop (length p) s" by (metis append_take_drop_id)
next
  assume "s = p @ drop (length p) s"
  then show "take (length p) s = p" by (metis append_eq_conv_conj)
qed

lemma py_endswith_suffix: "py_endswith s p \<longleftrightarrow> suffix p s"
  by (simp add: py_endswith_def drop_length_suffix)

lemma sublist_py_strip: "sublist (py_strip s) s"
proof -
  have "suffix (py_lstrip s) s"
    by (simp add: py_lstrip_def suffix_dropWhile)
  moreover have "prefix (py_rstrip t) t" for t
    unfolding py_rstrip_def by (metis rev_rev_ident suffix_to_prefix suffix_dropWhile)
  ultimately show ?thesis
    unfolding py_strip_def
    by (meson prefix_imp_sublist suffix_imp_sublist sublist_order.order_trans)
qed

lemma py_lstrip_hd: "py_lstrip s \<noteq> [] \<Longrightarrow> \<not> py_isspace (hd (py_lstrip s))"
  by (simp add: py_lstrip_def hd_dropWhile)

lemma splitlines_acc_unlines:
  assumes "no_line_break l"
  shows "splitlines_acc cur (l @ CHR 0x0A # rest) = (rev cur @ l) # splitlines_acc [] rest"
  using assms
proof (induction l arbitrary: cur)
  case Nil
  then show ?case by (simp add: py_is_line_break_def)
next
  case (Cons c l)
  then have "\<not> py_is_line_break c" and "no_line_break l"
    by (simp_all add: no_line_break_def)
  moreover from this have "c \<noteq> CHR 0x0D"
    by (auto simp: py_is_line_break_def)
  ultimately show ?case using Cons.IH by simp
qed

text \<open>Round trip: splitting LF-joined lines gives the lines back.\<close>

lemma py_splitlines_unlines:
  "(\<forall>l \<in> set ls. no_line_break l) \<Longrightarrow> py_splitlines (unlines ls) = ls"
proof (induction ls)
  case Nil
  then show ?case by (simp add: py_splitlines_def unlines_def)
next
  case (Cons l ls)
  then show ?case
    using splitlines_acc_unlines [of l "[]" "unlines ls"]
    by (simp add: py_splitlines_def unlines_def)
qed

lemma sublist_splitlines_acc:
  "l \<in> set (splitlines_acc cur s) \<Longrightarrow> sublist l (rev cur @ s)"
proof (induction cur s rule: splitlines_acc.induct)
  case (1 cur)
  then show ?case by (simp split: if_splits)
next
  case (2 cur c cs)
  have cur: "sublist (rev cur) (rev cur @ c # cs)"
    by (rule prefix_imp_sublist) simp
  have tail: "sublist cs (rev cur @ c # cs)"
    by (rule suffix_imp_sublist) (simp add: suffix_def)
  show ?case
  proof (cases "c = CHR 0x0D \<and> cs \<noteq> [] \<and> hd cs = CHR 0x0A")
    case True
    then have "l = rev cur \<or> l \<in> set (splitlines_acc [] (tl cs))"
      using "2.prems" by auto
    then show ?thesis
    proof
      assume "l \<in> set (splitlines_acc [] (tl cs))"
      with "2.IH"(1) True have "sublist l (tl cs)" by simp
      moreover have "sublist (tl cs) cs"
        by (rule suffix_imp_sublist) (simp add: suffix_tl)
      ultimately show ?thesis
        using tail by (meson sublist_order.order_trans)
    qed (simp add: cur)
  next
    case False
    note nocrlf = False
    show ?thesis
    proof (cases "py_is_line_break c")
      case True
      then have "l = rev cur \<or> l \<in> set (splitlines_acc [] cs)"
        using "2.prems" nocrlf by auto
      then show ?thesis
      proof
        assume "l \<in> set (splitlines_acc [] cs)"
        with "2.IH"(2) nocrlf True have "sublist l cs" by simp
        then show ?thesis
          using tail by (meson sublist_order.order_trans)
      qed (simp add: cur)
    next
      case False
      then have "l \<in> set (splitlines_acc (c # cur) cs)"
        using "2.prems" nocrlf by simp
      then show ?thesis using "2.IH"(3) nocrlf False by simp
    qed
  qed
qed

lemma sublist_py_splitlines [intro]: "l \<in> set (py_splitlines s) \<Longrightarrow> sublist l s"
  using sublist_splitlines_acc [of l "[]" s] by (simp add: py_splitlines_def)

lemma dec_digits_small: "n < 10 \<Longrightarrow> dec_digits n = [char_of (48 + n)]"
  by (subst dec_digits.simps) simp

lemma dec_digits_large: "\<not> n < 10 \<Longrightarrow>
    dec_digits n = dec_digits (n div 10) @ [char_of (48 + n mod 10)]"
  by (subst dec_digits.simps) simp

lemma dec_digits_digit: "c \<in> set (dec_digits n) \<Longrightarrow> py_isdigit c"
proof (induction n rule: dec_digits.induct)
  case (1 n)
  have digit: "py_isdigit (char_of (48 + m))" if "m < 10" for m :: nat
    using that by (simp add: py_isdigit_def of_char_of)
  show ?case
  proof (cases "n < 10")
    case True
    with "1.prems" show ?thesis by (simp add: dec_digits_small digit)
  next
    case False
    with "1.prems" "1.IH" show ?thesis by (auto simp: dec_digits_large digit)
  qed
qed

lemma dec_digits_ne [simp]: "dec_digits n \<noteq> []"
  by (cases "n < 10") (simp_all add: dec_digits_small dec_digits_large)

lemma dec_value_snoc: "dec_value (ds @ [c]) = 10 * dec_value ds + (of_char c - 48)"
  by (simp add: dec_value_def)

lemma dec_value_dec_digits [simp]: "dec_value (dec_digits n) = n"
proof (induction n rule: dec_digits.induct)
  case (1 n)
  have digit: "of_char (char_of (48 + m) :: char) - 48 = m" if "m < 10" for m :: nat
    using that by (simp add: of_char_of)
  show ?case
  proof (cases "n < 10")
    case True
    then show ?thesis by (simp add: dec_digits_small dec_value_def digit)
  next
    case False
    with "1.IH" show ?thesis by (simp add: dec_digits_large dec_value_snoc digit)
  qed
qed

lemma dropWhile_none: "list_all (\<lambda>c. \<not> P c) xs \<Longrightarrow> dropWhile P xs = xs"
  by (cases xs) auto

lemma py_strip_no_space: "list_all (\<lambda>c. \<not> py_isspace c) s \<Longrightarrow> py_strip s = s"
proof -
  assume ns: "list_all (\<lambda>c. \<not> py_isspace c) s"
  then have "list_all (\<lambda>c. \<not> py_isspace c) (rev s)"
    by (simp add: list_all_iff)
  with ns show ?thesis
    by (simp add: py_strip_def py_lstrip_def py_rstrip_def dropWhile_none)
qed

lemma digit_not_special: "py_isdigit c \<Longrightarrow> \<not> py_isspace c \<and> c \<noteq> CHR ''_'' \<and> c \<noteq> CHR ''-'' \<and> c \<noteq> CHR ''+''"
  by (auto simp: py_isdigit_def py_isspace_def Let_def)

lemma int_body_ok_dec_digits: "int_body_ok (dec_digits n)"
proof -
  have dig: "list_all py_isdigit (dec_digits n)"
    by (simp add: list_all_iff dec_digits_digit)
  have "\<not> sublist ''__'' (dec_digits n)"
  proof
    assume "sublist ''__'' (dec_digits n)"
    then have "set ''__'' \<subseteq> set (dec_digits n)"
      by (rule set_mono_sublist)
    with dig show False
      by (auto simp: list_all_iff dest: digit_not_special)
  qed
  then have "\<not> py_in ''__'' (dec_digits n)"
    by (simp add: py_in_sublist)
  with dig show ?thesis
    by (auto simp: int_body_ok_def list_all_iff digit_not_special)
qed

text \<open>Round trip: \<open>int(str(i)) = i\<close>.\<close>

lemma py_int_py_str_int [simp]: "py_int (py_str_int i) = Some i"
proof -
  have dig: "list_all py_isdigit (dec_digits n)" for n
    by (simp add: list_all_iff dec_digits_digit)
  have hd: "hd (dec_digits n) \<noteq> CHR ''-'' \<and> hd (dec_digits n) \<noteq> CHR ''+''" for n
    using dig [of n] by (cases "dec_digits n") (auto simp: digit_not_special)
  have "\<not> py_isspace CHR ''-''"
    by (simp add: py_isspace_def)
  then have nosp: "list_all (\<lambda>c. \<not> py_isspace c) (py_str_int i)"
    using dig by (auto simp: py_str_int_def list_all_iff dest: digit_not_special)
  have nous: "filter (\<lambda>c. c \<noteq> CHR ''_'') (dec_digits n) = dec_digits n" for n
    using dig [of n] by (auto simp: list_all_iff digit_not_special)
  have strip: "py_strip (py_str_int i) = py_str_int i"
    by (rule py_strip_no_space [OF nosp])
  show ?thesis
    unfolding py_int_def strip Let_def
    using hd [of "nat (- i)"] hd [of "nat i"]
    by (simp add: py_str_int_def nous int_body_ok_dec_digits)
qed


lemma py_join_Cons: "py_join sep (x # xs) = x @ (if xs = [] then [] else sep @ py_join sep xs)"
  by (cases xs) simp_all

lemma set_py_join: "set (py_join sep xs) \<subseteq> set sep \<union> \<Union> (set ` set xs)"
  by (induction sep xs rule: py_join.induct) auto

lemma dec_digits_zero [simp]: "dec_digits 0 = ''0''"
  using char_of_char [of "CHR ''0''"] by (simp add: dec_digits_small)

end
