(* ===== verification/Table.thy ===== *)
theory Table
  imports Prelude
begin

text \<open>
  The interface of a fastlite table with an integer primary key \<open>id\<close>, as
  the notes and menu apps use it (\<^verbatim>\<open>src/notes/main.py\<close>,
  \<^verbatim>\<open>src/menu/main.py\<close>). fastlite and SQLite are libraries, not part of
  the repository; the model states the behaviour the apps rely on:
  \<^item> the rows are kept in rowid order; \<open>insert\<close> without an id gives the new
    row the largest id plus one, or 1 in an empty table (SQLite's rule for an
    \<open>INTEGER PRIMARY KEY\<close> without \<open>AUTOINCREMENT\<close>);
  \<^item> \<open>update\<close>, \<open>delete\<close> and \<open>table[pk]\<close> first look the row up and raise
    \<open>NotFoundError\<close> when it is missing (sqlite-utils' \<open>Table.get\<close>);
  \<^item> an insert whose primary key is already present raises
    \<open>IntegrityError\<close> (the \<open>UNIQUE\<close> constraint; used by the radio
    station table, whose key is the name);
  \<^item> a query with a \<open>where\<close> filter and \<open>order_by='id DESC'\<close> lists the
    matching rows by decreasing id.
\<close>

type_synonym 'r table = "(int \<times> 'r) list"

datatype db_error = NotFoundError int | IntegrityError pystr

definition tbl_next_id :: "'r table \<Rightarrow> int" where
  "tbl_next_id t = (if t = [] then 1 else fst (last t) + 1)"

definition tbl_insert :: "'r \<Rightarrow> 'r table \<Rightarrow> 'r table" where
  "tbl_insert r t = t @ [(tbl_next_id t, r)]"

definition tbl_get :: "int \<Rightarrow> 'r table \<Rightarrow> db_error + 'r" where
  "tbl_get k t = (case map_of t k of None \<Rightarrow> Inl (NotFoundError k) | Some r \<Rightarrow> Inr r)"

definition tbl_update :: "int \<Rightarrow> ('r \<Rightarrow> 'r) \<Rightarrow> 'r table \<Rightarrow> db_error + 'r table" where
  "tbl_update k f t =
     (case tbl_get k t of
        Inl e \<Rightarrow> Inl e
      | Inr _ \<Rightarrow> Inr (map (\<lambda>(i, r). if i = k then (i, f r) else (i, r)) t))"

definition tbl_delete :: "int \<Rightarrow> 'r table \<Rightarrow> db_error + 'r table" where
  "tbl_delete k t =
     (case tbl_get k t of
        Inl e \<Rightarrow> Inl e
      | Inr _ \<Rightarrow> Inr (filter (\<lambda>(i, r). i \<noteq> k) t))"

definition tbl_select_desc :: "('r \<Rightarrow> bool) \<Rightarrow> 'r table \<Rightarrow> (int \<times> 'r) list" where
  "tbl_select_desc P t = rev (filter (\<lambda>(i, r). P r) t)"

text \<open>Well-formedness: ids are positive and strictly increasing in rowid
  order (hence distinct).\<close>

definition tbl_wf :: "'r table \<Rightarrow> bool" where
  "tbl_wf t \<longleftrightarrow> sorted_wrt (<) (map fst t) \<and> list_all (\<lambda>i. 0 < i) (map fst t)"

subsection \<open>Lemmas\<close>

lemma tbl_wf_Nil [simp]: "tbl_wf []"
  by (simp add: tbl_wf_def)

lemma tbl_next_id_gt: "tbl_wf t \<Longrightarrow> i \<in> fst ` set t \<Longrightarrow> i < tbl_next_id t"
proof (induction t rule: rev_induct)
  case Nil
  then show ?case by simp
next
  case (snoc x t)
  then have "sorted_wrt (<) (map fst t @ [fst x])"
    by (simp add: tbl_wf_def)
  then have "\<forall>j \<in> fst ` set t. j < fst x"
    by (simp add: sorted_wrt_append)
  with snoc.prems(2) show ?case
    by (auto simp: tbl_next_id_def)
qed

lemma tbl_next_id_fresh: "tbl_wf t \<Longrightarrow> map_of t (tbl_next_id t) = None"
  using tbl_next_id_gt [of t] by (auto simp: map_of_eq_None_iff)

lemma tbl_next_id_pos: "tbl_wf t \<Longrightarrow> 0 < tbl_next_id t"
  by (cases t rule: rev_cases) (auto simp: tbl_wf_def tbl_next_id_def list_all_iff)

lemma tbl_wf_insert: "tbl_wf t \<Longrightarrow> tbl_wf (tbl_insert r t)"
proof -
  assume wf: "tbl_wf t"
  then have "\<forall>i \<in> fst ` set t. i < tbl_next_id t"
    using tbl_next_id_gt by blast
  with wf tbl_next_id_pos [OF wf] show ?thesis
    by (simp add: tbl_wf_def tbl_insert_def sorted_wrt_append)
qed

lemma map_fst_update:
  "map fst (map (\<lambda>(i, r). if i = k then (i, f r) else (i, r)) t) = map fst t"
  by (induction t) auto

lemma tbl_update_Inr:
  "tbl_update k f t = Inr t' \<longleftrightarrow>
     (\<exists>r. map_of t k = Some r) \<and> t' = map (\<lambda>(i, r). if i = k then (i, f r) else (i, r)) t"
  by (auto simp: tbl_update_def tbl_get_def split: option.splits)

lemma tbl_update_Inl: "tbl_update k f t = Inl e \<longleftrightarrow> map_of t k = None \<and> e = NotFoundError k"
  by (auto simp: tbl_update_def tbl_get_def split: option.splits)

lemma tbl_delete_Inr:
  "tbl_delete k t = Inr t' \<longleftrightarrow> (\<exists>r. map_of t k = Some r) \<and> t' = filter (\<lambda>(i, r). i \<noteq> k) t"
  by (auto simp: tbl_delete_def tbl_get_def split: option.splits)

lemma tbl_delete_Inl: "tbl_delete k t = Inl e \<longleftrightarrow> map_of t k = None \<and> e = NotFoundError k"
  by (auto simp: tbl_delete_def tbl_get_def split: option.splits)

lemma tbl_update_keys: "tbl_update k f t = Inr t' \<Longrightarrow> map fst t' = map fst t"
  unfolding tbl_update_Inr by (simp only: map_fst_update)

lemma tbl_wf_update: "tbl_wf t \<Longrightarrow> tbl_update k f t = Inr t' \<Longrightarrow> tbl_wf t'"
  unfolding tbl_wf_def by (drule tbl_update_keys) argo

lemma sorted_wrt_filter_map_fst:
  "sorted_wrt (<) (map fst t) \<Longrightarrow> sorted_wrt (<) (map fst (filter P t))"
  by (induction t) auto

lemma tbl_wf_delete: "tbl_wf t \<Longrightarrow> tbl_delete k t = Inr t' \<Longrightarrow> tbl_wf t'"
  by (auto simp: tbl_delete_Inr tbl_wf_def sorted_wrt_filter_map_fst list_all_iff)

text \<open>A property of every stored row is kept by an insert of a row that has
  it, by an update whose function gives it, and by a delete.\<close>

lemma tbl_rows_insert:
  "list_all (\<lambda>(i, r). P r) t \<Longrightarrow> P r \<Longrightarrow> list_all (\<lambda>(i, r). P r) (tbl_insert r t)"
  by (simp add: tbl_insert_def)

lemma tbl_rows_update:
  "list_all (\<lambda>(i, r). P r) t \<Longrightarrow> (\<And>r. P (f r)) \<Longrightarrow> tbl_update k f t = Inr t' \<Longrightarrow>
     list_all (\<lambda>(i, r). P r) t'"
  by (auto simp: tbl_update_Inr list_all_iff split: if_splits)

lemma tbl_rows_delete:
  "list_all (\<lambda>(i, r). P r) t \<Longrightarrow> tbl_delete k t = Inr t' \<Longrightarrow> list_all (\<lambda>(i, r). P r) t'"
  by (auto simp: tbl_delete_Inr list_all_iff)

text \<open>Deleting the newest row leaves the older rows; the next id is then
  the largest remaining id plus one: at most the deleted id, and equal to it
  exactly when the deleted id was 1 or its predecessor is still stored.\<close>

lemma tbl_delete_last:
  assumes "tbl_wf (xs @ [(k, r)])"
  shows "tbl_delete k (xs @ [(k, r)]) = Inr xs"
proof -
  have "\<forall>i \<in> fst ` set xs. i < k"
    using assms by (auto simp: tbl_wf_def sorted_wrt_append)
  then have "filter (\<lambda>(i, r). i \<noteq> k) xs = xs"
    by (intro filter_True) auto
  moreover have "map_of xs k = None"
    using \<open>\<forall>i \<in> fst ` set xs. i < k\<close> by (auto simp: map_of_eq_None_iff)
  ultimately show ?thesis
    by (simp add: tbl_delete_def tbl_get_def map_add_def)
qed

lemma tbl_next_id_reuse:
  assumes wf: "tbl_wf (xs @ [(k, r)])"
  shows "tbl_next_id xs \<le> k \<and> (tbl_next_id xs = k \<longleftrightarrow> k = 1 \<or> k - 1 \<in> fst ` set (xs @ [(k, r)]))"
proof -
  have lt: "\<forall>i \<in> fst ` set xs. i < k" and pos: "0 < k" and wfx: "tbl_wf xs"
    using wf by (auto simp: tbl_wf_def sorted_wrt_append list_all_iff)
  show ?thesis
  proof (cases xs rule: rev_cases)
    case Nil
    then show ?thesis using pos by (auto simp: tbl_next_id_def)
  next
    case (snoc ys y)
    have y: "fst y < k" "0 < fst y"
      using lt wfx snoc by (auto simp: tbl_wf_def list_all_iff)
    have le: "i < fst y + 1" if "i \<in> fst ` set xs" for i
      using tbl_next_id_gt [OF wfx that] snoc by (simp add: tbl_next_id_def)
    have iff: "k - 1 \<in> fst ` set xs \<longleftrightarrow> fst y = k - 1"
    proof
      assume "k - 1 \<in> fst ` set xs"
      then have "k - 1 < fst y + 1" by (rule le)
      with y show "fst y = k - 1" by simp
    next
      assume "fst y = k - 1"
      then show "k - 1 \<in> fst ` set xs"
        unfolding snoc by simp
    qed
    have "k - 1 \<in> fst ` set (xs @ [(k, r)]) \<longleftrightarrow> k - 1 \<in> fst ` set xs"
      by auto
    moreover have "tbl_next_id xs = fst y + 1"
      by (simp add: snoc tbl_next_id_def)
    ultimately show ?thesis
      using y iff by auto
  qed
qed

lemma tbl_select_desc_sorted:
  "tbl_wf t \<Longrightarrow> sorted_wrt (>) (map fst (tbl_select_desc P t))"
  by (simp add: tbl_select_desc_def tbl_wf_def rev_map [symmetric] sorted_wrt_rev
      sorted_wrt_filter_map_fst)

lemma tbl_select_desc_set:
  "set (tbl_select_desc P t) = {(i, r). (i, r) \<in> set t \<and> P r}"
  by (auto simp: tbl_select_desc_def)

lemma map_of_update_other:
  "j \<noteq> k \<Longrightarrow> map_of (map (\<lambda>(i, r). if i = k then (i, f r) else (i, r)) t) j = map_of t j"
  by (induction t) auto

lemma map_of_update_same:
  "map_of (map (\<lambda>(i, r). if i = k then (i, f r) else (i, r)) t) k = map_option f (map_of t k)"
  by (induction t) auto

lemma tbl_wf_distinct: "tbl_wf t \<Longrightarrow> distinct (map fst t)"
  by (simp add: tbl_wf_def strict_sorted_iff)

lemma tbl_wf_map_of: "tbl_wf t \<Longrightarrow> (i, r) \<in> set t \<Longrightarrow> map_of t i = Some r"
  by (simp add: map_of_is_SomeI tbl_wf_distinct)

lemma set_update_rows:
  "(j, r') \<in> set (map (\<lambda>(i, r). if i = k then (i, f r) else (i, r)) t) \<Longrightarrow>
     \<exists>r. (j, r) \<in> set t \<and> (if j = k then r' = f r else r' = r)"
  by (auto split: if_splits)

lemma map_of_filter_key: "map_of (filter (\<lambda>(j, r). j \<noteq> k) t) = (map_of t)(k := None)"
  by (induction t) (auto simp: fun_eq_iff)

lemma map_update_id:
  "(\<And>s. (k, s) \<in> set t \<Longrightarrow> f s = s) \<Longrightarrow>
     map (\<lambda>(i, r). if i = k then (i, f r) else (i, r)) t = t"
  by (induction t) auto

lemma map_update_comp:
  "map (\<lambda>(i, r). if i = k then (i, g r) else (i, r)) (map (\<lambda>(i, r). if i = k then (i, f r) else (i, r)) t) =
     map (\<lambda>(i, r). if i = k then (i, g (f r)) else (i, r)) t"
  by (induction t) auto

lemma map_of_tbl_update:
  "tbl_update k f t = Inr t' \<Longrightarrow> map_of t' = (map_of t)(k := map_option f (map_of t k))"
  by (auto simp: tbl_update_Inr fun_eq_iff map_of_update_other map_of_update_same)

text \<open>An update that leaves the row as it is leaves the table as it is.\<close>

lemma tbl_update_same:
  assumes wf: "tbl_wf t" and row: "map_of t k = Some r" and same: "f r = r"
  shows "tbl_update k f t = Inr t"
proof -
  have "f s = s" if "(k, s) \<in> set t" for s
    using tbl_wf_map_of [OF wf that] row same by simp
  with row show ?thesis
    by (simp add: tbl_update_Inr map_update_id)
qed

text \<open>Two updates of one row whose second undoes the first leave the table
  as it was.\<close>

lemma tbl_update_undo:
  assumes wf: "tbl_wf t" and row: "map_of t k = Some r" and undo: "g (f r) = r"
  shows "\<exists>t1. tbl_update k f t = Inr t1 \<and> tbl_update k g t1 = Inr t"
proof -
  let ?t1 = "map (\<lambda>(i, r). if i = k then (i, f r) else (i, r)) t"
  have "g (f s) = s" if "(k, s) \<in> set t" for s
    using tbl_wf_map_of [OF wf that] row undo by simp
  then have "map (\<lambda>(i, r). if i = k then (i, g r) else (i, r)) ?t1 = t"
    unfolding map_update_comp by (rule map_update_id)
  moreover have "map_of ?t1 k = Some (f r)"
    using row by (simp add: map_of_update_same)
  ultimately show ?thesis
    using row by (simp add: tbl_update_Inr)
qed

end
