(* ===== verification/Web.thy ===== *)
theory Web
  imports Table
begin

text \<open>
  What the FastHTML apps (notes, menu) share: the reply of a handler, the
  HTML they render reduced to its data (headings, texts and the forms with
  their button, method and action URL), and Starlette's routing of a path with
  an integer parameter. These are library behaviours, stated here as the apps
  rely on them:
  \<^item> a handler that returns \<open>RedirectResponse(url, status_code=303)\<close> gives
    \<open>Redirect url 303\<close>; an exception it lets escape (\<open>NotFoundError\<close> of the
    table) becomes a 500 reply, and since the table looks the row up before it
    writes, the database is unchanged (\<open>redirect_or_error\<close>);
  \<^item> a route \<open>'/archive/{note_id}'\<close> matches a path that starts with the
    fixed part and continues with one non-empty segment without \<open>/\<close>; the
    parameter annotated \<open>int\<close> is converted with \<open>int()\<close> (\<open>route_int\<close>);
  \<^item> the apps are served at the root of their own port, while their pages
    link to \<open>/notes/...\<close> and \<open>/menu/...\<close>: a front proxy that removes that
    prefix (\<open>unmount\<close>) is assumed between the browser and the app.
\<close>

datatype reply = Redirect pystr nat | ServerError db_error

datatype html_form = HtmlForm (form_button: pystr) (form_method: pystr) (form_action: pystr)

record card =
  card_heading :: pystr
  card_body :: pystr
  card_forms :: "html_form list"

definition redirect_or_error :: "pystr \<Rightarrow> 's \<Rightarrow> db_error + 's \<Rightarrow> reply \<times> 's" where
  "redirect_or_error url s r =
     (case r of Inl e \<Rightarrow> (ServerError e, s) | Inr s' \<Rightarrow> (Redirect url 303, s'))"

definition route_param :: "pystr \<Rightarrow> pystr \<Rightarrow> pystr option" where
  "route_param pre p =
     (if py_startswith p pre
      then let seg = drop (length pre) p in
           if seg \<noteq> [] \<and> CHR ''/'' \<notin> set seg then Some seg else None
      else None)"

definition route_int :: "pystr \<Rightarrow> pystr \<Rightarrow> int option" where
  "route_int pre p = (case route_param pre p of None \<Rightarrow> None | Some seg \<Rightarrow> py_int seg)"

definition unmount :: "pystr \<Rightarrow> pystr \<Rightarrow> pystr" where
  "unmount m p = (if py_startswith p m then drop (length m) p else p)"

text \<open>The heading of a card, \<open>f"Item #{id}"\<close>.\<close>

definition item_heading :: "int \<Rightarrow> pystr" where
  "item_heading i = ''Item #'' @ py_str_int i"

subsection \<open>Lemmas\<close>

lemma redirect_or_error_Inl [simp]: "redirect_or_error url s (Inl e) = (ServerError e, s)"
  by (simp add: redirect_or_error_def)

lemma redirect_or_error_Inr [simp]: "redirect_or_error url s (Inr s') = (Redirect url 303, s')"
  by (simp add: redirect_or_error_def)

text \<open>A property of the state that the successful branch keeps is kept by
  the handler: the error branch returns the state unchanged.\<close>

lemma redirect_or_error_keeps:
  "P s \<Longrightarrow> (\<And>s'. r = Inr s' \<Longrightarrow> P s') \<Longrightarrow> P (snd (redirect_or_error url s r))"
  by (cases r) auto

lemma py_str_int_inj: "py_str_int i = py_str_int j \<Longrightarrow> i = j"
  by (metis option.inject py_int_py_str_int)

lemma item_heading_inj [dest]: "item_heading i = item_heading j \<Longrightarrow> i = j"
  by (simp add: item_heading_def py_str_int_inj)

lemma py_str_int_no_slash: "CHR ''/'' \<notin> set (py_str_int i)"
proof -
  have "\<not> py_isdigit CHR ''/''"
    by (simp add: py_isdigit_def)
  then show ?thesis
    by (auto simp: py_str_int_def dest: dec_digits_digit)
qed

lemma py_str_int_ne: "py_str_int i \<noteq> []"
  by (simp add: py_str_int_def)

text \<open>Printing an id into a path and routing the path gives the id back.\<close>

lemma route_int_py_str_int [simp]: "route_int pre (pre @ py_str_int i) = Some i"
  by (simp add: route_int_def route_param_def py_startswith_def py_str_int_no_slash py_str_int_ne)

lemma route_int_other:
  "\<not> py_startswith p pre \<Longrightarrow> route_int pre p = None"
  by (simp add: route_int_def route_param_def)

lemma unmount_append [simp]: "unmount m (m @ p) = p"
  by (simp add: unmount_def py_startswith_def)

end
