(* ===== verification/Notes.thy ===== *)
theory Notes
  imports Web
begin

text \<open>
  The notes (shopping list) app, \<^verbatim>\<open>src/notes/main.py\<close>: one table
  \<open>notes(id, content, created_at, status)\<close>, four POST handlers that change it
  and the page that lists it. The state is the table (\<open>note_row table\<close>); each
  handler is a function from the table to a reply and the new table, and a
  session is the list of requests applied in order (\<open>notes_run\<close>). The page
  keeps what the code puts in it: the title, the action of the add form, and
  for each note its heading, its text and its forms; styles are left out.
\<close>

record note_row =
  note_content :: pystr
  note_created :: pystr
  note_status :: "pystr option"

datatype notes_req =
  NotesAdd pystr pystr
  | NotesArchive int
  | NotesActivate int
  | NotesDelete int

text \<open>\<open>post(content)\<close>: the second argument is \<open>datetime.now().isoformat()\<close>.\<close>

definition notes_add :: "pystr \<Rightarrow> pystr \<Rightarrow> note_row table \<Rightarrow> reply \<times> note_row table" where
  "notes_add content now t =
     (Redirect ''/notes'' 303,
      if py_strip content \<noteq> []
      then tbl_insert \<lparr>note_content = content, note_created = now, note_status = Some ''active''\<rparr> t
      else t)"

definition notes_archive :: "int \<Rightarrow> note_row table \<Rightarrow> reply \<times> note_row table" where
  "notes_archive k t =
     redirect_or_error ''/notes'' t (tbl_update k (\<lambda>n. n\<lparr>note_status := Some ''archived''\<rparr>) t)"

definition notes_activate :: "int \<Rightarrow> note_row table \<Rightarrow> reply \<times> note_row table" where
  "notes_activate k t =
     redirect_or_error ''/notes'' t (tbl_update k (\<lambda>n. n\<lparr>note_status := Some ''active''\<rparr>) t)"

definition notes_delete :: "int \<Rightarrow> note_row table \<Rightarrow> reply \<times> note_row table" where
  "notes_delete k t = redirect_or_error ''/notes'' t (tbl_delete k t)"

fun notes_handle :: "notes_req \<Rightarrow> note_row table \<Rightarrow> reply \<times> note_row table" where
  "notes_handle (NotesAdd c now) t = notes_add c now t"
| "notes_handle (NotesArchive k) t = notes_archive k t"
| "notes_handle (NotesActivate k) t = notes_activate k t"
| "notes_handle (NotesDelete k) t = notes_delete k t"

definition notes_run :: "notes_req list \<Rightarrow> note_row table \<Rightarrow> note_row table" where
  "notes_run rs t = foldl (\<lambda>t r. snd (notes_handle r t)) t rs"

text \<open>The POST routes with an id parameter, on the path the app receives.\<close>

definition notes_route :: "pystr \<Rightarrow> notes_req option" where
  "notes_route p =
     (case route_int ''/archive/'' p of
        Some i \<Rightarrow> Some (NotesArchive i)
      | None \<Rightarrow>
          (case route_int ''/activate/'' p of
             Some i \<Rightarrow> Some (NotesActivate i)
           | None \<Rightarrow> map_option NotesDelete (route_int ''/delete/'' p)))"

subsection \<open>The page\<close>

text \<open>The two queries of \<open>get()\<close>: \<open>status = "active" OR status IS NULL\<close>
  and \<open>status = "archived"\<close> (a NULL status is not equal to anything).\<close>

definition notes_is_active :: "note_row \<Rightarrow> bool" where
  "notes_is_active n \<longleftrightarrow> note_status n = Some ''active'' \<or> note_status n = None"

definition notes_is_archived :: "note_row \<Rightarrow> bool" where
  "notes_is_archived n \<longleftrightarrow> note_status n = Some ''archived''"

definition active_card :: "int \<times> note_row \<Rightarrow> card" where
  "active_card = (\<lambda>(i, n).
     \<lparr>card_heading = item_heading i, card_body = note_content n,
      card_forms = [HtmlForm ''Archive'' ''post'' (''/notes/archive/'' @ py_str_int i),
                    HtmlForm ''Delete'' ''post'' (''/notes/delete/'' @ py_str_int i)]\<rparr>)"

definition archived_card :: "int \<times> note_row \<Rightarrow> card" where
  "archived_card = (\<lambda>(i, n).
     \<lparr>card_heading = item_heading i, card_body = note_content n,
      card_forms = [HtmlForm ''Reactivate'' ''post'' (''/notes/activate/'' @ py_str_int i),
                    HtmlForm ''Delete'' ''post'' (''/notes/delete/'' @ py_str_int i)]\<rparr>)"

record notes_page =
  np_title :: pystr
  np_form_action :: pystr
  np_active :: "card list"
  np_archived :: "card list option"

text \<open>The archived section is rendered only when it has an entry
  (\<open>if len(archived_notes) > 0 else Div()\<close>).\<close>

definition notes_view :: "note_row table \<Rightarrow> notes_page" where
  "notes_view t =
     (let act = tbl_select_desc notes_is_active t;
          arc = tbl_select_desc notes_is_archived t
      in \<lparr>np_title = ''Lal-Zhao Family Shopping List'', np_form_action = ''/notes/add'',
          np_active = map active_card act,
          np_archived = (if 0 < length arc then Some (map archived_card arc) else None)\<rparr>)"

text \<open>The invariant of the table: well-formed ids, and every status is one the
  handlers write.\<close>

definition notes_inv :: "note_row table \<Rightarrow> bool" where
  "notes_inv t \<longleftrightarrow>
     tbl_wf t \<and>
     list_all (\<lambda>(i, n). note_status n = Some ''active'' \<or> note_status n = Some ''archived'') t"

subsection \<open>Lemmas\<close>

lemmas notes_handlers = notes_add_def notes_archive_def notes_activate_def notes_delete_def

lemma notes_run_Nil [simp]: "notes_run [] t = t"
  by (simp add: notes_run_def)

lemma notes_run_Cons [simp]: "notes_run (r # rs) t = notes_run rs (snd (notes_handle r t))"
  by (simp add: notes_run_def)

lemma notes_inv_Nil [simp]: "notes_inv []"
  by (simp add: notes_inv_def)

lemma notes_inv_status:
  "notes_inv t \<Longrightarrow> (i, n) \<in> set t \<Longrightarrow>
     note_status n = Some ''active'' \<or> note_status n = Some ''archived''"
  by (auto simp: notes_inv_def list_all_iff)

lemma notes_inv_set_status:
  assumes inv: "notes_inv t" and st: "s = ''active'' \<or> s = ''archived''"
    and upd: "tbl_update k (\<lambda>n. n\<lparr>note_status := Some s\<rparr>) t = Inr t'"
  shows "notes_inv t'"
proof -
  have "tbl_wf t'"
    using inv upd tbl_wf_update by (auto simp: notes_inv_def)
  moreover have "note_status r' = Some ''active'' \<or> note_status r' = Some ''archived''"
    if "(j, r') \<in> set t'" for j r'
    using that upd st set_update_rows [of j r' k _ t] notes_inv_status [OF inv]
    by (fastforce simp: tbl_update_Inr split: if_splits)
  ultimately show ?thesis
    by (auto simp: notes_inv_def list_all_iff)
qed

lemma notes_inv_step:
  assumes inv: "notes_inv t"
  shows "notes_inv (snd (notes_handle r t))"
proof (cases r)
  case (NotesAdd c now)
  then show ?thesis
    using inv tbl_wf_insert by (auto simp: notes_add_def notes_inv_def tbl_insert_def)
next
  case (NotesArchive k)
  then show ?thesis
    using inv notes_inv_set_status [OF inv, of "''archived''" k]
    by (simp add: notes_archive_def redirect_or_error_keeps)
next
  case (NotesActivate k)
  then show ?thesis
    using inv notes_inv_set_status [OF inv, of "''active''" k]
    by (simp add: notes_activate_def redirect_or_error_keeps)
next
  case (NotesDelete k)
  have "notes_inv t'" if "tbl_delete k t = Inr t'" for t'
    using inv that tbl_wf_delete [of t k]
    by (auto simp: notes_inv_def tbl_delete_Inr list_all_iff)
  with NotesDelete inv show ?thesis
    by (simp add: notes_delete_def redirect_or_error_keeps)
qed

lemma notes_view_active: "np_active (notes_view t) = map active_card (tbl_select_desc notes_is_active t)"
  by (simp add: notes_view_def Let_def)

lemma notes_view_archived:
  "np_archived (notes_view t) =
     (if tbl_select_desc notes_is_archived t = [] then None
      else Some (map archived_card (tbl_select_desc notes_is_archived t)))"
  by (simp add: notes_view_def Let_def)

lemma active_card_heading [simp]: "card_heading (active_card x) = item_heading (fst x)"
  by (simp add: active_card_def split: prod.split)

lemma archived_card_heading [simp]: "card_heading (archived_card x) = item_heading (fst x)"
  by (simp add: archived_card_def split: prod.split)

lemma notes_route_archive: "notes_route (''/archive/'' @ py_str_int i) = Some (NotesArchive i)"
  by (simp only: notes_route_def route_int_py_str_int option.case)

lemma notes_route_activate: "notes_route (''/activate/'' @ py_str_int i) = Some (NotesActivate i)"
proof -
  have "route_int ''/archive/'' (''/activate/'' @ py_str_int i) = None"
    by (simp add: route_int_other py_startswith_def)
  then show ?thesis
    by (simp only: notes_route_def route_int_py_str_int option.case)
qed

lemma notes_route_delete: "notes_route (''/delete/'' @ py_str_int i) = Some (NotesDelete i)"
proof -
  have "route_int ''/archive/'' (''/delete/'' @ py_str_int i) = None"
    "route_int ''/activate/'' (''/delete/'' @ py_str_int i) = None"
    by (simp_all add: route_int_other py_startswith_def)
  then show ?thesis
    by (simp only: notes_route_def route_int_py_str_int option.case option.map)
qed

subsection \<open>Properties\<close>

text \<open>C18. Invariant of the notes table: from a table whose ids are positive,
  increasing and distinct and whose statuses are \<open>active\<close> or \<open>archived\<close>,
  every sequence of requests, failing ones included, keeps it so.\<close>

theorem notes_inv_run: "notes_inv t \<Longrightarrow> notes_inv (notes_run rs t)"
proof (induction rs arbitrary: t)
  case (Cons r rs)
  then show ?case by (simp add: notes_inv_step)
qed simp

theorem notes_inv_run_witness:
  "notes_inv (notes_run [NotesAdd ''milk'' ''t0'', NotesArchive 1, NotesDelete 7] [])"
  using notes_inv_run [of "[]" "[NotesAdd ''milk'' ''t0'', NotesArchive 1, NotesDelete 7]"]
  by simp

text \<open>C19. Adding a note: a content that is blank after \<open>strip()\<close> changes
  nothing; any other content, stored as typed (not stripped), with the current
  time and status \<open>active\<close>, under the next id, becomes the first card of the
  active list, above the cards that were there.\<close>

theorem notes_add_listed_first:
  "np_active (notes_view (snd (notes_handle (NotesAdd c now) t))) =
     (if py_strip c = [] then np_active (notes_view t)
      else active_card (tbl_next_id t,
             \<lparr>note_content = c, note_created = now, note_status = Some ''active''\<rparr>)
           # np_active (notes_view t))"
  by (simp add: notes_view_active notes_add_def tbl_insert_def tbl_select_desc_def
      notes_is_active_def)

text \<open>C20. Archiving a note and reactivating it gives back the table it was
  taken from, in a reachable table (distinct ids), for a note that was
  active.\<close>

theorem notes_archive_activate:
  assumes "notes_inv t" and "map_of t i = Some n" and "note_status n = Some ''active''"
  shows "notes_run [NotesArchive i, NotesActivate i] t = t"
proof -
  have "tbl_wf t" using assms(1) by (simp add: notes_inv_def)
  moreover have "(n\<lparr>note_status := Some ''archived''\<rparr>)\<lparr>note_status := Some ''active''\<rparr> = n"
    using assms(3) by simp
  ultimately obtain t1 where
    "tbl_update i (\<lambda>n. n\<lparr>note_status := Some ''archived''\<rparr>) t = Inr t1"
    "tbl_update i (\<lambda>n. n\<lparr>note_status := Some ''active''\<rparr>) t1 = Inr t"
    using tbl_update_undo [OF _ assms(2)] by blast
  then show ?thesis
    by (simp add: notes_archive_def notes_activate_def)
qed

theorem notes_archive_activate_witness:
  "notes_run [NotesArchive 1, NotesActivate 1]
     [(1, \<lparr>note_content = ''milk'', note_created = ''t0'', note_status = Some ''active''\<rparr>)] =
   [(1, \<lparr>note_content = ''milk'', note_created = ''t0'', note_status = Some ''active''\<rparr>)]"
  using notes_archive_activate [of "[(1, \<lparr>note_content = ''milk'', note_created = ''t0'',
      note_status = Some ''active''\<rparr>)]" 1 "\<lparr>note_content = ''milk'', note_created = ''t0'',
      note_status = Some ''active''\<rparr>"]
  by (simp add: notes_inv_def tbl_wf_def)

text \<open>C21. Archiving an existing note moves it: the archived section is shown
  and holds its card with status \<open>archived\<close>, and no card of the active list
  carries its heading any more.\<close>

theorem notes_archive_moves:
  assumes "map_of t i = Some n"
  shows "(\<exists>cs. np_archived (notes_view (snd (notes_handle (NotesArchive i) t))) = Some cs \<and>
            archived_card (i, n\<lparr>note_status := Some ''archived''\<rparr>) \<in> set cs) \<and>
         item_heading i \<notin> card_heading ` set (np_active (notes_view (snd (notes_handle (NotesArchive i) t))))"
proof -
  define f where "f = (\<lambda>n::note_row. n\<lparr>note_status := Some ''archived''\<rparr>)"
  define t' where "t' = map (\<lambda>(j, r). if j = i then (j, f r) else (j, r)) t"
  have t': "snd (notes_handle (NotesArchive i) t) = t'"
    unfolding t'_def f_def using assms by (simp add: notes_archive_def tbl_update_def tbl_get_def)
  have "(i, n) \<in> set t" using assms by (rule map_of_SomeD)
  then have "(i, f n) \<in> set t'" unfolding t'_def by force
  then have "(i, f n) \<in> set (tbl_select_desc notes_is_archived t')"
    by (simp add: tbl_select_desc_set notes_is_archived_def f_def)
  then have arc: "\<exists>cs. np_archived (notes_view t') = Some cs \<and> archived_card (i, f n) \<in> set cs"
    unfolding notes_view_archived by auto
  have noti: "j \<noteq> i" if "(j, r) \<in> set t'" "notes_is_active r" for j r
    using that set_update_rows [of j r i f t]
    by (auto simp: notes_is_active_def t'_def f_def)
  have "card_heading c \<noteq> item_heading i" if c: "c \<in> set (np_active (notes_view t'))" for c
  proof -
    obtain j r where jr: "(j, r) \<in> set t'" "notes_is_active r" and cj: "c = active_card (j, r)"
      using c by (auto simp: notes_view_active tbl_select_desc_set)
    from jr have "j \<noteq> i" by (rule noti)
    with cj show ?thesis by auto
  qed
  then have "item_heading i \<notin> card_heading ` set (np_active (notes_view t'))"
    unfolding image_iff by metis
  with arc t' show ?thesis by (simp add: f_def)
qed

theorem notes_archive_moves_witness:
  "(\<exists>cs. np_archived (notes_view (snd (notes_handle (NotesArchive 1)
            [(1, \<lparr>note_content = ''milk'', note_created = ''t0'', note_status = Some ''active''\<rparr>)])))
          = Some cs \<and>
          archived_card (1, \<lparr>note_content = ''milk'', note_created = ''t0'', note_status = Some ''archived''\<rparr>)
            \<in> set cs) \<and>
   item_heading 1 \<notin> card_heading ` set (np_active (notes_view (snd (notes_handle (NotesArchive 1)
            [(1, \<lparr>note_content = ''milk'', note_created = ''t0'', note_status = Some ''active''\<rparr>)]))))"
  using notes_archive_moves [of "[(1, \<lparr>note_content = ''milk'', note_created = ''t0'',
      note_status = Some ''active''\<rparr>)]" 1] by simp

text \<open>C22. A request on an id that is not in the table fails with
  \<open>NotFoundError\<close> (a 500 reply) and leaves the table unchanged, for archive,
  reactivate and delete alike.\<close>

theorem notes_missing_id:
  assumes "map_of t i = None"
  shows "notes_handle (NotesArchive i) t = (ServerError (NotFoundError i), t) \<and>
         notes_handle (NotesActivate i) t = (ServerError (NotFoundError i), t) \<and>
         notes_handle (NotesDelete i) t = (ServerError (NotFoundError i), t)"
  using assms by (simp add: notes_handlers tbl_update_def tbl_delete_def tbl_get_def)

theorem notes_missing_id_witness:
  "notes_handle (NotesArchive 5) [] = (ServerError (NotFoundError 5), []) \<and>
   notes_handle (NotesActivate 5) [] = (ServerError (NotFoundError 5), []) \<and>
   notes_handle (NotesDelete 5) [] = (ServerError (NotFoundError 5), [])"
  using notes_missing_id [of "[]" 5] by simp

text \<open>Deleting an existing note redirects to the list and removes exactly
  that note: every other id keeps its row.\<close>

theorem notes_delete_removes:
  assumes "map_of t i \<noteq> None"
  shows "notes_handle (NotesDelete i) t = (Redirect ''/notes'' 303, filter (\<lambda>(j, r). j \<noteq> i) t) \<and>
         map_of (snd (notes_handle (NotesDelete i) t)) = (map_of t)(i := None)"
  using assms by (auto simp: notes_delete_def tbl_delete_def tbl_get_def map_of_filter_key)

theorem notes_delete_removes_witness:
  "notes_handle (NotesDelete 1)
     [(1, \<lparr>note_content = ''milk'', note_created = ''t0'', note_status = Some ''active''\<rparr>)] =
     (Redirect ''/notes'' 303, []) \<and>
   map_of (snd (notes_handle (NotesDelete 1)
     [(1, \<lparr>note_content = ''milk'', note_created = ''t0'', note_status = Some ''active''\<rparr>)])) =
     (map_of [(1::int, \<lparr>note_content = ''milk'', note_created = ''t0'', note_status = Some ''active''\<rparr>)])
       (1 := None)"
  using notes_delete_removes [of "[(1, \<lparr>note_content = ''milk'', note_created = ''t0'',
      note_status = Some ''active''\<rparr>)]" 1] by simp

text \<open>Round trip of the links on the page: each form of a card, its
  action with the \<open>/notes\<close> prefix removed, routes to the request on the
  card's own id (\<open>int(str(i)) = i\<close>, negative ids included).\<close>

theorem notes_card_routes:
  "map (\<lambda>f. notes_route (unmount ''/notes'' (form_action f))) (card_forms (active_card (i, n))) =
     [Some (NotesArchive i), Some (NotesDelete i)] \<and>
   map (\<lambda>f. notes_route (unmount ''/notes'' (form_action f))) (card_forms (archived_card (i, n))) =
     [Some (NotesActivate i), Some (NotesDelete i)]"
proof -
  have paths: "''/notes/archive/'' @ x = ''/notes'' @ ''/archive/'' @ x"
    "''/notes/activate/'' @ x = ''/notes'' @ ''/activate/'' @ x"
    "''/notes/delete/'' @ x = ''/notes'' @ ''/delete/'' @ x" for x :: pystr
    by simp_all
  show ?thesis
    unfolding active_card_def archived_card_def prod.case card.simps html_form.sel list.map
      paths unmount_append notes_route_archive notes_route_activate notes_route_delete
    by (rule conjI refl)+
qed

text \<open>C23. Ids are reused: SQLite gives a new row the largest id plus one,
  so when the newest note, with id \<open>k\<close>, is deleted, the next note added
  gets an id \<open>j \<le> k\<close>, and gets \<open>k\<close> itself exactly when \<open>k = 1\<close> or note
  \<open>k - 1\<close> is still stored (always, on a list only ever added to). A form of
  the deleted note still on a page then acts on the new note.\<close>

theorem notes_id_reuse:
  assumes wf: "tbl_wf t" and ne: "t \<noteq> []" and k: "fst (last t) = k" and c: "py_strip c \<noteq> []"
  shows "\<exists>j. notes_run [NotesDelete k, NotesAdd c now] t =
               butlast t @ [(j, \<lparr>note_content = c, note_created = now, note_status = Some ''active''\<rparr>)] \<and>
             j \<le> k \<and> (j = k \<longleftrightarrow> k = 1 \<or> k - 1 \<in> fst ` set t)"
proof -
  obtain xs r where t: "t = xs @ [(k, r)]"
    using ne k by (cases t rule: rev_cases) auto
  have "notes_run [NotesDelete k, NotesAdd c now] t =
      xs @ [(tbl_next_id xs, \<lparr>note_content = c, note_created = now, note_status = Some ''active''\<rparr>)]"
    using tbl_delete_last [of xs k r] wf c
    by (simp add: t notes_handlers redirect_or_error_def tbl_insert_def)
  then show ?thesis
    using tbl_next_id_reuse [of xs k r] wf by (auto simp: t)
qed

theorem notes_id_reuse_witness:
  "\<exists>j. notes_run [NotesDelete 2, NotesAdd ''bread'' ''t2'']
          [(1, \<lparr>note_content = ''milk'', note_created = ''t0'', note_status = Some ''active''\<rparr>),
           (2, \<lparr>note_content = ''eggs'', note_created = ''t1'', note_status = Some ''active''\<rparr>)] =
        [(1, \<lparr>note_content = ''milk'', note_created = ''t0'', note_status = Some ''active''\<rparr>)] @
          [(j, \<lparr>note_content = ''bread'', note_created = ''t2'', note_status = Some ''active''\<rparr>)] \<and>
        j \<le> 2 \<and> j = 2"
  using notes_id_reuse [of "[(1, \<lparr>note_content = ''milk'', note_created = ''t0'', note_status = Some ''active''\<rparr>),
           (2, \<lparr>note_content = ''eggs'', note_created = ''t1'', note_status = Some ''active''\<rparr>)]"
      2 "''bread''" "''t2''"]
  by (simp add: tbl_wf_def pystr_simps)

end
