(* ===== verification/Menu.thy ===== *)
theory Menu
  imports Web
begin

text \<open>
  The menu app, \<^verbatim>\<open>src/menu/main.py\<close>: one table
  \<open>menu_items(id, content, created_at)\<close>, the POST handlers \<open>post\<close>,
  \<open>update\<close> and \<open>delete\<close> that change it, and the two pages: the list of
  items (\<open>get()\<close>) and the edit form of one item (\<open>edit(item_id)\<close>). As in
  \<open>Notes\<close>, a handler maps the table to a reply and the new table, and a
  session is the list of requests applied in order (\<open>menu_run\<close>).
\<close>

record menu_item =
  item_content :: pystr
  item_created :: pystr

datatype menu_req =
  MenuAdd pystr pystr
  | MenuUpdate int pystr
  | MenuDelete int

definition menu_add :: "pystr \<Rightarrow> pystr \<Rightarrow> menu_item table \<Rightarrow> reply \<times> menu_item table" where
  "menu_add content now t =
     (Redirect ''/menu'' 303,
      if py_strip content \<noteq> []
      then tbl_insert \<lparr>item_content = content, item_created = now\<rparr> t
      else t)"

text \<open>\<open>update(item_id, content)\<close>: the strip test comes first, so a blank
  content redirects without looking the id up.\<close>

definition menu_update :: "int \<Rightarrow> pystr \<Rightarrow> menu_item table \<Rightarrow> reply \<times> menu_item table" where
  "menu_update k content t =
     (if py_strip content \<noteq> []
      then redirect_or_error ''/menu'' t (tbl_update k (\<lambda>r. r\<lparr>item_content := content\<rparr>) t)
      else (Redirect ''/menu'' 303, t))"

definition menu_delete :: "int \<Rightarrow> menu_item table \<Rightarrow> reply \<times> menu_item table" where
  "menu_delete k t = redirect_or_error ''/menu'' t (tbl_delete k t)"

fun menu_handle :: "menu_req \<Rightarrow> menu_item table \<Rightarrow> reply \<times> menu_item table" where
  "menu_handle (MenuAdd c now) t = menu_add c now t"
| "menu_handle (MenuUpdate k c) t = menu_update k c t"
| "menu_handle (MenuDelete k) t = menu_delete k t"

definition menu_run :: "menu_req list \<Rightarrow> menu_item table \<Rightarrow> menu_item table" where
  "menu_run rs t = foldl (\<lambda>t r. snd (menu_handle r t)) t rs"

text \<open>The invariant of the menu table: well formed, and no stored item is
  blank after \<open>strip()\<close>, since \<open>post\<close> and \<open>update\<close> test the content
  before they write it.\<close>

definition menu_inv :: "menu_item table \<Rightarrow> bool" where
  "menu_inv t \<longleftrightarrow> tbl_wf t \<and> list_all (\<lambda>(i, r). py_strip (item_content r) \<noteq> []) t"

text \<open>The routes with an id: GET \<open>/edit/{item_id}\<close>, and the POST routes
  \<open>/update/{item_id}\<close> (with the form field \<open>content\<close>) and
  \<open>/delete/{item_id}\<close>.\<close>

definition menu_get_route :: "pystr \<Rightarrow> int option" where
  "menu_get_route p = route_int ''/edit/'' p"

definition menu_post_route :: "pystr \<Rightarrow> pystr \<Rightarrow> menu_req option" where
  "menu_post_route p content =
     (case route_int ''/update/'' p of
        Some i \<Rightarrow> Some (MenuUpdate i content)
      | None \<Rightarrow> map_option MenuDelete (route_int ''/delete/'' p))"

subsection \<open>The pages\<close>

definition menu_card :: "int \<times> menu_item \<Rightarrow> card" where
  "menu_card = (\<lambda>(i, r).
     \<lparr>card_heading = item_heading i, card_body = item_content r,
      card_forms = [HtmlForm ''Edit'' ''get'' (''/menu/edit/'' @ py_str_int i),
                    HtmlForm ''Delete'' ''post'' (''/menu/delete/'' @ py_str_int i)]\<rparr>)"

record menu_page =
  mp_title :: pystr
  mp_form_action :: pystr
  mp_items :: "card list"

definition menu_view :: "menu_item table \<Rightarrow> menu_page" where
  "menu_view t =
     \<lparr>mp_title = ''Lal-Zhao Family Menu'', mp_form_action = ''/menu/add'',
      mp_items = map menu_card (tbl_select_desc (\<lambda>_. True) t)\<rparr>"

text \<open>The edit page: its title, the text area filled with the item's
  content, the action of the form and the target of the Cancel link.
  \<open>menu_items[item_id]\<close> raises \<open>NotFoundError\<close> for a missing id.\<close>

record edit_page =
  ep_title :: pystr
  ep_text :: pystr
  ep_action :: pystr
  ep_cancel :: pystr

definition menu_edit :: "int \<Rightarrow> menu_item table \<Rightarrow> db_error + edit_page" where
  "menu_edit k t =
     (case tbl_get k t of
        Inl e \<Rightarrow> Inl e
      | Inr r \<Rightarrow> Inr \<lparr>ep_title = ''Edit Item #'' @ py_str_int k, ep_text = item_content r,
                    ep_action = ''/menu/update/'' @ py_str_int k, ep_cancel = ''/menu''\<rparr>)"

subsection \<open>Lemmas\<close>

lemmas menu_handlers = menu_add_def menu_update_def menu_delete_def

lemma menu_run_Nil [simp]: "menu_run [] t = t"
  by (simp add: menu_run_def)

lemma menu_run_Cons [simp]: "menu_run (r # rs) t = menu_run rs (snd (menu_handle r t))"
  by (simp add: menu_run_def)

lemma menu_inv_step:
  assumes inv: "menu_inv t"
  shows "menu_inv (snd (menu_handle r t))"
proof (cases r)
  case (MenuAdd c now)
  then show ?thesis
    using inv by (simp add: menu_inv_def menu_add_def tbl_wf_insert tbl_rows_insert)
next
  case (MenuUpdate k c)
  have "menu_inv t'" if "py_strip c \<noteq> []" "tbl_update k (\<lambda>r. r\<lparr>item_content := c\<rparr>) t = Inr t'" for t'
    using inv that tbl_wf_update [OF _ that(2)]
      tbl_rows_update [where P = "\<lambda>r. py_strip (item_content r) \<noteq> []", OF _ _ that(2)]
    by (simp add: menu_inv_def)
  then show ?thesis
    using MenuUpdate inv by (auto simp: menu_update_def redirect_or_error_def split: sum.split)
next
  case (MenuDelete k)
  have "menu_inv t'" if "tbl_delete k t = Inr t'" for t'
    using inv tbl_wf_delete [OF _ that] tbl_rows_delete [OF _ that] by (simp add: menu_inv_def)
  then show ?thesis
    using MenuDelete inv by (auto simp: menu_delete_def redirect_or_error_def split: sum.split)
qed

lemma menu_route_update: "menu_post_route (''/update/'' @ py_str_int i) c = Some (MenuUpdate i c)"
  by (simp only: menu_post_route_def route_int_py_str_int option.case)

lemma menu_route_delete: "menu_post_route (''/delete/'' @ py_str_int i) c = Some (MenuDelete i)"
proof -
  have "route_int ''/update/'' (''/delete/'' @ py_str_int i) = None"
    by (simp add: route_int_other py_startswith_def)
  then show ?thesis
    by (simp only: menu_post_route_def route_int_py_str_int option.case option.map)
qed

lemma menu_route_edit: "menu_get_route (''/edit/'' @ py_str_int i) = Some i"
  by (simp only: menu_get_route_def route_int_py_str_int)

lemma menu_paths:
  "''/menu/edit/'' @ x = ''/menu'' @ ''/edit/'' @ x"
  "''/menu/update/'' @ x = ''/menu'' @ ''/update/'' @ x"
  "''/menu/delete/'' @ x = ''/menu'' @ ''/delete/'' @ x"
  by simp_all

lemma menu_edit_Some:
  "map_of t i = Some r \<Longrightarrow>
     menu_edit i t = Inr \<lparr>ep_title = ''Edit Item #'' @ py_str_int i, ep_text = item_content r,
                         ep_action = ''/menu/update/'' @ py_str_int i, ep_cancel = ''/menu''\<rparr>"
  by (simp add: menu_edit_def tbl_get_def)

subsection \<open>Properties\<close>

text \<open>C24. The menu table invariant holds under every sequence of requests,
  failing ones included: ids stay positive, increasing and distinct, and no
  item is ever stored blank after \<open>strip()\<close>, neither by \<open>post\<close> nor by
  \<open>update\<close>.\<close>

theorem menu_inv_run: "menu_inv t \<Longrightarrow> menu_inv (menu_run rs t)"
proof (induction rs arbitrary: t)
  case (Cons r rs)
  then show ?case by (simp add: menu_run_def menu_inv_step)
qed (simp add: menu_run_def)

theorem menu_inv_run_witness:
  "menu_inv (menu_run [MenuAdd ''soup'' ''t0'', MenuUpdate 1 ''  '', MenuUpdate 1 ''rice'', MenuDelete 3] [])"
  using menu_inv_run [of "[]" "[MenuAdd ''soup'' ''t0'', MenuUpdate 1 ''  '', MenuUpdate 1 ''rice'', MenuDelete 3]"]
  by (simp add: menu_inv_def)

text \<open>Adding an item: blank content (after \<open>strip()\<close>) changes nothing;
  other content, as typed, becomes the first card of the list under the next
  id.\<close>

theorem menu_add_listed_first:
  "mp_items (menu_view (snd (menu_handle (MenuAdd c now) t))) =
     (if py_strip c = [] then mp_items (menu_view t)
      else menu_card (tbl_next_id t, \<lparr>item_content = c, item_created = now\<rparr>) # mp_items (menu_view t))"
  by (simp add: menu_view_def menu_add_def tbl_insert_def tbl_select_desc_def)

text \<open>C25. Requests on an id that is not in the table: the edit page and
  delete raise \<open>NotFoundError\<close> (500) and leave the table unchanged; update
  raises it only for non-blank content, since its strip test runs before the
  lookup, and a blank update of a missing id redirects as if it had
  succeeded.\<close>

theorem menu_missing_id:
  assumes "map_of t i = None"
  shows "menu_edit i t = Inl (NotFoundError i) \<and>
         menu_handle (MenuDelete i) t = (ServerError (NotFoundError i), t) \<and>
         menu_handle (MenuUpdate i c) t =
           (if py_strip c = [] then Redirect ''/menu'' 303 else ServerError (NotFoundError i), t)"
  using assms
  by (simp add: menu_edit_def menu_update_def menu_delete_def tbl_get_def tbl_update_def
      tbl_delete_def)

theorem menu_missing_id_witness:
  "menu_edit 4 [] = Inl (NotFoundError 4) \<and>
   menu_handle (MenuDelete 4) [] = (ServerError (NotFoundError 4), []) \<and>
   menu_handle (MenuUpdate 4 '' '') [] =
     (if py_strip '' '' = [] then Redirect ''/menu'' 303 else ServerError (NotFoundError 4), [])"
  using menu_missing_id [of "[]" 4 "'' ''"] by simp

text \<open>C26. Updating an existing item redirects to the list; with non-blank
  content it replaces exactly that item's content (its creation time kept),
  with blank content it changes nothing.\<close>

theorem menu_update_existing:
  assumes "map_of t i = Some r"
  shows "fst (menu_handle (MenuUpdate i c) t) = Redirect ''/menu'' 303 \<and>
         map_of (snd (menu_handle (MenuUpdate i c) t)) =
           (if py_strip c = [] then map_of t else (map_of t)(i \<mapsto> r\<lparr>item_content := c\<rparr>))"
proof -
  have upd: "tbl_update i (\<lambda>r. r\<lparr>item_content := c\<rparr>) t =
      Inr (map (\<lambda>(j, s). if j = i then (j, s\<lparr>item_content := c\<rparr>) else (j, s)) t)"
    using assms by (simp add: tbl_update_Inr)
  show ?thesis
    using assms map_of_tbl_update [OF upd] upd by (simp add: menu_update_def)
qed

theorem menu_update_existing_witness:
  "fst (menu_handle (MenuUpdate 1 ''rice'') [(1, \<lparr>item_content = ''soup'', item_created = ''t0''\<rparr>)]) =
     Redirect ''/menu'' 303 \<and>
   map_of (snd (menu_handle (MenuUpdate 1 ''rice'') [(1, \<lparr>item_content = ''soup'', item_created = ''t0''\<rparr>)])) =
     (if py_strip ''rice'' = [] then map_of [(1::int, \<lparr>item_content = ''soup'', item_created = ''t0''\<rparr>)]
      else (map_of [(1::int, \<lparr>item_content = ''soup'', item_created = ''t0''\<rparr>)])
             (1 \<mapsto> \<lparr>item_content = ''soup'', item_created = ''t0''\<rparr>\<lparr>item_content := ''rice''\<rparr>))"
  using menu_update_existing [of "[(1, \<lparr>item_content = ''soup'', item_created = ''t0''\<rparr>)]" 1
      "\<lparr>item_content = ''soup'', item_created = ''t0''\<rparr>" "''rice''"]
  by simp

text \<open>C27. Round trip through the edit page: for an existing item the page
  opens with the item's content in the text area, its form posts to the update
  route of the same id, and saving it unchanged leaves the table as it was.\<close>

theorem menu_edit_save_roundtrip:
  assumes "tbl_wf t" and "map_of t i = Some r"
  shows "\<exists>p. menu_edit i t = Inr p \<and> ep_text p = item_content r \<and>
             menu_post_route (unmount ''/menu'' (ep_action p)) (ep_text p) =
               Some (MenuUpdate i (item_content r)) \<and>
             menu_handle (MenuUpdate i (item_content r)) t = (Redirect ''/menu'' 303, t)"
proof -
  have same: "tbl_update i (\<lambda>s. s\<lparr>item_content := item_content r\<rparr>) t = Inr t"
    using tbl_update_same [OF assms] by simp
  have route: "menu_post_route (unmount ''/menu'' (''/menu/update/'' @ py_str_int i)) c =
      Some (MenuUpdate i c)" for c
    unfolding menu_paths unmount_append by (rule menu_route_update)
  show ?thesis
    using menu_edit_Some [OF assms(2)] route same by (simp add: menu_update_def)
qed

theorem menu_edit_save_roundtrip_witness:
  "\<exists>p. menu_edit 1 [(1, \<lparr>item_content = ''soup'', item_created = ''t0''\<rparr>)] = Inr p \<and>
       ep_text p = ''soup'' \<and>
       menu_post_route (unmount ''/menu'' (ep_action p)) (ep_text p) = Some (MenuUpdate 1 ''soup'') \<and>
       menu_handle (MenuUpdate 1 ''soup'') [(1, \<lparr>item_content = ''soup'', item_created = ''t0''\<rparr>)] =
         (Redirect ''/menu'' 303, [(1, \<lparr>item_content = ''soup'', item_created = ''t0''\<rparr>)])"
  using menu_edit_save_roundtrip [of "[(1, \<lparr>item_content = ''soup'', item_created = ''t0''\<rparr>)]" 1
      "\<lparr>item_content = ''soup'', item_created = ''t0''\<rparr>"]
  by (simp add: tbl_wf_def)

text \<open>Round trip of the list page's links: the Edit button of a card is
  a GET form whose action routes to the edit page of the card's own id, and
  its Delete button posts to the delete route of that id.\<close>

theorem menu_card_routes:
  "form_method (card_forms (menu_card (i, r)) ! 0) = ''get'' \<and>
   menu_get_route (unmount ''/menu'' (form_action (card_forms (menu_card (i, r)) ! 0))) = Some i \<and>
   form_method (card_forms (menu_card (i, r)) ! 1) = ''post'' \<and>
   menu_post_route (unmount ''/menu'' (form_action (card_forms (menu_card (i, r)) ! 1))) c =
     Some (MenuDelete i)"
  unfolding menu_card_def prod.case card.simps html_form.sel nth_Cons_0 nth_Cons_Suc One_nat_def
    menu_paths unmount_append menu_route_edit menu_route_delete
  by (rule conjI refl)+

end
