(* ===== verification/Url.thy ===== *)
theory Url
  imports Prelude
begin

text \<open>
  URL text as the radio app produces and consumes it: Python's
  \<open>urllib.parse.quote\<close> (used by the index page to build a station's play URL)
  and the query-string parsing Starlette applies to the \<open>/proxy\<close> request
  (\<open>urllib.parse.parse_qsl\<close> with \<open>keep_blank_values=True\<close>, which splits on
  \<open>&\<close>, splits each pair at its first \<open>=\<close>, turns \<open>+\<close> into a space and
  percent-decodes with \<open>unquote\<close>; of repeated keys the last one wins).

  Text is UTF-8 encoded before quoting and decoded after unquoting. Bytes are
  \<open>nat\<close> values below 256. Since a \<open>pystr\<close> holds code points U+0000..U+00FF,
  decoding gives \<open>None\<close> when the Python result would leave that range
  (a longer UTF-8 sequence, or U+FFFD from \<open>errors='replace'\<close>).
\<close>

definition utf8_encode_char :: "char \<Rightarrow> nat list" where
  "utf8_encode_char c =
     (let n = of_char c :: nat in if n < 128 then [n] else [192 + n div 64, 128 + n mod 64])"

definition utf8_encode :: "pystr \<Rightarrow> nat list" where
  "utf8_encode s = concat (map utf8_encode_char s)"

fun utf8_decode :: "nat list \<Rightarrow> pystr option" where
  "utf8_decode [] = Some []"
| "utf8_decode [b] = (if b < 128 then Some [char_of b] else None)"
| "utf8_decode (b # b2 # bs) =
     (if b < 128 then map_option (Cons (char_of b)) (utf8_decode (b2 # bs))
      else if (b = 194 \<or> b = 195) \<and> 128 \<le> b2 \<and> b2 < 192
      then map_option (Cons (char_of ((b - 192) * 64 + (b2 - 128)))) (utf8_decode bs)
      else None)"

subsection \<open>Percent-encoding: quote and encodeURIComponent\<close>

text \<open>Both encoders write the UTF-8 bytes of the text; a byte of their safe
  set stays, every other byte becomes \<open>%XX\<close> with upper-case hex digits.\<close>

definition hex_upper :: "nat \<Rightarrow> char" where
  "hex_upper d = char_of (if d < 10 then 48 + d else 55 + d)"

definition pct_byte :: "(nat \<Rightarrow> bool) \<Rightarrow> nat \<Rightarrow> pystr" where
  "pct_byte safe b =
     (if safe b then [char_of b] else [CHR ''%'', hex_upper (b div 16), hex_upper (b mod 16)])"

definition pct_encode :: "(nat \<Rightarrow> bool) \<Rightarrow> pystr \<Rightarrow> pystr" where
  "pct_encode safe s = concat (map (pct_byte safe) (utf8_encode s))"

text \<open>Python's \<open>quote(s)\<close> with its default \<open>safe='/'\<close>: letters, digits,
  \<open>_.-~\<close> and \<open>/\<close> stay.\<close>

definition quote_safe :: "nat \<Rightarrow> bool" where
  "quote_safe b \<longleftrightarrow>
     (65 \<le> b \<and> b \<le> 90) \<or> (97 \<le> b \<and> b \<le> 122) \<or> (48 \<le> b \<and> b \<le> 57) \<or>
     b = 95 \<or> b = 46 \<or> b = 45 \<or> b = 126 \<or> b = 47"

definition py_quote :: "pystr \<Rightarrow> pystr" where
  "py_quote s = pct_encode quote_safe s"

text \<open>JavaScript's \<open>encodeURIComponent(s)\<close>: letters, digits and
  \<open>-_.!~*'()\<close> stay.\<close>

definition uric_safe :: "nat \<Rightarrow> bool" where
  "uric_safe b \<longleftrightarrow>
     (65 \<le> b \<and> b \<le> 90) \<or> (97 \<le> b \<and> b \<le> 122) \<or> (48 \<le> b \<and> b \<le> 57) \<or>
     b = 45 \<or> b = 95 \<or> b = 46 \<or> b = 33 \<or> b = 126 \<or> b = 42 \<or> b = 39 \<or> b = 40 \<or> b = 41"

definition js_encode_uri_component :: "pystr \<Rightarrow> pystr" where
  "js_encode_uri_component s = pct_encode uric_safe s"

subsection \<open>unquote and the query string\<close>

text \<open>\<open>unquote_to_bytes\<close>: a \<open>%\<close> followed by two hex digits is that byte;
  anything else stands for its own UTF-8 bytes.\<close>

fun pct_decode :: "pystr \<Rightarrow> nat list" where
  "pct_decode [] = []"
| "pct_decode (c # a # b # cs) =
     (if c = CHR ''%''
      then (case (hex_val a, hex_val b) of
              (Some x, Some y) \<Rightarrow> (16 * x + y) # pct_decode cs
            | _ \<Rightarrow> utf8_encode_char c @ pct_decode (a # b # cs))
      else utf8_encode_char c @ pct_decode (a # b # cs))"
| "pct_decode (c # cs) = utf8_encode_char c @ pct_decode cs"

definition py_unquote :: "pystr \<Rightarrow> pystr option" where
  "py_unquote s = utf8_decode (pct_decode s)"

definition py_unquote_plus :: "pystr \<Rightarrow> pystr option" where
  "py_unquote_plus s = py_unquote (map (\<lambda>c. if c = CHR ''+'' then CHR '' '' else c) s)"

text \<open>\<open>str.split(sep)\<close> with a one-character separator.\<close>

fun py_split :: "char \<Rightarrow> pystr \<Rightarrow> pystr list" where
  "py_split c [] = [[]]"
| "py_split c (x # xs) =
     (let r = py_split c xs in if x = c then [] # r else (x # hd r) # tl r)"

definition qsl_pair :: "pystr \<Rightarrow> pystr option \<times> pystr option" where
  "qsl_pair nv =
     (let n = takeWhile (\<lambda>c. c \<noteq> CHR ''='') nv; v = drop (Suc (length n)) nv
      in (py_unquote_plus n, py_unquote_plus v))"

definition parse_qsl :: "pystr \<Rightarrow> (pystr option \<times> pystr option) list" where
  "parse_qsl qs = map qsl_pair (filter (\<lambda>x. x \<noteq> []) (py_split CHR ''&'' qs))"

text \<open>The path and the query string of a request target.\<close>

definition url_path :: "pystr \<Rightarrow> pystr" where
  "url_path u = takeWhile (\<lambda>c. c \<noteq> CHR ''?'') u"

definition url_query :: "pystr \<Rightarrow> pystr" where
  "url_query u = drop (Suc (length (url_path u))) u"

definition query_param :: "pystr \<Rightarrow> pystr \<Rightarrow> pystr option" where
  "query_param k qs =
     (case filter (\<lambda>(n, v). n = Some k) (parse_qsl qs) of [] \<Rightarrow> None | ps \<Rightarrow> snd (last ps))"

subsection \<open>Lemmas\<close>

lemma utf8_decode_char:
  "utf8_decode (utf8_encode_char c @ bs) = map_option (Cons c) (utf8_decode bs)"
proof -
  define n where "n = (of_char c :: nat)"
  have n256: "n < 256" unfolding n_def by (rule nat_of_char_less_256)
  have cn: "char_of n = c" unfolding n_def by (rule char_of_char)
  show ?thesis
  proof (cases "n < 128")
    case True
    then have "utf8_encode_char c = [n]"
      by (simp add: utf8_encode_char_def n_def)
    with True cn show ?thesis by (cases bs) simp_all
  next
    case False
    then have enc: "utf8_encode_char c = [192 + n div 64, 128 + n mod 64]"
      by (simp add: utf8_encode_char_def n_def Let_def)
    from False n256 have "n div 64 = 2 \<or> n div 64 = 3" by linarith
    moreover have "(n div 64) * 64 + n mod 64 = n" by simp
    ultimately show ?thesis
      using enc cn False by auto
  qed
qed

lemma utf8_decode_encode [simp]: "utf8_decode (utf8_encode s) = Some s"
proof (induction s)
  case (Cons c s)
  then show ?case
    using utf8_decode_char [of c "utf8_encode s"] by (simp add: utf8_encode_def)
qed (simp add: utf8_encode_def)

lemma utf8_encode_char_bytes: "b \<in> set (utf8_encode_char c) \<Longrightarrow> b < 256"
proof -
  assume b: "b \<in> set (utf8_encode_char c)"
  have "(of_char c :: nat) < 256" by (rule nat_of_char_less_256)
  then have "(of_char c :: nat) div 64 < 4" by (simp add: div_less_iff_less_mult)
  with b show ?thesis by (auto simp: utf8_encode_char_def Let_def split: if_splits)
qed

lemma pct_decode_plain:
  "c \<noteq> CHR ''%'' \<Longrightarrow> pct_decode (c # cs) = utf8_encode_char c @ pct_decode cs"
proof (cases cs)
  case (Cons a cs')
  assume "c \<noteq> CHR ''%''"
  with Cons show ?thesis by (cases cs') simp_all
qed simp

lemma hex_val_hex_upper: "d < 16 \<Longrightarrow> hex_val (hex_upper d) = Some d"
  by (simp add: hex_val_def hex_upper_def of_char_of)

lemma pct_byte_safe:
  assumes lt: "b < 128" and not_pct: "b \<noteq> 37"
  shows "char_of b \<noteq> CHR ''%'' \<and> utf8_encode_char (char_of b) = [b]"
proof -
  from lt have code: "of_char (char_of b :: char) = b"
    by (simp add: of_char_of)
  have "char_of b \<noteq> CHR ''%''"
  proof
    assume "char_of b = CHR ''%''"
    then have "of_char (char_of b :: char) = (37 :: nat)" by simp
    with code not_pct show False by simp
  qed
  with lt code show ?thesis
    by (simp add: utf8_encode_char_def)
qed

lemma pct_decode_bytes:
  assumes safe: "\<And>b. safe b \<Longrightarrow> b < 128 \<and> b \<noteq> 37"
  shows "(\<And>b. b \<in> set bs \<Longrightarrow> b < 256) \<Longrightarrow> pct_decode (concat (map (pct_byte safe) bs)) = bs"
proof (induction bs)
  case (Cons b bs)
  then have IH: "pct_decode (concat (map (pct_byte safe) bs)) = bs" and b: "b < 256"
    by simp_all
  show ?case
  proof (cases "safe b")
    case True
    then have "pct_byte safe b = [char_of b]" by (simp add: pct_byte_def)
    then show ?thesis
      using pct_byte_safe [of b] safe [OF True] IH by (simp add: pct_decode_plain)
  next
    case False
    have "b div 16 < 16" using b by simp
    moreover have "b mod 16 < 16" by simp
    moreover have "16 * (b div 16) + b mod 16 = b" by simp
    moreover have "pct_byte safe b = [CHR ''%'', hex_upper (b div 16), hex_upper (b mod 16)]"
      using False by (simp add: pct_byte_def)
    ultimately show ?thesis
      using IH by (simp add: hex_val_hex_upper)
  qed
qed simp

text \<open>Round trip: \<open>unquote\<close> undoes percent-encoding, whatever the safe set,
  as long as it holds only ASCII bytes other than \<open>%\<close>.\<close>

lemma py_unquote_pct_encode:
  assumes "\<And>b. safe b \<Longrightarrow> b < 128 \<and> b \<noteq> 37"
  shows "py_unquote (pct_encode safe s) = Some s"
proof -
  have "pct_decode (pct_encode safe s) = utf8_encode s"
    unfolding pct_encode_def
    by (rule pct_decode_bytes [OF assms]) (auto simp: utf8_encode_def dest: utf8_encode_char_bytes)
  then show ?thesis by (simp add: py_unquote_def)
qed

lemma quote_safe_ascii: "quote_safe b \<Longrightarrow> b < 128 \<and> b \<noteq> 37 \<and> b \<noteq> 38 \<and> b \<noteq> 61 \<and> b \<noteq> 43"
  by (auto simp: quote_safe_def)

lemma uric_safe_ascii: "uric_safe b \<Longrightarrow> b < 128 \<and> b \<noteq> 37 \<and> b \<noteq> 38 \<and> b \<noteq> 61 \<and> b \<noteq> 43"
  by (auto simp: uric_safe_def)

text \<open>Round trip: \<open>unquote(quote(s)) = s\<close>.\<close>

lemma py_unquote_quote [simp]: "py_unquote (py_quote s) = Some s"
  unfolding py_quote_def by (rule py_unquote_pct_encode) (simp add: quote_safe_ascii)

lemma pct_byte_url_char:
  assumes c: "c \<in> set (pct_byte safe b)" and b: "b < 256"
  shows "safe (of_char c) \<or> quote_safe (of_char c) \<or> c = CHR ''%''"
proof (cases "safe b")
  case True
  with c b show ?thesis by (simp add: pct_byte_def of_char_of)
next
  case False
  have hex: "quote_safe (of_char (hex_upper d))" if "d < 16" for d
    using that by (simp add: hex_upper_def of_char_of quote_safe_def)
  have "b div 16 < 16" using b by simp
  with False c hex [of "b div 16"] hex [of "b mod 16"] show ?thesis
    by (auto simp: pct_byte_def)
qed

text \<open>Every character of an encoded text is a safe character, a hex digit
  or \<open>%\<close>.\<close>

lemma pct_encode_url_char:
  "c \<in> set (pct_encode safe s) \<Longrightarrow> safe (of_char c) \<or> quote_safe (of_char c) \<or> c = CHR ''%''"
  by (auto simp: pct_encode_def utf8_encode_def dest: pct_byte_url_char utf8_encode_char_bytes)

lemma py_quote_url_char: "c \<in> set (py_quote s) \<Longrightarrow> quote_safe (of_char c) \<or> c = CHR ''%''"
  unfolding py_quote_def by (drule pct_encode_url_char) blast

lemma pct_encode_chars:
  assumes safe: "\<And>b. safe b \<Longrightarrow> b \<noteq> 38 \<and> b \<noteq> 61 \<and> b \<noteq> 43"
    and c: "c \<in> set (pct_encode safe s)"
  shows "c \<noteq> CHR ''&'' \<and> c \<noteq> CHR ''='' \<and> c \<noteq> CHR ''+''"
proof -
  from c have "safe (of_char c) \<or> quote_safe (of_char c) \<or> c = CHR ''%''"
    by (rule pct_encode_url_char)
  with safe [of "of_char c"] show ?thesis
    by (auto simp: quote_safe_def)
qed

lemma py_split_no_sep: "c \<notin> set s \<Longrightarrow> py_split c s = [s]"
  by (induction s) auto

text \<open>A query string \<open>key=v'\<close>, \<open>v'\<close> the percent-encoding of \<open>v\<close>, gives
  \<open>v\<close> back for \<open>key\<close>.\<close>

lemma query_param_pct:
  assumes key: "py_unquote_plus k = Some k" and nosep: "CHR ''&'' \<notin> set k" "CHR ''='' \<notin> set k"
    and safe: "\<And>b. safe b \<Longrightarrow> b < 128 \<and> b \<noteq> 37 \<and> b \<noteq> 38 \<and> b \<noteq> 61 \<and> b \<noteq> 43"
  shows "query_param k (k @ CHR ''='' # pct_encode safe v) = Some v"
proof -
  have chars: "c \<noteq> CHR ''&'' \<and> c \<noteq> CHR ''='' \<and> c \<noteq> CHR ''+''" if "c \<in> set (pct_encode safe v)" for c
    using pct_encode_chars [of safe c v] safe that by blast
  have "CHR ''&'' \<notin> set (k @ CHR ''='' # pct_encode safe v)"
    using nosep chars by auto
  then have split: "py_split CHR ''&'' (k @ CHR ''='' # pct_encode safe v) = [k @ CHR ''='' # pct_encode safe v]"
    by (rule py_split_no_sep)
  have tw: "takeWhile (\<lambda>c. c \<noteq> CHR ''='') (k @ CHR ''='' # pct_encode safe v) = k"
    using nosep by (subst takeWhile_append2) auto
  have "map (\<lambda>c. if c = CHR ''+'' then CHR '' '' else c) (pct_encode safe v) = pct_encode safe v"
    by (rule map_idI) (auto dest: chars)
  moreover have "py_unquote (pct_encode safe v) = Some v"
    by (rule py_unquote_pct_encode) (simp add: safe)
  ultimately have "py_unquote_plus (pct_encode safe v) = Some v"
    by (simp add: py_unquote_plus_def)
  with split tw key show ?thesis
    by (simp add: query_param_def parse_qsl_def qsl_pair_def)
qed

lemma query_param_quote:
  assumes "py_unquote_plus k = Some k" "CHR ''&'' \<notin> set k" "CHR ''='' \<notin> set k"
  shows "query_param k (k @ CHR ''='' # py_quote v) = Some v"
  unfolding py_quote_def using assms quote_safe_ascii by (rule query_param_pct)

lemma query_param_uri_component:
  assumes "py_unquote_plus k = Some k" "CHR ''&'' \<notin> set k" "CHR ''='' \<notin> set k"
  shows "query_param k (k @ CHR ''='' # js_encode_uri_component v) = Some v"
  unfolding js_encode_uri_component_def using assms uric_safe_ascii by (rule query_param_pct)

end
