(* ===== verification/Http.thy ===== *)
theory Http
  imports Prelude
begin

text \<open>
  The outbound HTTP interface that the components agree on. The
  \<open>requests\<close> library (used by \<^verbatim>\<open>src/radio/playlist_parser.py\<close> and
  \<^verbatim>\<open>src/linkpull/main.py\<close>) is not part of the repository: a call
  \<open>requests.get(url, timeout=...)\<close> is modelled as a \<open>fetcher\<close>, a function from
  the URL to either the exception the call raises or the response it returns.
  The exception datatype lists the classes of \<open>requests.exceptions\<close> the
  sources can meet; \<open>HTTPError\<close> is raised only by
  \<open>response.raise_for_status()\<close>, never by \<open>requests.get\<close> itself, so the
  status of a returned response may be any code.
\<close>

datatype requests_exc =
    ConnectTimeout
  | ReadTimeout
  | SSLError
  | ProxyError
  | ConnectionError
  | HTTPError nat pystr
  | TooManyRedirects
  | MissingSchema
  | InvalidSchema
  | InvalidURL
  | ChunkedEncodingError
  | ContentDecodingError
  | OtherRequestException pystr

record http_response =
  resp_status :: nat
  resp_reason :: pystr
  resp_text :: pystr

type_synonym fetcher = "pystr \<Rightarrow> requests_exc + http_response"

text \<open>The class hierarchy of \<open>requests.exceptions\<close> that an \<open>except\<close>
  clause tests: \<open>ConnectTimeout\<close> is both a \<open>ConnectionError\<close> and a
  \<open>Timeout\<close>; \<open>SSLError\<close> and \<open>ProxyError\<close> are \<open>ConnectionError\<close>s; every
  class is a \<open>RequestException\<close>.\<close>

definition is_timeout :: "requests_exc \<Rightarrow> bool" where
  "is_timeout e \<longleftrightarrow> e = ConnectTimeout \<or> e = ReadTimeout"

definition is_connection_error :: "requests_exc \<Rightarrow> bool" where
  "is_connection_error e \<longleftrightarrow>
     e = ConnectTimeout \<or> e = SSLError \<or> e = ProxyError \<or> e = ConnectionError"

text \<open>\<open>response.raise_for_status()\<close>: a status from 400 to 599 raises
  \<open>HTTPError\<close> with the status and the reason.\<close>

definition raise_for_status :: "http_response \<Rightarrow> requests_exc + http_response" where
  "raise_for_status r =
     (if 400 \<le> resp_status r \<and> resp_status r < 600 then Inl (HTTPError (resp_status r) (resp_reason r))
      else Inr r)"

text \<open>A fetcher that answers every URL with one response, and one that fails
  every request: the concrete networks the witnesses use.\<close>

definition serve_text :: "nat \<Rightarrow> pystr \<Rightarrow> fetcher" where
  "serve_text st body = (\<lambda>_. Inr \<lparr>resp_status = st, resp_reason = [], resp_text = body\<rparr>)"

definition fail_all :: "requests_exc \<Rightarrow> fetcher" where
  "fail_all e = (\<lambda>_. Inl e)"

end
