(* ===== verification/Playlist.thy ===== *)
theory Playlist
  imports Http
begin

text \<open>
  The playlist resolver, \<open>parse_playlist_url\<close> of
  \<^verbatim>\<open>src/radio/playlist_parser.py\<close>. The regular expression
  \<open>File\d+=(.+)\<close> is modelled by an anchored matcher \<open>file_entry_at\<close> and the
  leftmost search \<open>re_search_file\<close> that \<open>re.search\<close> performs; the two loops
  over \<open>content.splitlines()\<close> are \<open>pls_scan\<close> and \<open>m3u_scan\<close>.
\<close>

subsection \<open>The regular expression \<open>File\d+=(.+)\<close>\<close>

text \<open>A match starting at the first character: the literal \<open>File\<close>, a
  maximal run of digits (backtracking cannot help, since \<open>=\<close> is no digit),
  \<open>=\<close>, and the group \<open>(.+)\<close>: the longest non-empty run of characters other
  than LF, since \<open>.\<close> matches anything but a newline.\<close>

definition file_entry_at :: "pystr \<Rightarrow> pystr option" where
  "file_entry_at s =
     (if py_startswith s ''File'' then
        (let r = drop 4 s; ds = takeWhile py_isdigit r; r' = dropWhile py_isdigit r
         in if ds \<noteq> [] \<and> r' \<noteq> [] \<and> hd r' = CHR ''=''
            then (let v = takeWhile (\<lambda>c. c \<noteq> CHR 0x0A) (tl r')
                  in if v \<noteq> [] then Some v else None)
            else None)
      else None)"

text \<open>\<open>re.search\<close>: the match at the leftmost position where one exists;
  \<open>match.group(1)\<close> is the value returned.\<close>

fun re_search_file :: "pystr \<Rightarrow> pystr option" where
  "re_search_file [] = None"
| "re_search_file (c # cs) =
     (case file_entry_at (c # cs) of Some v \<Rightarrow> Some v | None \<Rightarrow> re_search_file cs)"

subsection \<open>The PLS branch\<close>

text \<open>Lines 20--29: the loop that collects \<open>all_urls\<close> and its \<open>-mp3\<close> subset
  \<open>mp3_urls\<close>, both in file order (\<open>append\<close> is \<open>@ [x]\<close>).\<close>

fun pls_scan :: "pystr list \<Rightarrow> pystr list \<times> pystr list \<Rightarrow> pystr list \<times> pystr list" where
  "pls_scan [] acc = acc"
| "pls_scan (line # lines) (mp3_urls, all_urls) =
     (case re_search_file line of
        None \<Rightarrow> pls_scan lines (mp3_urls, all_urls)
      | Some g \<Rightarrow>
          (let stream_url = py_strip g
           in pls_scan lines
                (if py_in ''-mp3'' stream_url then mp3_urls @ [stream_url] else mp3_urls,
                 all_urls @ [stream_url])))"

text \<open>Lines 32--35: prefer the first MP3 entry, else the first entry; \<open>None\<close>
  falls through to the fallback of line 45.\<close>

definition pls_choose :: "pystr list \<times> pystr list \<Rightarrow> pystr option" where
  "pls_choose acc =
     (case acc of (mp3_urls, all_urls) \<Rightarrow>
        if mp3_urls \<noteq> [] then Some (hd mp3_urls)
        else if all_urls \<noteq> [] then Some (hd all_urls)
        else None)"

subsection \<open>The M3U branch\<close>

text \<open>Lines 39--42: the first stripped line that starts with \<open>http\<close>.\<close>

fun m3u_scan :: "pystr list \<Rightarrow> pystr option" where
  "m3u_scan [] = None"
| "m3u_scan (line # lines) =
     (let l = py_strip line in if py_startswith l ''http'' then Some l else m3u_scan lines)"

subsection \<open>The resolver\<close>

text \<open>Lines 10--49. Any exception of \<open>requests.get\<close> is caught by
  \<open>except Exception\<close> and returns the input (the \<open>print\<close> to standard output
  is not modelled). The status of the response is not consulted.\<close>

definition parse_playlist_url :: "fetcher \<Rightarrow> pystr \<Rightarrow> pystr" where
  "parse_playlist_url fetch url =
     (if \<not> (py_endswith url ''.pls'' \<or> py_endswith url ''.m3u'') then url
      else
        (case fetch url of
           Inl e \<Rightarrow> url
         | Inr response \<Rightarrow>
             (let content = resp_text response
              in if py_endswith url ''.pls'' then
                   (case pls_choose (pls_scan (py_splitlines content) ([], [])) of
                      Some u \<Rightarrow> u
                    | None \<Rightarrow> url)
                 else if py_endswith url ''.m3u'' then
                   (case m3u_scan (py_splitlines content) of
                      Some u \<Rightarrow> u
                    | None \<Rightarrow> url)
                 else url)))"

subsection \<open>The specification of the resolver\<close>

text \<open>What section 4.1 of the design promises, written with the library's
  list predicates: the PLS entries are the stripped values of the matching
  lines in file order; a PLS playlist resolves to its first entry containing
  \<open>-mp3\<close>, else to its first entry; an M3U playlist to its first stripped
  line that starts with \<open>http\<close>; a failed request and a playlist without
  candidates to the input URL; any other URL to itself.\<close>

definition pls_entries :: "pystr list \<Rightarrow> pystr list" where
  "pls_entries lines = map py_strip (List.map_filter re_search_file lines)"

definition resolve_spec :: "requests_exc + http_response \<Rightarrow> pystr \<Rightarrow> pystr" where
  "resolve_spec outcome url =
     (if suffix ''.pls'' url then
        (case outcome of
           Inl _ \<Rightarrow> url
         | Inr r \<Rightarrow>
             (let es = pls_entries (py_splitlines (resp_text r))
              in case filter (sublist ''-mp3'') es of
                   u # _ \<Rightarrow> u
                 | [] \<Rightarrow> (case es of u # _ \<Rightarrow> u | [] \<Rightarrow> url)))
      else if suffix ''.m3u'' url then
        (case outcome of
           Inl _ \<Rightarrow> url
         | Inr r \<Rightarrow>
             (case filter (prefix ''http'') (map py_strip (py_splitlines (resp_text r))) of
                u # _ \<Rightarrow> u
              | [] \<Rightarrow> url))
      else url)"

text \<open>The line shape the regular expression accepts: \<open>File\<close>, digits,
  \<open>=\<close>, the captured value, and either the end of the text or a newline.\<close>

definition file_line_shape :: "pystr \<Rightarrow> pystr \<Rightarrow> pystr \<Rightarrow> pystr \<Rightarrow> bool" where
  "file_line_shape s ds v rest \<longleftrightarrow>
     s = ''File'' @ ds @ ''='' @ v @ rest \<and> ds \<noteq> [] \<and> list_all py_isdigit ds \<and>
     v \<noteq> [] \<and> list_all (\<lambda>c. c \<noteq> CHR 0x0A) v \<and> (rest = [] \<or> hd rest = CHR 0x0A)"

subsection \<open>Lemmas on the loops and the matcher\<close>

lemma pls_scan_acc:
  "pls_scan lines (m, a) =
     (m @ filter (py_in ''-mp3'') (pls_entries lines), a @ pls_entries lines)"
  by (induction lines arbitrary: m a)
     (auto simp: pls_entries_def List.map_filter_simps Let_def split: option.splits)

lemma hd_filter_find: "filter P xs \<noteq> [] \<Longrightarrow> find P xs = Some (hd (filter P xs))"
  by (induction xs) auto

lemma find_None_filter: "find P xs = None \<longleftrightarrow> filter P xs = []"
  by (induction xs) auto

lemma find_Some_set: "find P xs = Some x \<Longrightarrow> x \<in> set xs"
  by (induction xs) (auto split: if_splits)

lemma find_filter_case:
  "(case find P xs of Some u \<Rightarrow> u | None \<Rightarrow> d) = (case filter P xs of u # _ \<Rightarrow> u | [] \<Rightarrow> d)"
  by (induction xs) auto

lemma pls_choose_entries:
  "pls_choose (filter P es, es) =
     (case find P es of Some u \<Rightarrow> Some u | None \<Rightarrow> (case es of [] \<Rightarrow> None | u # _ \<Rightarrow> Some u))"
  by (cases "filter P es = []")
     (auto simp: pls_choose_def hd_filter_find find_None_filter [THEN iffD2] split: list.splits)

lemma m3u_scan_find:
  "m3u_scan lines = find (\<lambda>l. py_startswith l ''http'') (map py_strip lines)"
  by (induction lines) (auto simp: Let_def)

lemma endswith_m3u_not_pls: "py_endswith url ''.m3u'' \<Longrightarrow> \<not> py_endswith url ''.pls''"
  by (simp add: py_endswith_def)

text \<open>The two playlist branches of the resolver, with the loops replaced by
  their list-level meaning.\<close>

lemma resolve_pls_eq:
  assumes "py_endswith url ''.pls''" and "fetch url = Inr r"
  shows "parse_playlist_url fetch url =
     (let es = pls_entries (py_splitlines (resp_text r))
      in case find (py_in ''-mp3'') es of
           Some u \<Rightarrow> u
         | None \<Rightarrow> (case es of [] \<Rightarrow> url | u # _ \<Rightarrow> u))"
  using assms
  by (simp add: parse_playlist_url_def pls_scan_acc pls_choose_entries Let_def
      split: option.splits list.splits)

lemma resolve_m3u_eq:
  assumes "py_endswith url ''.m3u''" and "fetch url = Inr r"
  shows "parse_playlist_url fetch url =
     (case find (\<lambda>l. py_startswith l ''http'') (map py_strip (py_splitlines (resp_text r))) of
        Some u \<Rightarrow> u
      | None \<Rightarrow> url)"
  using assms endswith_m3u_not_pls [OF assms(1)]
  by (simp add: parse_playlist_url_def m3u_scan_find)

lemma resolve_changed:
  assumes "parse_playlist_url fetch url \<noteq> url"
  shows "py_endswith url ''.pls'' \<or> py_endswith url ''.m3u''" and "\<exists>r. fetch url = Inr r"
  using assms by (auto simp: parse_playlist_url_def split: sum.splits if_splits)

lemma nested_if_Some:
  "((if A then (if B then (if w \<noteq> [] then Some w else None) else None) else None) = Some v) \<longleftrightarrow>
     A \<and> B \<and> v = w \<and> v \<noteq> []"
  by auto

lemma file_entry_at_Some_iff:
  "file_entry_at s = Some v \<longleftrightarrow>
     py_startswith s ''File'' \<and> takeWhile py_isdigit (drop 4 s) \<noteq> [] \<and>
     dropWhile py_isdigit (drop 4 s) \<noteq> [] \<and> hd (dropWhile py_isdigit (drop 4 s)) = CHR ''='' \<and>
     v = takeWhile (\<lambda>c. c \<noteq> CHR 0x0A) (tl (dropWhile py_isdigit (drop 4 s))) \<and> v \<noteq> []"
  unfolding file_entry_at_def Let_def nested_if_Some by (simp only: conj_assoc)

lemma file_entry_at_Nil: "file_entry_at [] = None"
  by (simp add: file_entry_at_def py_startswith_def)

lemma file_entry_at_sublist: "file_entry_at s = Some v \<Longrightarrow> sublist v s"
proof -
  assume "file_entry_at s = Some v"
  then have v: "v = takeWhile (\<lambda>c. c \<noteq> CHR 0x0A) (tl (dropWhile py_isdigit (drop 4 s)))"
    unfolding file_entry_at_Some_iff by blast
  have "sublist (tl (dropWhile py_isdigit (drop 4 s))) s"
    by (meson sublist_dropWhile sublist_drop suffix_imp_sublist suffix_tl sublist_order.order_trans)
  then show ?thesis
    unfolding v by (meson sublist_takeWhile sublist_order.order_trans)
qed

lemma re_search_file_sublist: "re_search_file s = Some v \<Longrightarrow> sublist v s"
proof (induction s)
  case Nil
  then show ?case by simp
next
  case (Cons c cs)
  then show ?case
    by (auto split: option.splits dest: file_entry_at_sublist intro: sublist_Cons_right [THEN iffD2])
qed

lemma pls_entries_sublist:
  assumes "u \<in> set (pls_entries lines)"
  shows "\<exists>l \<in> set lines. sublist u l"
proof -
  from assms obtain l g where "l \<in> set lines" "re_search_file l = Some g" "u = py_strip g"
    by (auto simp: pls_entries_def List.map_filter_def)
  then show ?thesis
    by (meson re_search_file_sublist sublist_py_strip sublist_order.order_trans)
qed

lemma pls_pick_mem:
  "(case find P es of Some u \<Rightarrow> u | None \<Rightarrow> (case es of [] \<Rightarrow> url | u # _ \<Rightarrow> u)) \<noteq> url \<Longrightarrow>
   (case find P es of Some u \<Rightarrow> u | None \<Rightarrow> (case es of [] \<Rightarrow> url | u # _ \<Rightarrow> u)) \<in> set es"
  by (auto dest: find_Some_set split: option.splits list.splits)

lemma eq_not_digit: "\<not> py_isdigit (CHR ''='')"
  by (simp add: py_isdigit_def)

lemma takeWhile_dropWhile_stop:
  assumes "list_all P xs" and "ys = [] \<or> \<not> P (hd ys)"
  shows "takeWhile P (xs @ ys) = xs \<and> dropWhile P (xs @ ys) = ys"
  using assms by (cases ys) (simp_all add: takeWhile_append2 dropWhile_append2 list_all_iff)

lemma py_startswith_File: "py_startswith s ''File'' \<longleftrightarrow> s = ''File'' @ drop 4 s"
  using py_startswith_drop [of s "''File''"] by (simp add: eval_nat_numeral)

lemmas playlist_eval = parse_playlist_url_def pls_choose_def file_entry_at_def serve_text_def
  fail_all_def Let_def


subsection \<open>Properties of the resolver\<close>

text \<open>C1. Refinement: for every network and every input URL, \<open>parse_playlist_url\<close> returns exactly what the specification \<open>resolve_spec\<close> of design section 4.1 prescribes: the first \<open>-mp3\<close> PLS entry, else the first PLS entry, the first M3U line starting with \<open>http\<close>, and the input URL on a failed request, an empty playlist or a URL without a playlist suffix.\<close>

theorem resolve_refines_spec: "parse_playlist_url fetch url = resolve_spec (fetch url) url"
proof (cases "fetch url")
  case (Inl e)
  then show ?thesis by (simp add: parse_playlist_url_def resolve_spec_def py_endswith_suffix)
next
  case (Inr r)
  have mp3: "py_in ''-mp3'' = sublist ''-mp3''" by (rule ext) (rule py_in_sublist)
  have http: "(\<lambda>l. py_startswith l ''http'') = prefix ''http''"
    by (rule ext) (rule py_startswith_prefix)
  consider (pls) "py_endswith url ''.pls''" | (m3u) "py_endswith url ''.m3u''"
    | (other) "\<not> py_endswith url ''.pls''" "\<not> py_endswith url ''.m3u''" by blast
  then show ?thesis
  proof cases
    case pls
    show ?thesis
      unfolding resolve_pls_eq [where fetch = fetch, OF pls Inr]
      using pls Inr by (simp add: resolve_spec_def py_endswith_suffix [symmetric] mp3 find_filter_case Let_def)
  next
    case m3u
    show ?thesis
      unfolding resolve_m3u_eq [where fetch = fetch, OF m3u Inr]
      using m3u endswith_m3u_not_pls [OF m3u] Inr
      by (simp add: resolve_spec_def py_endswith_suffix [symmetric] http find_filter_case)
  next
    case other
    then show ?thesis by (simp add: parse_playlist_url_def resolve_spec_def py_endswith_suffix [symmetric])
  qed
qed

text \<open>C2. A URL that ends neither in \<open>.pls\<close> nor in \<open>.m3u\<close> is returned unchanged, whatever the network does (no request is consulted).\<close>

theorem resolve_direct_url:
  "\<not> py_endswith url ''.pls'' \<Longrightarrow> \<not> py_endswith url ''.m3u'' \<Longrightarrow>
   parse_playlist_url fetch url = url"
  by (simp add: parse_playlist_url_def)

theorem resolve_direct_url_witness:
  "\<not> py_endswith ''http://ice2.somafm.com/groovesalad-256-mp3'' ''.pls'' \<and>
   \<not> py_endswith ''http://ice2.somafm.com/groovesalad-256-mp3'' ''.m3u'' \<and>
   parse_playlist_url (fail_all ReadTimeout) ''http://ice2.somafm.com/groovesalad-256-mp3'' =
     ''http://ice2.somafm.com/groovesalad-256-mp3''"
proof -
  have h: "\<not> py_endswith ''http://ice2.somafm.com/groovesalad-256-mp3'' ''.pls''"
    "\<not> py_endswith ''http://ice2.somafm.com/groovesalad-256-mp3'' ''.m3u''"
    by (simp_all add: py_endswith_def)
  show ?thesis using h resolve_direct_url [OF h] by simp
qed

text \<open>C3. Error path: when \<open>requests.get\<close> raises any exception, the resolver returns the input URL instead of propagating the error.\<close>

theorem resolve_fetch_error: "fetch url = Inl e \<Longrightarrow> parse_playlist_url fetch url = url"
  by (simp add: parse_playlist_url_def)

theorem resolve_fetch_error_witness:
  "fail_all ReadTimeout ''http://somafm.com/groovesalad.pls'' = Inl ReadTimeout \<and>
   parse_playlist_url (fail_all ReadTimeout) ''http://somafm.com/groovesalad.pls'' =
     ''http://somafm.com/groovesalad.pls''"
proof -
  have h: "fail_all ReadTimeout ''http://somafm.com/groovesalad.pls'' = Inl ReadTimeout"
    by (simp add: fail_all_def)
  show ?thesis using h resolve_fetch_error [where fetch = "fail_all ReadTimeout", OF h] by simp
qed

text \<open>C4. Safety: a resolved URL that differs from the input was taken verbatim from the body of the one response fetched for the input URL: it is a contiguous part of that text.\<close>

theorem resolve_from_body:
  assumes "parse_playlist_url fetch url \<noteq> url"
  shows "\<exists>r. fetch url = Inr r \<and> sublist (parse_playlist_url fetch url) (resp_text r)"
proof -
  from resolve_changed [OF assms] obtain r where r: "fetch url = Inr r"
    and sfx: "py_endswith url ''.pls'' \<or> py_endswith url ''.m3u''" by blast
  let ?lines = "py_splitlines (resp_text r)"
  have from_line: "sublist u (resp_text r)" if "l \<in> set ?lines" "sublist u l" for u l
    using that sublist_py_splitlines by (meson sublist_order.order_trans)
  have "\<exists>l \<in> set ?lines. sublist (parse_playlist_url fetch url) l"
    using sfx
  proof
    assume pls: "py_endswith url ''.pls''"
    let ?es = "pls_entries ?lines"
    have eq: "parse_playlist_url fetch url =
        (case find (py_in ''-mp3'') ?es of Some u \<Rightarrow> u | None \<Rightarrow> (case ?es of [] \<Rightarrow> url | u # _ \<Rightarrow> u))"
      using resolve_pls_eq [where fetch = fetch, OF pls r] by (simp only: Let_def)
    have "parse_playlist_url fetch url \<in> set ?es"
      using assms unfolding eq by (rule pls_pick_mem)
    then show ?thesis by (rule pls_entries_sublist)
  next
    assume m3u: "py_endswith url ''.m3u''"
    have eq: "parse_playlist_url fetch url =
        (case find (\<lambda>l. py_startswith l ''http'') (map py_strip ?lines) of Some u \<Rightarrow> u | None \<Rightarrow> url)"
      by (rule resolve_m3u_eq [where fetch = fetch, OF m3u r])
    with assms obtain u where "find (\<lambda>l. py_startswith l ''http'') (map py_strip ?lines) = Some u"
      and u: "parse_playlist_url fetch url = u"
      by (auto split: option.splits)
    then have "u \<in> py_strip ` set ?lines" by (auto dest: find_Some_set)
    then obtain l where l: "l \<in> set ?lines" and ul: "u = py_strip l" by blast
    have "sublist (parse_playlist_url fetch url) l"
      using sublist_py_strip [of l] by (simp only: u ul)
    with l show ?thesis by blast
  qed
  then obtain l where "l \<in> set ?lines" "sublist (parse_playlist_url fetch url) l" by blast
  then have "sublist (parse_playlist_url fetch url) (resp_text r)" by (rule from_line)
  with r show ?thesis by blast
qed

theorem resolve_from_body_witness:
  "parse_playlist_url (serve_text 200 ''[playlist]\<newline>File1=http://a/y-mp3\<newline>'') ''http://s/r.pls'' \<noteq>
     ''http://s/r.pls'' \<and>
   (\<exists>r. serve_text 200 ''[playlist]\<newline>File1=http://a/y-mp3\<newline>'' ''http://s/r.pls'' = Inr r \<and>
      sublist (parse_playlist_url (serve_text 200 ''[playlist]\<newline>File1=http://a/y-mp3\<newline>'')
        ''http://s/r.pls'') (resp_text r))"
proof -
  have h: "parse_playlist_url (serve_text 200 ''[playlist]\<newline>File1=http://a/y-mp3\<newline>'')
      ''http://s/r.pls'' \<noteq> ''http://s/r.pls''"
    by (simp add: playlist_eval pystr_simps)
  show ?thesis using h resolve_from_body [OF h] by blast
qed

text \<open>C5. The anchored matcher is the regular expression \<open>File\d+=(.+)\<close>: it succeeds with value \<open>v\<close> exactly when the text is \<open>File\<close>, one or more digits, \<open>=\<close>, a non-empty \<open>v\<close> without newline, then the end of the text or a newline.\<close>

theorem file_entry_at_regex:
  "file_entry_at s = Some v \<longleftrightarrow> (\<exists>ds rest. file_line_shape s ds v rest)"
proof
  assume "file_entry_at s = Some v"
  then have hdr: "py_startswith s ''File''"
    and ds: "takeWhile py_isdigit (drop 4 s) \<noteq> []"
    and r': "dropWhile py_isdigit (drop 4 s) \<noteq> []" "hd (dropWhile py_isdigit (drop 4 s)) = CHR ''=''"
    and v: "v = takeWhile (\<lambda>c. c \<noteq> CHR 0x0A) (tl (dropWhile py_isdigit (drop 4 s)))" "v \<noteq> []"
    unfolding file_entry_at_Some_iff by blast+
  define ds where "ds = takeWhile py_isdigit (drop 4 s)"
  define r' where "r' = dropWhile py_isdigit (drop 4 s)"
  define rest where "rest = dropWhile (\<lambda>c. c \<noteq> CHR 0x0A) (tl r')"
  have "s = ''File'' @ ds @ ''='' @ v @ rest"
  proof -
    have "s = ''File'' @ drop 4 s" using hdr py_startswith_File by blast
    moreover have "drop 4 s = ds @ r'" by (simp add: ds_def r'_def)
    moreover have "r' = CHR ''='' # tl r'" using r' by (cases r') (auto simp: r'_def)
    moreover have "tl r' = v @ rest" by (simp add: v rest_def r'_def)
    ultimately show ?thesis by simp
  qed
  moreover have "list_all py_isdigit ds"
    by (auto simp: ds_def list_all_iff dest: set_takeWhileD)
  moreover have "list_all (\<lambda>c. c \<noteq> CHR 0x0A) v"
    by (auto simp: v list_all_iff dest: set_takeWhileD)
  moreover have "rest = [] \<or> hd rest = CHR 0x0A"
    using hd_dropWhile [of "\<lambda>c. c \<noteq> CHR 0x0A" "tl r'"] by (auto simp: rest_def)
  ultimately show "\<exists>ds rest. file_line_shape s ds v rest"
    using ds v unfolding file_line_shape_def ds_def by blast
next
  assume "\<exists>ds rest. file_line_shape s ds v rest"
  then obtain ds rest where "file_line_shape s ds v rest" by blast
  then have s: "s = ''File'' @ ds @ CHR ''='' # v @ rest" and ds: "ds \<noteq> []" "list_all py_isdigit ds"
    and v: "v \<noteq> []" "list_all (\<lambda>c. c \<noteq> CHR 0x0A) v" and rest: "rest = [] \<or> hd rest = CHR 0x0A"
    unfolding file_line_shape_def by auto
  have d4: "drop 4 s = ds @ CHR ''='' # v @ rest" by (simp add: s)
  have tw: "takeWhile py_isdigit (ds @ CHR ''='' # v @ rest) = ds"
    and dw: "dropWhile py_isdigit (ds @ CHR ''='' # v @ rest) = CHR ''='' # v @ rest"
    using takeWhile_dropWhile_stop [OF ds(2), of "CHR ''='' # v @ rest"] eq_not_digit by simp_all
  have tv: "takeWhile (\<lambda>c. c \<noteq> CHR 0x0A) (v @ rest) = v"
    using takeWhile_dropWhile_stop [OF v(2), of rest] rest by auto
  have "py_startswith s ''File''" unfolding py_startswith_File by (simp add: s)
  then show "file_entry_at s = Some v"
    unfolding file_entry_at_Some_iff d4 tw dw using ds v tv by simp
qed

theorem file_entry_at_regex_witness:
  "file_entry_at ''File12=http://a/x'' = Some ''http://a/x'' \<and>
   file_line_shape ''File12=http://a/x'' ''12'' ''http://a/x'' []"
proof -
  have h: "file_line_shape ''File12=http://a/x'' ''12'' ''http://a/x'' []"
    by (simp add: file_line_shape_def py_isdigit_def)
  then have "file_entry_at ''File12=http://a/x'' = Some ''http://a/x''"
    using file_entry_at_regex [of "''File12=http://a/x''" "''http://a/x''"] by blast
  with h show ?thesis by simp
qed

text \<open>C6. \<open>re.search\<close> semantics: the search returns the value of the match at the leftmost position where the anchored pattern matches.\<close>

theorem re_search_file_leftmost:
  "re_search_file s = Some v \<longleftrightarrow>
     (\<exists>k < length s. file_entry_at (drop k s) = Some v \<and> (\<forall>j < k. file_entry_at (drop j s) = None))"
proof (induction s)
  case Nil
  then show ?case by simp
next
  case (Cons c cs)
  show ?case
  proof (cases "file_entry_at (c # cs)")
    case None
    have "(\<exists>k < length (c # cs). file_entry_at (drop k (c # cs)) = Some v \<and>
            (\<forall>j < k. file_entry_at (drop j (c # cs)) = None)) \<longleftrightarrow>
          (\<exists>k < length cs. file_entry_at (drop k cs) = Some v \<and>
            (\<forall>j < k. file_entry_at (drop j cs) = None))"
      (is "?l \<longleftrightarrow> ?r")
    proof
      assume ?l
      then obtain k where k: "k < Suc (length cs)" "file_entry_at (drop k (c # cs)) = Some v"
        "\<forall>j < k. file_entry_at (drop j (c # cs)) = None" by auto
      with None obtain k' where k': "k = Suc k'" by (cases k) auto
      have "\<forall>j < k'. file_entry_at (drop j cs) = None"
        using k(3) k' by auto
      moreover have "k' < length cs"
        using k k' file_entry_at_Nil by (cases "k' = length cs") auto
      ultimately show ?r using k k' by auto
    next
      assume ?r
      then obtain k where k: "k < length cs" "file_entry_at (drop k cs) = Some v"
        "\<forall>j < k. file_entry_at (drop j cs) = None" by auto
      have "\<forall>j < Suc k. file_entry_at (drop j (c # cs)) = None"
        using k(3) None by (auto simp: less_Suc_eq_0_disj)
      with k show ?l by (auto intro!: exI [of _ "Suc k"])
    qed
    with None Cons.IH show ?thesis by simp
  next
    case (Some w)
    have "(\<exists>k < length (c # cs). file_entry_at (drop k (c # cs)) = Some v \<and>
            (\<forall>j < k. file_entry_at (drop j (c # cs)) = None)) \<longleftrightarrow> w = v"
    proof
      assume "\<exists>k < length (c # cs). file_entry_at (drop k (c # cs)) = Some v \<and>
            (\<forall>j < k. file_entry_at (drop j (c # cs)) = None)"
      then obtain k where k: "file_entry_at (drop k (c # cs)) = Some v"
        "\<forall>j < k. file_entry_at (drop j (c # cs)) = None" by blast
      have "k = 0"
      proof (rule ccontr)
        assume "k \<noteq> 0"
        with k(2) have "file_entry_at (c # cs) = None" by auto
        with Some show False by simp
      qed
      with k(1) Some show "w = v" by simp
    next
      assume "w = v"
      with Some show "\<exists>k < length (c # cs). file_entry_at (drop k (c # cs)) = Some v \<and>
            (\<forall>j < k. file_entry_at (drop j (c # cs)) = None)"
        by (auto intro!: exI [of _ 0])
    qed
    with Some show ?thesis by auto
  qed
qed

theorem re_search_file_leftmost_witness:
  "re_search_file ''#File1=a File2=b'' = Some ''a File2=b''"
proof -
  have none: "file_entry_at ''#File1=a File2=b'' = None"
    by (simp add: file_entry_at_def py_startswith_def)
  have some: "file_entry_at (drop 1 ''#File1=a File2=b'') = Some ''a File2=b''"
    by (simp add: file_entry_at_def py_startswith_def py_isdigit_def)
  have "\<exists>k < length ''#File1=a File2=b''. file_entry_at (drop k ''#File1=a File2=b'') = Some ''a File2=b'' \<and>
          (\<forall>j < k. file_entry_at (drop j ''#File1=a File2=b'') = None)"
    using some none by (intro exI [of _ 1]) simp
  then show ?thesis
    using re_search_file_leftmost [of "''#File1=a File2=b''" "''a File2=b''"] by blast
qed

text \<open>C7. Divergence from the design: the HTTP status is never consulted; two responses with the same body resolve alike, so the body of a 404 reply is parsed as a playlist (the design says a non-2xx reply falls back to the input URL).\<close>

theorem resolve_ignores_status:
  assumes "map_sum (\<lambda>_. ()) resp_text (fetch url) = map_sum (\<lambda>_. ()) resp_text (fetch' url)"
  shows "parse_playlist_url fetch url = parse_playlist_url fetch' url"
  using assms by (auto simp: parse_playlist_url_def split: sum.splits)

theorem resolve_ignores_status_witness:
  "parse_playlist_url (serve_text 404 ''http://error.example/not-found'') ''http://s/r.m3u'' =
   parse_playlist_url (serve_text 200 ''http://error.example/not-found'') ''http://s/r.m3u'' \<and>
   parse_playlist_url (serve_text 404 ''http://error.example/not-found'') ''http://s/r.m3u'' =
   ''http://error.example/not-found''"
proof -
  have h: "map_sum (\<lambda>_. ()) resp_text (serve_text 404 ''http://error.example/not-found'' ''http://s/r.m3u'') =
           map_sum (\<lambda>_. ()) resp_text (serve_text 200 ''http://error.example/not-found'' ''http://s/r.m3u'')"
    by (simp add: serve_text_def)
  have "parse_playlist_url (serve_text 200 ''http://error.example/not-found'') ''http://s/r.m3u'' =
        ''http://error.example/not-found''"
    by (simp add: playlist_eval pystr_simps)
  then show ?thesis using resolve_ignores_status [where fetch = "serve_text 404 ''http://error.example/not-found''"
      and fetch' = "serve_text 200 ''http://error.example/not-found''" and url = "''http://s/r.m3u''", OF h] by simp
qed

text \<open>C8. Gap in the design: a PLS entry whose value is only whitespace is
  collected as the empty string. When it is the first entry and no entry
  contains \<open>-mp3\<close>, the resolver returns the empty string as the stream URL,
  whatever the later entries are, usable ones included, instead of one of
  them or the input.\<close>

theorem resolve_blank_entry:
  assumes pls: "py_endswith url ''.pls''" and fetched: "fetch url = Inr r"
    and lines: "py_splitlines (resp_text r) = pre @ l # post"
    and before: "\<forall>x \<in> set pre. re_search_file x = None"
    and blank: "re_search_file l = Some g" "py_strip g = []"
    and no_mp3: "\<forall>x \<in> set post. \<forall>v. re_search_file x = Some v \<longrightarrow> \<not> py_in ''-mp3'' (py_strip v)"
  shows "parse_playlist_url fetch url = []"
proof -
  have pre: "List.map_filter re_search_file pre = []"
    using before by (induction pre) (simp_all add: List.map_filter_simps)
  have "find (py_in ''-mp3'') (pls_entries post) = None"
    using no_mp3 by (auto simp: find_None_filter pls_entries_def List.map_filter_def filter_empty_conv)
  moreover have "\<not> py_in ''-mp3'' []"
    by (simp add: py_in_sublist)
  ultimately have "find (py_in ''-mp3'') ([] # pls_entries post) = None"
    by simp
  moreover have "pls_entries (py_splitlines (resp_text r)) = [] # pls_entries post"
    using pre blank by (simp add: lines pls_entries_def List.map_filter_def)
  ultimately show ?thesis
    by (simp add: resolve_pls_eq [where fetch = fetch, OF pls fetched])
qed

theorem resolve_blank_entry_witness:
  "parse_playlist_url (serve_text 200 ''[playlist]\<newline>File1=   \<newline>File2=http://b/x\<newline>'')
     ''http://s/r.pls'' = []"
  by (rule resolve_blank_entry [where r = "\<lparr>resp_status = 200, resp_reason = [],
        resp_text = ''[playlist]\<newline>File1=   \<newline>File2=http://b/x\<newline>''\<rparr>"
      and pre = "[''[playlist]'']" and l = "''File1=   ''" and post = "[''File2=http://b/x'']"
      and g = "''   ''"])
    (simp_all add: playlist_eval pystr_simps)

end
