(* ===== verification/Relay.thy ===== *)
theory Relay
  imports Prelude
begin

text \<open>
  The stream relay of the radio player: the async generator \<open>stream_audio\<close>
  inside \<open>proxy_stream\<close> of \<^verbatim>\<open>src/radio/main.py\<close> (lines 138--142).
  \<^verbatim>\<open>
    async with httpx.AsyncClient(timeout=30.0) as client:
        async with client.stream('GET', resolved_url) as response:
            async for chunk in response.aiter_bytes(chunk_size=8192):
                yield chunk
  \<close>
  The generator runs as a sequence of events: the origin's response head,
  each network read, the end of the body, a transport failure (connect error,
  the 30 s timeout, a dropped connection), and the client's disconnect, on
  which Starlette cancels the generator. \<open>aiter_bytes(chunk_size=8192)\<close>
  re-chunks the raw reads with httpx's \<open>ByteChunker\<close>: every yielded chunk has
  exactly 8192 bytes except a shorter last one flushed at the end of the body.
  The two \<open>async with\<close> blocks close the response and the client on every
  way out of the generator. \<open>httpx\<close> does not raise for an error status, so the
  status of the head is not consulted.
\<close>

definition chunk_size :: nat where
  "chunk_size = 8192"

subsection \<open>The chunker of \<open>aiter_bytes\<close>\<close>

text \<open>\<open>[value[i:i + n] for i in range(0, len(value), n)]\<close>.\<close>

function chunks_of :: "nat \<Rightarrow> 'a list \<Rightarrow> 'a list list" where
  "chunks_of n xs =
     (if xs = [] \<or> n = 0 then (if xs = [] then [] else [xs])
      else take n xs # chunks_of n (drop n xs))"
  by pat_completeness auto
termination
  by (relation "measure (\<lambda>(n, xs). length xs)") auto

declare chunks_of.simps [simp del]

text \<open>\<open>ByteChunker.decode\<close>: append the read to the buffer; once the buffer
  holds at least one chunk, emit all full chunks and keep the incomplete
  tail, if any.\<close>

definition chunker_decode :: "nat \<Rightarrow> bytes \<Rightarrow> bytes \<Rightarrow> bytes \<times> bytes list" where
  "chunker_decode n buf content =
     (let value = buf @ content
      in if n \<le> length value then
           (let chunks = chunks_of n value
            in if length (last chunks) = n then ([], chunks)
               else (last chunks, butlast chunks))
         else (value, []))"

text \<open>\<open>ByteChunker.flush\<close>: the rest of the buffer, if any.\<close>

definition chunker_flush :: "bytes \<Rightarrow> bytes list" where
  "chunker_flush buf = (if buf = [] then [] else [buf])"

subsection \<open>The generator as a state machine\<close>

datatype origin_error = ConnectFailure | OriginTimeout | MidStreamDrop

datatype relay_phase =
    Connecting
  | Streaming
  | Finished
  | Failed origin_error
  | Cancelled

datatype relay_event =
    OriginHead nat
  | OriginData bytes
  | OriginEnd
  | OriginFails origin_error
  | ClientDisconnect

record relay_state =
  phase :: relay_phase
  chunk_buf :: bytes
  sent :: "bytes list"
  origin_open :: bool

text \<open>The generator has entered both \<open>async with\<close> blocks' first line: the
  client exists and the request is in flight.\<close>

definition relay_init :: relay_state where
  "relay_init = \<lparr>phase = Connecting, chunk_buf = [], sent = [], origin_open = True\<rparr>"

text \<open>Leaving the generator: both context managers close; bytes still in
  the chunker's buffer are dropped.\<close>

definition relay_close :: "relay_phase \<Rightarrow> relay_state \<Rightarrow> relay_state" where
  "relay_close p s = s\<lparr>phase := p, chunk_buf := [], origin_open := False\<rparr>"

text \<open>One event. In a terminal phase nothing reads from the origin any more
  and nothing is sent; before the head, the transport delivers no body
  bytes, so such events leave the state unchanged.\<close>

fun relay_step :: "relay_state \<Rightarrow> relay_event \<Rightarrow> relay_state" where
  "relay_step s ev =
     (case phase s of
        Connecting \<Rightarrow>
          (case ev of
             OriginHead status \<Rightarrow> s\<lparr>phase := Streaming\<rparr>
           | OriginFails e \<Rightarrow> relay_close (Failed e) s
           | ClientDisconnect \<Rightarrow> relay_close Cancelled s
           | _ \<Rightarrow> s)
      | Streaming \<Rightarrow>
          (case ev of
             OriginData d \<Rightarrow>
               (let (buf', out) = chunker_decode chunk_size (chunk_buf s) d
                in s\<lparr>chunk_buf := buf', sent := sent s @ out\<rparr>)
           | OriginEnd \<Rightarrow>
               relay_close Finished (s\<lparr>sent := sent s @ chunker_flush (chunk_buf s)\<rparr>)
           | OriginFails e \<Rightarrow> relay_close (Failed e) s
           | ClientDisconnect \<Rightarrow> relay_close Cancelled s
           | OriginHead status \<Rightarrow> s)
      | _ \<Rightarrow> s)"

declare relay_step.simps [simp del]

fun relay_run :: "relay_state \<Rightarrow> relay_event list \<Rightarrow> relay_state" where
  "relay_run s [] = s"
| "relay_run s (ev # evs) = relay_run (relay_step s ev) evs"

subsection \<open>Abstraction: what has been received\<close>

text \<open>For the bytes \<open>R\<close> received so far, the complete 8192-byte chunks
  (\<open>full_chunks\<close>) and the incomplete tail (\<open>pending\<close>).\<close>

definition full_chunks :: "nat \<Rightarrow> 'a list \<Rightarrow> 'a list list" where
  "full_chunks n xs = chunks_of n (take (length xs div n * n) xs)"

definition pending :: "nat \<Rightarrow> 'a list \<Rightarrow> 'a list" where
  "pending n xs = drop (length xs div n * n) xs"

text \<open>The phases in which the generator has returned or raised.\<close>

definition relay_terminal :: "relay_phase \<Rightarrow> bool" where
  "relay_terminal p \<longleftrightarrow> p \<noteq> Connecting \<and> p \<noteq> Streaming"

text \<open>The invariant of the generator: the chunker holds less than one chunk,
  every chunk sent is non-empty and at most 8192 bytes, the origin
  connection is open exactly while the generator runs, and nothing is
  buffered outside the streaming phase.\<close>

definition relay_inv :: "relay_state \<Rightarrow> bool" where
  "relay_inv s \<longleftrightarrow>
     length (chunk_buf s) < chunk_size \<and>
     (\<forall>c \<in> set (sent s). c \<noteq> [] \<and> length c \<le> chunk_size) \<and>
     (origin_open s \<longleftrightarrow> \<not> relay_terminal (phase s)) \<and>
     (phase s \<noteq> Streaming \<longrightarrow> chunk_buf s = [])"

subsection \<open>Lemmas on chunking and on runs\<close>

lemma chunks_of_Nil [simp]: "chunks_of n [] = []"
  by (simp add: chunks_of.simps)

lemma chunks_of_step:
  "0 < n \<Longrightarrow> xs \<noteq> [] \<Longrightarrow> chunks_of n xs = take n xs # chunks_of n (drop n xs)"
  by (simp add: chunks_of.simps [of n xs])

lemma chunks_of_short: "0 < n \<Longrightarrow> xs \<noteq> [] \<Longrightarrow> length xs \<le> n \<Longrightarrow> chunks_of n xs = [xs]"
  by (simp add: chunks_of_step)

lemma concat_chunks_of: "concat (chunks_of n xs) = xs"
proof (induction n xs rule: chunks_of.induct)
  case (1 n xs)
  then show ?case by (simp add: chunks_of.simps [of n xs])
qed

lemma chunks_of_sizes: "0 < n \<Longrightarrow> c \<in> set (chunks_of n xs) \<Longrightarrow> c \<noteq> [] \<and> length c \<le> n"
proof (induction n xs rule: chunks_of.induct)
  case (1 n xs)
  then show ?case by (auto simp: chunks_of.simps [of n xs] split: if_splits)
qed

lemma chunks_of_full:
  "0 < n \<Longrightarrow> n dvd length xs \<Longrightarrow> c \<in> set (chunks_of n xs) \<Longrightarrow> length c = n"
proof (induction n xs rule: chunks_of.induct)
  case (1 n xs)
  show ?case
  proof (cases "xs = []")
    case False
    with "1.prems"(2) have "n \<le> length xs" by (auto dest: dvd_imp_le)
    moreover have "n dvd length (drop n xs)"
      using "1.prems"(2) \<open>n \<le> length xs\<close> by (simp add: dvd_diff_nat)
    ultimately show ?thesis
      using "1.IH" "1.prems" False by (auto simp: chunks_of_step)
  qed (use "1.prems" in simp)
qed

lemma chunks_of_append:
  "0 < n \<Longrightarrow> n dvd length xs \<Longrightarrow> chunks_of n (xs @ ys) = chunks_of n xs @ chunks_of n ys"
proof (induction n xs rule: chunks_of.induct)
  case (1 n xs)
  show ?case
  proof (cases "xs = []")
    case False
    with "1.prems"(2) have le: "n \<le> length xs" by (auto dest: dvd_imp_le)
    moreover have "n dvd length (drop n xs)"
      using "1.prems"(2) le by (simp add: dvd_diff_nat)
    ultimately show ?thesis
      using "1.IH" "1.prems" False by (simp add: chunks_of_step)
  qed simp
qed

lemma pending_length: "0 < n \<Longrightarrow> length (pending n xs) < n"
  by (simp add: pending_def minus_div_mult_eq_mod)

lemma chunks_of_split:
  "0 < n \<Longrightarrow> chunks_of n xs = full_chunks n xs @ chunker_flush (pending n xs)"
proof -
  assume n: "0 < n"
  let ?m = "length xs div n * n"
  have "chunks_of n xs = chunks_of n (take ?m xs @ drop ?m xs)" by simp
  also have "\<dots> = full_chunks n xs @ chunks_of n (pending n xs)"
    using n by (subst chunks_of_append) (simp_all add: full_chunks_def pending_def min_absorb2)
  also have "chunks_of n (pending n xs) = chunker_flush (pending n xs)"
    using n pending_length [OF n, of xs] by (auto simp: chunker_flush_def intro: chunks_of_short)
  finally show ?thesis .
qed

lemma chunks_of_eq_Nil: "0 < n \<Longrightarrow> chunks_of n xs = [] \<longleftrightarrow> xs = []"
  by (cases "xs = []") (simp_all add: chunks_of_step)

lemma dvd_prefix_div:
  assumes "0 < (n::nat)" and "n dvd a"
  shows "(a + x) div n * n = a + x div n * n"
proof -
  from assms(2) obtain k where a: "a = n * k" by (auto elim: dvdE)
  have "(n * k + x) div n = k + x div n"
    using div_mult_self4 [of n k x] assms(1) by simp
  then show ?thesis by (simp add: a algebra_simps)
qed

lemma full_pending_dvd_prefix:
  assumes "0 < n" and "n dvd length A"
  shows "full_chunks n (A @ X) = chunks_of n A @ full_chunks n X"
    and "pending n (A @ X) = pending n X"
proof -
  have k: "length (A @ X) div n * n = length A + length X div n * n"
    using dvd_prefix_div [OF assms] by simp
  show "full_chunks n (A @ X) = chunks_of n A @ full_chunks n X"
    unfolding full_chunks_def k using assms by (simp add: chunks_of_append)
  show "pending n (A @ X) = pending n X"
    unfolding pending_def k by simp
qed

lemma full_pending_short:
  assumes "length B < n"
  shows "full_chunks n B = []" and "pending n B = B"
  using assms by (simp_all add: full_chunks_def pending_def)

lemma split_full_pending:
  assumes "0 < n"
  obtains A where "xs = A @ pending n xs" "n dvd length A" "chunks_of n A = full_chunks n xs"
proof
  let ?m = "length xs div n * n"
  show "xs = take ?m xs @ pending n xs" by (simp add: pending_def)
  show "n dvd length (take ?m xs)" by (simp add: min_absorb2)
  show "chunks_of n (take ?m xs) = full_chunks n xs" by (simp add: full_chunks_def)
qed

lemma full_chunks_append:
  assumes "0 < n"
  shows "full_chunks n (R @ d) = full_chunks n R @ full_chunks n (pending n R @ d)"
proof -
  obtain A where R: "R = A @ pending n R" and A: "n dvd length A" "chunks_of n A = full_chunks n R"
    using split_full_pending [OF assms] by blast
  have "full_chunks n (R @ d) = full_chunks n (A @ (pending n R @ d))"
    by (subst R) simp
  also have "\<dots> = full_chunks n R @ full_chunks n (pending n R @ d)"
    using full_pending_dvd_prefix(1) [OF assms A(1)] A(2) by simp
  finally show ?thesis .
qed

lemma pending_append:
  assumes "0 < n"
  shows "pending n (R @ d) = pending n (pending n R @ d)"
proof -
  obtain A where R: "R = A @ pending n R" and A: "n dvd length A"
    using split_full_pending [OF assms] by blast
  have "pending n (R @ d) = pending n (A @ (pending n R @ d))"
    by (subst R) simp
  also have "\<dots> = pending n (pending n R @ d)"
    by (rule full_pending_dvd_prefix(2) [OF assms A])
  finally show ?thesis .
qed

lemma full_chunks_length:
  assumes "0 < n" and "c \<in> set (full_chunks n xs)"
  shows "length c = n"
proof -
  obtain A where "n dvd length A" "chunks_of n A = full_chunks n xs"
    using split_full_pending [OF assms(1)] by blast
  with assms show ?thesis by (metis chunks_of_full)
qed

lemma chunker_decode_eq:
  assumes "0 < n"
  shows "chunker_decode n buf c = (pending n (buf @ c), full_chunks n (buf @ c))"
proof -
  let ?v = "buf @ c"
  have split: "chunks_of n ?v = full_chunks n ?v @ chunker_flush (pending n ?v)"
    by (rule chunks_of_split [OF assms])
  show ?thesis
  proof (cases "n \<le> length ?v")
    case True
    then have q: "0 < length ?v div n" using assms by (simp add: div_greater_zero_iff)
    then have "n \<le> length ?v div n * n" by (cases "length ?v div n") simp_all
    then have "take (length ?v div n * n) ?v \<noteq> []" using assms by auto
    then have full_ne: "full_chunks n ?v \<noteq> []"
      using assms by (simp add: full_chunks_def chunks_of_eq_Nil)
    have full_len: "length c' = n" if "c' \<in> set (full_chunks n ?v)" for c'
      using full_chunks_length [OF assms that] .
    show ?thesis
    proof (cases "pending n ?v = []")
      case True
      with split full_ne full_len have "length (last (chunks_of n ?v)) = n"
        by (simp add: chunker_flush_def)
      with True split \<open>n \<le> length ?v\<close> show ?thesis
        by (simp add: chunker_decode_def chunker_flush_def)
    next
      case False
      with split have "last (chunks_of n ?v) = pending n ?v"
        and "butlast (chunks_of n ?v) = full_chunks n ?v"
        by (simp_all add: chunker_flush_def butlast_append)
      moreover have "length (pending n ?v) \<noteq> n"
        using pending_length [OF assms] by (metis less_irrefl)
      ultimately show ?thesis using \<open>n \<le> length ?v\<close>
        by (simp add: chunker_decode_def Let_def)
    qed
  next
    case False
    then have "length ?v div n = 0" by simp
    then show ?thesis
      using False by (simp add: chunker_decode_def full_chunks_def pending_def)
  qed
qed

lemma chunk_size_pos: "0 < chunk_size"
  by (simp add: chunk_size_def)

lemma relay_run_append: "relay_run s (xs @ ys) = relay_run (relay_run s xs) ys"
  by (induction xs arbitrary: s) simp_all

lemma relay_step_terminal: "relay_terminal (phase s) \<Longrightarrow> relay_step s ev = s"
  by (cases "phase s") (simp_all add: relay_terminal_def relay_step.simps)

lemma relay_step_head: "phase s = Connecting \<Longrightarrow> relay_step s (OriginHead st) = s\<lparr>phase := Streaming\<rparr>"
  by (simp add: relay_step.simps)

lemma relay_step_end:
  "phase s = Streaming \<Longrightarrow>
   relay_step s OriginEnd = relay_close Finished (s\<lparr>sent := sent s @ chunker_flush (chunk_buf s)\<rparr>)"
  by (simp add: relay_step.simps)

lemma relay_step_fails:
  "phase s = Streaming \<or> phase s = Connecting \<Longrightarrow> relay_step s (OriginFails e) = relay_close (Failed e) s"
  by (auto simp: relay_step.simps)

lemma relay_run_terminal: "relay_terminal (phase s) \<Longrightarrow> relay_run s evs = s"
  by (induction evs) (simp_all add: relay_step_terminal)

lemma relay_step_data:
  assumes "phase s = Streaming"
  shows "relay_step s (OriginData d) =
    s\<lparr>chunk_buf := pending chunk_size (chunk_buf s @ d),
      sent := sent s @ full_chunks chunk_size (chunk_buf s @ d)\<rparr>"
  using assms by (simp add: relay_step.simps chunker_decode_eq [OF chunk_size_pos])

lemma relay_run_data:
  assumes "phase s = Streaming" and "sent s = full_chunks chunk_size R"
    and "chunk_buf s = pending chunk_size R"
  shows "relay_run s (map OriginData ds) =
    s\<lparr>chunk_buf := pending chunk_size (R @ concat ds), sent := full_chunks chunk_size (R @ concat ds)\<rparr>"
  using assms
proof (induction ds arbitrary: s R)
  case Nil
  then show ?case by simp
next
  case (Cons d ds)
  let ?s' = "relay_step s (OriginData d)"
  have "?s' = s\<lparr>chunk_buf := pending chunk_size (R @ d), sent := full_chunks chunk_size (R @ d)\<rparr>"
    using Cons.prems chunk_size_pos
    by (simp add: relay_step_data full_chunks_append [symmetric] pending_append [symmetric])
  then have "relay_run ?s' (map OriginData ds) =
    ?s'\<lparr>chunk_buf := pending chunk_size ((R @ d) @ concat ds),
        sent := full_chunks chunk_size ((R @ d) @ concat ds)\<rparr>"
    using Cons.prems by (intro Cons.IH) simp_all
  then show ?case
    using \<open>?s' = _\<close> by simp
qed

lemma relay_after_data:
  "relay_run relay_init (OriginHead st # map OriginData ds) =
    \<lparr>phase = Streaming, chunk_buf = pending chunk_size (concat ds),
     sent = full_chunks chunk_size (concat ds), origin_open = True\<rparr>"
proof -
  have "relay_run relay_init (OriginHead st # map OriginData ds) =
        relay_run (relay_init\<lparr>phase := Streaming\<rparr>) (map OriginData ds)"
    by (simp add: relay_init_def relay_step_head)
  also have "\<dots> = (relay_init\<lparr>phase := Streaming\<rparr>)\<lparr>chunk_buf := pending chunk_size ([] @ concat ds),
      sent := full_chunks chunk_size ([] @ concat ds)\<rparr>"
    by (rule relay_run_data) (simp_all add: relay_init_def full_chunks_def pending_def)
  finally show ?thesis by (simp add: relay_init_def)
qed

lemma relay_inv_init: "relay_inv relay_init"
  by (simp add: relay_inv_def relay_init_def relay_terminal_def chunk_size_def)

lemma relay_inv_step: "relay_inv s \<Longrightarrow> relay_inv (relay_step s ev)"
proof (cases "phase s")
  case Streaming
  assume inv: "relay_inv s"
  show ?thesis
  proof (cases ev)
    case (OriginData d)
    have "length (pending chunk_size (chunk_buf s @ d)) < chunk_size"
      by (rule pending_length [OF chunk_size_pos])
    moreover have "c \<noteq> [] \<and> length c \<le> chunk_size"
      if "c \<in> set (full_chunks chunk_size (chunk_buf s @ d))" for c
      using full_chunks_length [OF chunk_size_pos that] chunk_size_pos by auto
    ultimately show ?thesis
      using inv Streaming OriginData by (auto simp: relay_inv_def relay_step_data relay_terminal_def)
  next
    case OriginEnd
    then show ?thesis
      using inv Streaming
      by (auto simp: relay_inv_def relay_step_end relay_close_def chunker_flush_def relay_terminal_def)
  qed (use inv Streaming in \<open>auto simp: relay_inv_def relay_step.simps relay_close_def relay_terminal_def\<close>)
next
  case Connecting
  assume inv: "relay_inv s"
  then show ?thesis
    using Connecting by (cases ev) (auto simp: relay_inv_def relay_step.simps relay_close_def relay_terminal_def)
qed (simp_all add: relay_step_terminal relay_terminal_def)

lemma relay_inv_run: "relay_inv s \<Longrightarrow> relay_inv (relay_run s evs)"
  by (induction evs arbitrary: s) (simp_all add: relay_inv_step)

lemma relay_inv_reachable: "relay_inv (relay_run relay_init evs)"
  by (rule relay_inv_run [OF relay_inv_init])

lemma relay_disconnect_terminal: "relay_terminal (phase (relay_step s ClientDisconnect))"
  by (cases "phase s") (simp_all add: relay_step.simps relay_close_def relay_terminal_def)

subsection \<open>Properties of the relay\<close>

text \<open>C9. Refinement of the streaming relay by whole-body chunking: when the origin sends its head, any sequence of reads and the end of the body, the chunks the generator yields are exactly the 8192-byte chunking of the whole body (so their concatenation is the body, in order, with nothing lost or added).\<close>

theorem relay_delivers_body:
  "sent (relay_run relay_init (OriginHead st # map OriginData ds @ [OriginEnd])) =
   chunks_of chunk_size (concat ds)"
  using relay_after_data [of st ds]
  by (simp add: relay_run_append [of _ "OriginHead st # map OriginData ds", simplified]
      relay_step_end relay_close_def chunks_of_split [OF chunk_size_pos])

text \<open>C10. Streaming, not buffering: before the body ends, every complete 8192-byte block received has already been yielded; what has been sent is the longest prefix of the received bytes whose length is a multiple of 8192.\<close>

theorem relay_streams_before_end:
  "concat (sent (relay_run relay_init (OriginHead st # map OriginData ds))) =
   take (length (concat ds) div chunk_size * chunk_size) (concat ds)"
  unfolding relay_after_data by (simp add: full_chunks_def concat_chunks_of)

text \<open>C11. Bounded memory: whatever the events, the generator buffers fewer than 8192 bytes.\<close>

theorem relay_buffer_bound: "length (chunk_buf (relay_run relay_init evs)) < chunk_size"
  using relay_inv_reachable [of evs] by (simp add: relay_inv_def)

text \<open>C12. Every chunk yielded to the client is non-empty and has at most 8192 bytes.\<close>

theorem relay_chunk_sizes:
  "c \<in> set (sent (relay_run relay_init evs)) \<Longrightarrow> c \<noteq> [] \<and> length c \<le> chunk_size"
  using relay_inv_reachable [of evs] by (simp add: relay_inv_def)

theorem relay_chunk_sizes_witness:
  "[1, 2, 3] \<in> set (sent (relay_run relay_init [OriginHead 200, OriginData [1, 2, 3], OriginEnd])) \<and>
   [1, 2, 3] \<noteq> ([] :: bytes) \<and> length ([1, 2, 3] :: bytes) \<le> chunk_size"
proof -
  have h: "[1, 2, 3] \<in> set (sent (relay_run relay_init [OriginHead 200, OriginData [1, 2, 3], OriginEnd]))"
    by (simp add: relay_init_def relay_step.simps relay_close_def chunker_decode_def
        chunker_flush_def chunk_size_def)
  show ?thesis using h relay_chunk_sizes [OF h] by simp
qed

text \<open>C13. Resource release: the origin connection is open exactly while the generator is connecting or streaming; on completion, origin failure and client disconnect it is closed.\<close>

theorem relay_connection_scoped:
  "origin_open (relay_run relay_init evs) \<longleftrightarrow> phase (relay_run relay_init evs) \<in> {Connecting, Streaming}"
  using relay_inv_reachable [of evs] by (auto simp: relay_inv_def relay_terminal_def)

text \<open>C14. Cancellation: once the client disconnects, the connection is closed and no later event changes anything, so nothing more is read from the origin or sent.\<close>

theorem relay_disconnect_stops:
  "relay_run relay_init (evs @ ClientDisconnect # evs') = relay_run relay_init (evs @ [ClientDisconnect]) \<and>
   \<not> origin_open (relay_run relay_init (evs @ [ClientDisconnect]))"
proof -
  let ?s = "relay_step (relay_run relay_init evs) ClientDisconnect"
  have fin: "relay_terminal (phase ?s)" by (rule relay_disconnect_terminal)
  have inv: "relay_inv ?s" by (rule relay_inv_step [OF relay_inv_reachable])
  show ?thesis
    using fin inv relay_run_terminal [OF fin, of evs']
    by (simp add: relay_run_append relay_inv_def)
qed

text \<open>C15. Origin failure mid-stream: the client has received exactly the complete 8192-byte chunks; the incomplete tail held by the chunker is never delivered.\<close>

theorem relay_failure_drops_pending:
  "sent (relay_run relay_init (OriginHead st # map OriginData ds @ [OriginFails e])) =
   full_chunks chunk_size (concat ds)"
  using relay_after_data [of st ds]
  by (simp add: relay_run_append [of _ "OriginHead st # map OriginData ds", simplified]
      relay_step_fails relay_close_def)

end
