(* ===== verification/Proxy.thy ===== *)
theory Proxy
  imports Playlist Relay
begin

text \<open>
  The \<open>/proxy\<close> endpoint, \<open>proxy_stream\<close> of \<^verbatim>\<open>src/radio/main.py\<close>
  (lines 129--151): it resolves the \<open>url\<close> query parameter once with
  \<open>parse_playlist_url\<close> and returns a Starlette \<open>StreamingResponse\<close> whose
  body is the relay generator on the resolved URL. Starlette sends the status
  line and headers before it pulls the first chunk from the generator, so the
  status is 200 whatever the origin later does. The origin is a function
  from the URL the relay opens to the events it produces.
\<close>

record proxy_response =
  status_code :: nat
  media_type :: pystr
  resp_headers :: "(pystr \<times> pystr) list"
  upstream :: pystr

definition proxy_stream :: "fetcher \<Rightarrow> pystr \<Rightarrow> proxy_response" where
  "proxy_stream fetch url =
     (let resolved_url = parse_playlist_url fetch url
      in \<lparr>status_code = 200, media_type = ''audio/mpeg'',
          resp_headers = [(''Cache-Control'', ''no-cache''), (''Accept-Ranges'', ''none'')],
          upstream = resolved_url\<rparr>)"

text \<open>The body the client receives: the relay run on the events of the
  origin reached at the resolved URL.\<close>

definition proxy_body :: "(pystr \<Rightarrow> relay_event list) \<Rightarrow> proxy_response \<Rightarrow> relay_state" where
  "proxy_body origin r = relay_run relay_init (origin (upstream r))"

subsection \<open>Properties of the endpoint\<close>

text \<open>C16. End to end: when the origin behind the resolved URL sends a head,
  any reads and the end of the body, the client receives exactly that body,
  in 8192-byte chunks, under status 200, \<open>audio/mpeg\<close>, no caching and no
  range support.\<close>

theorem proxy_end_to_end:
  assumes "origin (parse_playlist_url fetch url) = OriginHead st # map OriginData ds @ [OriginEnd]"
  shows "sent (proxy_body origin (proxy_stream fetch url)) = chunks_of chunk_size (concat ds) \<and>
         status_code (proxy_stream fetch url) = 200 \<and>
         media_type (proxy_stream fetch url) = ''audio/mpeg'' \<and>
         map_of (resp_headers (proxy_stream fetch url)) ''Cache-Control'' = Some ''no-cache'' \<and>
         map_of (resp_headers (proxy_stream fetch url)) ''Accept-Ranges'' = Some ''none''"
proof -
  have "sent (proxy_body origin (proxy_stream fetch url)) =
        sent (relay_run relay_init (OriginHead st # map OriginData ds @ [OriginEnd]))"
    using assms by (simp add: proxy_body_def proxy_stream_def)
  also have "\<dots> = chunks_of chunk_size (concat ds)"
    using relay_after_data [of st ds]
    by (simp add: relay_run_append [of _ "OriginHead st # map OriginData ds", simplified]
        relay_step_end relay_close_def chunks_of_split [OF chunk_size_pos])
  finally show ?thesis by (simp add: proxy_stream_def)
qed

theorem proxy_end_to_end_witness:
  "sent (proxy_body (\<lambda>_. [OriginHead 200, OriginData [7, 8], OriginData [9], OriginEnd])
           (proxy_stream (fail_all ReadTimeout) ''http://ice2.somafm.com/dronezone-128-mp3'')) =
   chunks_of chunk_size [7, 8, 9]"
proof -
  have h: "(\<lambda>_. [OriginHead 200, OriginData [7, 8], OriginData [9], OriginEnd])
      (parse_playlist_url (fail_all ReadTimeout) ''http://ice2.somafm.com/dronezone-128-mp3'') =
    OriginHead 200 # map OriginData [[7, 8], [9 :: byte]] @ [OriginEnd]"
    by simp
  show ?thesis using proxy_end_to_end [OF h] by simp
qed

text \<open>C17. An origin that cannot be reached is reported to the client as
  status 200 with an empty body: the status line has gone out before the
  relay connects, so the failure only shows as a body that ends at once.\<close>

theorem proxy_connect_failure_is_200:
  assumes "origin (parse_playlist_url fetch url) = OriginFails e # evs"
  shows "status_code (proxy_stream fetch url) = 200 \<and>
         sent (proxy_body origin (proxy_stream fetch url)) = [] \<and>
         \<not> origin_open (proxy_body origin (proxy_stream fetch url))"
proof -
  have fin: "relay_terminal (phase (relay_step relay_init (OriginFails e)))"
    by (simp add: relay_step_fails relay_init_def relay_close_def relay_terminal_def)
  have "proxy_body origin (proxy_stream fetch url) = relay_step relay_init (OriginFails e)"
    using assms relay_run_terminal [OF fin, of evs] by (simp add: proxy_body_def proxy_stream_def)
  then show ?thesis
    by (simp add: proxy_stream_def relay_step_fails relay_init_def relay_close_def)
qed

theorem proxy_connect_failure_is_200_witness:
  "status_code (proxy_stream (fail_all ReadTimeout) ''http://s/live'') = 200 \<and>
   sent (proxy_body (\<lambda>_. [OriginFails ConnectFailure]) (proxy_stream (fail_all ReadTimeout) ''http://s/live'')) = []"
proof -
  have h: "(\<lambda>_. [OriginFails ConnectFailure])
      (parse_playlist_url (fail_all ReadTimeout) ''http://s/live'') = OriginFails ConnectFailure # []"
    by simp
  show ?thesis using proxy_connect_failure_is_200 [OF h] by simp
qed

end
