(* ===== verification/Js.thy ===== *)
theory Js
  imports Prelude
begin

text \<open>
  How the browser reads the JavaScript the radio page writes into its
  handlers: a string literal delimited by a quote character \<open>q\<close> (single
  quotes in the play buttons, double quotes in the JSON of the random
  button). \<open>js_lit_body q s\<close> reads the literal whose opening quote has just
  been consumed: its value and the text after the closing quote, or \<open>None\<close>
  for a literal that is not closed on its line or has a malformed escape.
  Escapes: \<open>\b \f \n \r \t \v \0\<close>, \<open>\xHH\<close>, \<open>\uHHHH\<close>, a backslash before a
  line break (continuation), and a backslash before any other character
  standing for that character. A \<open>\u\<close> escape above U+00FF gives \<open>None\<close>,
  being outside the characters of the model; the legacy octal escapes
  \<open>\1\<close>..\<open>\7\<close> are not modelled.
\<close>

definition js_escape :: "char \<Rightarrow> char" where
  "js_escape d =
     (if d = CHR ''n'' then CHR 0x0A else if d = CHR ''t'' then CHR 0x09
      else if d = CHR ''r'' then CHR 0x0D else if d = CHR ''b'' then CHR 0x08
      else if d = CHR ''f'' then CHR 0x0C else if d = CHR ''v'' then CHR 0x0B
      else if d = CHR ''0'' then CHR 0x00 else d)"

definition hex_num :: "pystr \<Rightarrow> nat option" where
  "hex_num ds =
     (if ds \<noteq> [] \<and> list_all (\<lambda>c. hex_val c \<noteq> None) ds
      then Some (foldl (\<lambda>a c. 16 * a + the (hex_val c)) 0 ds) else None)"

function js_lit_body :: "char \<Rightarrow> pystr \<Rightarrow> (pystr \<times> pystr) option" where
  "js_lit_body q s =
     (case s of
        [] \<Rightarrow> None
      | c # cs \<Rightarrow>
          if c = q then Some ([], cs)
          else if c = CHR 0x5C then
            (case cs of
               [] \<Rightarrow> None
             | d # ds \<Rightarrow>
                 if d = CHR ''u'' then
                   (case hex_num (take 4 ds) of
                      Some n \<Rightarrow>
                        if 4 \<le> length ds \<and> n < 256
                        then map_option (\<lambda>(v, r). (char_of n # v, r)) (js_lit_body q (drop 4 ds))
                        else None
                    | None \<Rightarrow> None)
                 else if d = CHR ''x'' then
                   (case hex_num (take 2 ds) of
                      Some n \<Rightarrow>
                        if 2 \<le> length ds
                        then map_option (\<lambda>(v, r). (char_of n # v, r)) (js_lit_body q (drop 2 ds))
                        else None
                    | None \<Rightarrow> None)
                 else if d = CHR 0x0A then js_lit_body q ds
                 else if d = CHR 0x0D then js_lit_body q (if ds \<noteq> [] \<and> hd ds = CHR 0x0A then tl ds else ds)
                 else map_option (\<lambda>(v, r). (js_escape d # v, r)) (js_lit_body q ds))
          else if c = CHR 0x0A \<or> c = CHR 0x0D then None
          else map_option (\<lambda>(v, r). (c # v, r)) (js_lit_body q cs))"
  by pat_completeness auto
termination by (relation "measure (\<lambda>(q, s). length s)") auto

declare js_lit_body.simps [simp del]

text \<open>A text that needs no escape inside a literal quoted with \<open>q\<close>.\<close>

definition js_plain_for :: "char \<Rightarrow> pystr \<Rightarrow> bool" where
  "js_plain_for q v \<longleftrightarrow> list_all (\<lambda>c. c \<noteq> q \<and> c \<noteq> CHR 0x5C \<and> c \<noteq> CHR 0x0A \<and> c \<noteq> CHR 0x0D) v"

subsection \<open>Lemmas\<close>

lemma js_lit_body_Nil [simp]: "js_lit_body q [] = None"
  by (simp add: js_lit_body.simps)

lemma js_lit_body_quote [simp]: "js_lit_body q (q # cs) = Some ([], cs)"
  by (simp add: js_lit_body.simps)

lemma js_lit_body_plain_char:
  "c \<noteq> q \<Longrightarrow> c \<noteq> CHR 0x5C \<Longrightarrow> c \<noteq> CHR 0x0A \<Longrightarrow> c \<noteq> CHR 0x0D \<Longrightarrow>
     js_lit_body q (c # cs) = map_option (\<lambda>(v, r). (c # v, r)) (js_lit_body q cs)"
  by (subst js_lit_body.simps) simp

lemma js_lit_body_escape:
  "q \<noteq> CHR 0x5C \<Longrightarrow> d \<notin> {CHR ''u'', CHR ''x'', CHR 0x0A, CHR 0x0D} \<Longrightarrow>
     js_lit_body q (CHR 0x5C # d # ds) = map_option (\<lambda>(v, r). (js_escape d # v, r)) (js_lit_body q ds)"
  by (subst js_lit_body.simps) simp

lemma js_lit_body_unicode:
  "q \<noteq> CHR 0x5C \<Longrightarrow> hex_num h = Some n \<Longrightarrow> length h = 4 \<Longrightarrow> n < 256 \<Longrightarrow>
     js_lit_body q (CHR 0x5C # CHR ''u'' # h @ ds) =
       map_option (\<lambda>(v, r). (char_of n # v, r)) (js_lit_body q ds)"
  by (subst js_lit_body.simps) simp

lemma js_lit_body_plain: "js_plain_for q v \<Longrightarrow> js_lit_body q (v @ q # r) = Some (v, r)"
proof (induction v)
  case (Cons c v)
  then show ?case by (simp add: js_plain_for_def js_lit_body_plain_char)
qed simp

lemma js_plain_for_append [simp]: "js_plain_for q (xs @ ys) \<longleftrightarrow> js_plain_for q xs \<and> js_plain_for q ys"
  by (simp add: js_plain_for_def)

text \<open>What follows a literal is a proper suffix of the text it was read
  from, so a reader that goes on after the literal terminates.\<close>

lemma map_option_cons_Some:
  "map_option (\<lambda>(v, r). (c # v, r)) x = Some (v', r') \<Longrightarrow> \<exists>v. x = Some (v, r')"
  by (cases x) auto

lemma js_lit_body_shorter: "js_lit_body q s = Some (v, r) \<Longrightarrow> length r < length s"
proof (induction "length s" arbitrary: s v r rule: less_induct)
  case less
  obtain c cs where s: "s = c # cs"
    using less.prems by (cases s) simp_all
  have IH: "length r' < length t" if "js_lit_body q t = Some (w, r')" "length t \<le> length cs" for t w r'
    using less.hyps [OF _ that(1)] that(2) s by simp
  show ?case
  proof (cases "c = CHR 0x5C \<and> c \<noteq> q")
    case True
    then obtain d ds where cs: "cs = d # ds"
      using less.prems s True by (cases cs) (auto simp: js_lit_body.simps)
    from less.prems True show ?thesis
      unfolding s cs
      by (subst (asm) js_lit_body.simps)
        (auto split: if_splits option.splits dest!: map_option_cons_Some dest: IH simp: s cs)
  next
    case False
    from less.prems False show ?thesis
      unfolding s
      by (subst (asm) js_lit_body.simps)
        (auto split: if_splits dest!: map_option_cons_Some dest: IH simp: s)
  qed
qed

end
