(* ===== verification/Json.thy ===== *)
theory Json
  imports Js
begin

text \<open>
  Python's \<open>json.dumps\<close> with its defaults (\<open>ensure_ascii=True\<close>, separators
  \<open>', '\<close> and \<open>': '\<close>) on the values the radio page dumps: strings, lists
  and dictionaries in insertion order. In a string, \<open>"\<close> and \<open>\\<close> are
  escaped with a backslash, as are backspace, form feed, LF, CR and tab; any
  other character outside the printable ASCII range \<open>' '\<close>..\<open>'~'\<close> becomes
  \<open>\u\<close> and four lower-case hex digits.
\<close>

datatype json = JString pystr | JArray "json list" | JObject "(pystr \<times> json) list"

definition hex_lower :: "nat \<Rightarrow> char" where
  "hex_lower d = char_of (if d < 10 then 48 + d else 87 + d)"

definition json_esc_char :: "char \<Rightarrow> pystr" where
  "json_esc_char c =
     (let n = of_char c :: nat in
      if c = CHR ''\"'' then [CHR 0x5C, CHR ''\"'']
      else if n = 92 then [CHR 0x5C, CHR 0x5C]
      else if n = 10 then [CHR 0x5C, CHR ''n'']
      else if n = 13 then [CHR 0x5C, CHR ''r'']
      else if n = 9 then [CHR 0x5C, CHR ''t'']
      else if n = 8 then [CHR 0x5C, CHR ''b'']
      else if n = 12 then [CHR 0x5C, CHR ''f'']
      else if 32 \<le> n \<and> n \<le> 126 then [c]
      else [CHR 0x5C, CHR ''u'', CHR ''0'', CHR ''0'', hex_lower (n div 16), hex_lower (n mod 16)])"

definition json_quote :: "pystr \<Rightarrow> pystr" where
  "json_quote s = CHR ''\"'' # concat (map json_esc_char s) @ [CHR ''\"'']"

fun json_dumps :: "json \<Rightarrow> pystr" where
  "json_dumps (JString s) = json_quote s"
| "json_dumps (JArray xs) = ''['' @ py_join '', '' (map json_dumps xs) @ '']''"
| "json_dumps (JObject kvs) =
     ''{'' @ py_join '', '' (map (\<lambda>(k, v). json_quote k @ '': '' @ json_dumps v) kvs) @ ''}''"

subsection \<open>Lemmas\<close>

lemma of_char_inj: "(of_char c :: nat) = of_char d \<Longrightarrow> c = d"
  by (metis char_of_char)

lemma hex_val_hex_lower: "d < 16 \<Longrightarrow> hex_val (hex_lower d) = Some d"
  by (simp add: hex_val_def hex_lower_def of_char_of)

lemma hex_num_two: "n < 256 \<Longrightarrow> hex_num [CHR ''0'', CHR ''0'', hex_lower (n div 16), hex_lower (n mod 16)] = Some n"
proof -
  assume n: "n < 256"
  then have "n div 16 < 16" by simp
  moreover have "hex_val CHR ''0'' = Some 0" by (simp add: hex_val_def)
  ultimately show ?thesis
    by (simp add: hex_num_def hex_val_hex_lower)
qed

text \<open>The browser reads an escaped character back as the character.\<close>

lemma js_lit_body_json_esc_char:
  "js_lit_body CHR ''\"'' (json_esc_char c @ rest) =
     map_option (\<lambda>(v, r). (c # v, r)) (js_lit_body CHR ''\"'' rest)"
proof -
  define n where "n = (of_char c :: nat)"
  have n256: "n < 256" unfolding n_def by (rule nat_of_char_less_256)
  have is_code: "c = d" if "n = of_char d" for d
    using that unfolding n_def by (rule of_char_inj)
  have esc: "js_lit_body CHR ''\"'' (CHR 0x5C # d # rest) =
               map_option (\<lambda>(v, r). (js_escape d # v, r)) (js_lit_body CHR ''\"'' rest)"
    if "d \<notin> {CHR ''u'', CHR ''x'', CHR 0x0A, CHR 0x0D}" for d
    using that by (rule js_lit_body_escape [rotated]) simp
  consider "c = CHR ''\"''" | "n = 92" | "n = 10" | "n = 13" | "n = 9" | "n = 8" | "n = 12"
    | "c \<noteq> CHR ''\"''" "n \<notin> {92, 10, 13, 9, 8, 12}" "32 \<le> n \<and> n \<le> 126"
    | "c \<noteq> CHR ''\"''" "n \<notin> {92, 10, 13, 9, 8, 12}" "\<not> (32 \<le> n \<and> n \<le> 126)"
    by blast
  then show ?thesis
  proof cases
    case 1
    then show ?thesis by (simp add: json_esc_char_def esc js_escape_def)
  next
    case 2
    then have "c = CHR 0x5C" by (intro is_code) simp
    then show ?thesis by (simp add: json_esc_char_def esc js_escape_def)
  next
    case 3
    then have "c = CHR 0x0A" by (intro is_code) simp
    then show ?thesis by (simp add: json_esc_char_def esc js_escape_def)
  next
    case 4
    then have "c = CHR 0x0D" by (intro is_code) simp
    then show ?thesis by (simp add: json_esc_char_def esc js_escape_def)
  next
    case 5
    then have "c = CHR 0x09" by (intro is_code) simp
    then show ?thesis by (simp add: json_esc_char_def esc js_escape_def)
  next
    case 6
    then have "c = CHR 0x08" by (intro is_code) simp
    then show ?thesis by (simp add: json_esc_char_def esc js_escape_def)
  next
    case 7
    then have "c = CHR 0x0C" by (intro is_code) simp
    then show ?thesis by (simp add: json_esc_char_def esc js_escape_def)
  next
    case 8
    then have "json_esc_char c = [c]"
      by (simp add: json_esc_char_def n_def)
    moreover have "c \<noteq> CHR 0x5C" "c \<noteq> CHR 0x0A" "c \<noteq> CHR 0x0D"
      using 8 by (auto simp: n_def)
    ultimately show ?thesis
      using 8 by (simp add: js_lit_body_plain_char)
  next
    case 9
    then have "json_esc_char c =
        CHR 0x5C # CHR ''u'' # [CHR ''0'', CHR ''0'', hex_lower (n div 16), hex_lower (n mod 16)]"
      by (simp add: json_esc_char_def n_def Let_def)
    moreover have "char_of n = c" unfolding n_def by (rule char_of_char)
    ultimately show ?thesis
      using js_lit_body_unicode [OF _ hex_num_two [OF n256] _ n256, of "CHR ''\"''" rest] by simp
  qed
qed

text \<open>Round trip: the browser reads a dumped string as the string.\<close>

lemma js_lit_body_json_quote:
  "js_lit_body CHR ''\"'' (tl (json_quote s) @ r) = Some (s, r)"
proof (induction s)
  case (Cons c s)
  then show ?case
    by (simp add: json_quote_def js_lit_body_json_esc_char)
qed (simp add: json_quote_def)

lemma json_esc_char_ascii: "d \<in> set (json_esc_char c) \<Longrightarrow> (of_char d :: nat) < 128"
proof -
  assume d: "d \<in> set (json_esc_char c)"
  have "(of_char (hex_lower k) :: nat) < 128" if "k < 16" for k
    using that by (simp add: hex_lower_def of_char_of)
  moreover have "(of_char c :: nat) div 16 < 16"
    by (rule less_mult_imp_div_less) simp
  ultimately show ?thesis
    using d by (auto simp: json_esc_char_def Let_def split: if_splits)
qed

lemma json_quote_ascii: "d \<in> set (json_quote s) \<Longrightarrow> (of_char d :: nat) < 128"
  by (auto simp: json_quote_def dest: json_esc_char_ascii)

lemma json_dumps_ascii: "c \<in> set (json_dumps v) \<Longrightarrow> (of_char c :: nat) < 128"
proof (induction v arbitrary: c rule: json_dumps.induct)
  case (1 s)
  then show ?case by (auto dest: json_quote_ascii)
next
  case (2 xs)
  then show ?case
    using set_py_join [of "'', ''" "map json_dumps xs"] by auto
next
  case (3 kvs)
  then show ?case
    using set_py_join [of "'', ''" "map (\<lambda>(k, v). json_quote k @ '': '' @ json_dumps v) kvs"]
    by (fastforce dest: json_quote_ascii)
qed

end
