(* ===== verification/Station.thy ===== *)
theory Station
  imports Web Url Proxy Json
begin

text \<open>
  The radio app's station store and index page: \<open>init_db\<close> of
  \<^verbatim>\<open>src/radio/db_setup.py\<close>, which creates the \<open>stations\<close> table keyed by
  name and loads the station list, the \<open>/add_station\<close> handler and the
  station list of the index page \<open>get()\<close> in \<^verbatim>\<open>src/radio/main.py\<close>. The
  table is the list of its rows in rowid order, the order
  \<open>stations_table()\<close> returns them. Of the page, each station's entry is
  kept: its name and the \<open>onclick\<close> text of its play button, which calls
  \<open>playStation(name, play_url)\<close> with \<open>play_url = '/proxy?url=' +
  quote(stream_url)\<close>.

  The rest of the page is its status area (the \<open>nowPlaying\<close> heading and
  the volume slider at 80), the custom stream form, whose Save button posts
  to \<open>/add_station\<close> and whose Play button plays the typed URL through
  \<open>/proxy\<close> with \<open>encodeURIComponent\<close>, and the random button, whose
  handler holds the stations as \<open>json.dumps\<close> writes them and plays one
  chosen by \<open>Math.random\<close> (\<open>index_get\<close>).

  The browser side is modelled as far as the round trips need it: the
  parse of a play button's \<open>onclick\<close> text as a call with two single-quoted
  string literals (\<open>js_play_call\<close>), the parse of the random button's
  handler with its array of objects of double-quoted literals
  (\<open>js_random_play\<close>, reading the layout \<open>json.dumps\<close> writes), both over
  the literal reader of \<^verbatim>\<open>Js.thy\<close>, and the request the player makes
  for a play URL, routed to \<open>proxy_stream\<close> with Starlette's query parsing
  (\<open>proxy_request\<close>).
\<close>

record station =
  st_name :: pystr
  st_url :: "pystr option"
  st_stream_url :: pystr
  st_category :: "pystr option"
  st_description :: "pystr option"
  st_last_checked :: "pystr option"

text \<open>\<open>stations.insert(...)\<close> on a table whose primary key is \<open>name\<close>.\<close>

definition st_insert :: "station \<Rightarrow> station list \<Rightarrow> db_error + station list" where
  "st_insert s t =
     (if st_name s \<in> set (map st_name t) then Inl (IntegrityError (st_name s)) else Inr (t @ [s]))"

definition station_category :: "pystr \<Rightarrow> pystr" where
  "station_category name =
     (if py_startswith name ''SOMA'' then ''SomaFM''
      else if name \<in> set [''BLUE'', ''CRYO'', ''VOWI''] then ''Bluemars''
      else ''Other'')"

definition init_row :: "pystr \<times> pystr \<Rightarrow> station" where
  "init_row = (\<lambda>(name, url).
     \<lparr>st_name = name, st_url = Some url, st_stream_url = url,
      st_category = Some (station_category name), st_description = Some name,
      st_last_checked = None\<rparr>)"

text \<open>The loop over \<open>station_data.items()\<close>; an exception ends
  \<open>init_db\<close>.\<close>

fun load_stations :: "(pystr \<times> pystr) list \<Rightarrow> station list \<Rightarrow> db_error + station list" where
  "load_stations [] t = Inr t"
| "load_stations (d # ds) t =
     (case st_insert (init_row d) t of Inl e \<Rightarrow> Inl e | Inr t' \<Rightarrow> load_stations ds t')"

text \<open>\<open>init_db()\<close>: the table is created and loaded only when it does not
  exist (\<open>None\<close>); the station list is the JSON object of
  \<^verbatim>\<open>stations.txt\<close>, in its order.\<close>

definition init_db :: "station list option \<Rightarrow> (pystr \<times> pystr) list \<Rightarrow> db_error + station list" where
  "init_db db data = (case db of Some t \<Rightarrow> Inr t | None \<Rightarrow> load_stations data [])"

definition add_station :: "pystr \<Rightarrow> pystr \<Rightarrow> station list \<Rightarrow> reply \<times> station list" where
  "add_station name url t =
     redirect_or_error ''/'' t
       (st_insert \<lparr>st_name = name, st_url = None, st_stream_url = url, st_category = None,
                   st_description = None, st_last_checked = None\<rparr> t)"

subsection \<open>The index page\<close>

definition play_url :: "pystr \<Rightarrow> pystr" where
  "play_url u = ''/proxy?url='' @ py_quote u"

definition js_sq :: char where
  "js_sq = CHR 0x27"

definition station_onclick :: "station \<Rightarrow> pystr" where
  "station_onclick s =
     ''playStation('' @ [js_sq] @ st_name s @ [js_sq] @ '', '' @ [js_sq] @
       play_url (st_stream_url s) @ [js_sq] @ '')''"

record station_entry =
  se_name :: pystr
  se_onclick :: pystr

definition index_entries :: "station list \<Rightarrow> station_entry list" where
  "index_entries t = map (\<lambda>s. \<lparr>se_name = st_name s, se_onclick = station_onclick s\<rparr>) t"

text \<open>The \<open>/proxy\<close> route with its \<open>url: str\<close> query parameter; a request
  without it is refused (\<open>None\<close>).\<close>

definition proxy_request :: "fetcher \<Rightarrow> pystr \<Rightarrow> proxy_response option" where
  "proxy_request fetch u =
     (if url_path u = ''/proxy''
      then map_option (proxy_stream fetch) (query_param ''url'' (url_query u))
      else None)"

subsection \<open>The random button, the custom stream form and the page\<close>

text \<open>\<open>random_stations_json\<close>: the stations as the list of their names and
  stream URLs, dumped by \<open>json.dumps\<close>.\<close>

definition station_json :: "station \<Rightarrow> json" where
  "station_json s = JObject [(''name'', JString (st_name s)), (''url'', JString (st_stream_url s))]"

definition random_stations_json :: "station list \<Rightarrow> pystr" where
  "random_stations_json t = json_dumps (JArray (map station_json t))"

definition js_indent :: "nat \<Rightarrow> pystr" where
  "js_indent n = CHR 0x0A # replicate n (CHR '' '')"

definition random_prefix :: pystr where
  "random_prefix = js_indent 12 @ ''const stations = ''"

definition random_suffix :: pystr where
  "random_suffix =
     '';'' @ js_indent 12 @ ''const station = stations[Math.floor(Math.random() * stations.length)];'' @
     js_indent 12 @ ''playStation(station.name, station.url);'' @ js_indent 8"

text \<open>The \<open>onclick\<close> f-string of the random button, with its line breaks and
  indentation.\<close>

definition random_onclick :: "station list \<Rightarrow> pystr" where
  "random_onclick t = random_prefix @ random_stations_json t @ random_suffix"

text \<open>What the custom Play button's handler passes to \<open>playStation\<close> for the
  values typed into the name and URL inputs: \<open>name || 'Custom Stream'\<close>
  (the empty string is falsy) and \<open>'/proxy?url=' + encodeURIComponent(url)\<close>.\<close>

definition custom_play :: "pystr \<Rightarrow> pystr \<Rightarrow> pystr \<times> pystr" where
  "custom_play name_val url_val =
     (if name_val = [] then ''Custom Stream'' else name_val,
      ''/proxy?url='' @ js_encode_uri_component url_val)"

text \<open>The index page \<open>get()\<close>: the heading of the status area, the initial
  volume, the form of the custom stream inputs (its Save button), the
  station entries and the random button's handler. The emoji of the labels
  are left out.\<close>

record index_page =
  ip_now_playing :: pystr
  ip_volume :: nat
  ip_custom_form :: html_form
  ip_entries :: "station_entry list"
  ip_random :: pystr

definition index_get :: "station list \<Rightarrow> index_page" where
  "index_get t =
     \<lparr>ip_now_playing = ''Select a station'', ip_volume = 80,
      ip_custom_form = HtmlForm ''Save'' ''post'' ''/add_station'',
      ip_entries = index_entries t, ip_random = random_onclick t\<rparr>"

subsection \<open>The browser's reading of the play button\<close>

definition js_play_call :: "pystr \<Rightarrow> (pystr \<times> pystr) option" where
  "js_play_call s =
     (let p = ''playStation('' @ [js_sq] in
      if py_startswith s p then
        (case js_lit_body js_sq (drop (length p) s) of
           None \<Rightarrow> None
         | Some (a, r) \<Rightarrow>
             (let q = '', '' @ [js_sq] in
              if py_startswith r q then
                (case js_lit_body js_sq (drop (length q) r) of
                   None \<Rightarrow> None
                 | Some (b, r2) \<Rightarrow> if r2 = '')'' then Some (a, b) else None)
              else None))
      else None)"

abbreviation js_plain :: "pystr \<Rightarrow> bool" where
  "js_plain v \<equiv> js_plain_for js_sq v"

subsection \<open>The browser's reading of the random button\<close>

definition js_dq :: char where
  "js_dq = CHR 0x22"

text \<open>One object \<open>{"name": n, "url": u}\<close> in the layout \<open>json.dumps\<close>
  writes, and the text after it.\<close>

definition js_station_obj :: "pystr \<Rightarrow> ((pystr \<times> pystr) \<times> pystr) option" where
  "js_station_obj s =
     (let p = ''{'' @ [js_dq] @ ''name'' @ [js_dq] @ '': '' @ [js_dq] in
      if py_startswith s p then
        (case js_lit_body js_dq (drop (length p) s) of
           None \<Rightarrow> None
         | Some (n, r) \<Rightarrow>
             (let q = '', '' @ [js_dq] @ ''url'' @ [js_dq] @ '': '' @ [js_dq] in
              if py_startswith r q then
                (case js_lit_body js_dq (drop (length q) r) of
                   None \<Rightarrow> None
                 | Some (u, r2) \<Rightarrow> if py_startswith r2 ''}'' then Some ((n, u), drop 1 r2) else None)
              else None))
      else None)"

function js_station_objs :: "pystr \<Rightarrow> ((pystr \<times> pystr) list \<times> pystr) option" where
  "js_station_objs s =
     (case js_station_obj s of
        None \<Rightarrow> None
      | Some (ob, r) \<Rightarrow>
          if py_startswith r '', ''
          then map_option (\<lambda>(obs, r'). (ob # obs, r')) (js_station_objs (drop 2 r))
          else Some ([ob], r))"
  by pat_completeness auto
termination
  by (relation "measure length")
    (auto simp: js_station_obj_def Let_def py_startswith_def split: if_splits option.splits
      dest!: js_lit_body_shorter, arith)

declare js_station_objs.simps [simp del]

definition js_station_array :: "pystr \<Rightarrow> ((pystr \<times> pystr) list \<times> pystr) option" where
  "js_station_array s =
     (if py_startswith s ''[]'' then Some ([], drop 2 s)
      else if py_startswith s ''['' then
        (case js_station_objs (drop 1 s) of
           None \<Rightarrow> None
         | Some (obs, r) \<Rightarrow> if py_startswith r '']'' then Some (obs, drop 1 r) else None)
      else None)"

text \<open>The random button's handler run with \<open>Math.floor(Math.random() *
  stations.length) = k\<close>: the name and URL given to \<open>playStation\<close>, or
  \<open>None\<close> when the text is not the handler or \<open>stations[k]\<close> is undefined
  (then \<open>station.name\<close> throws a \<open>TypeError\<close>).\<close>

definition js_random_play :: "nat \<Rightarrow> pystr \<Rightarrow> (pystr \<times> pystr) option" where
  "js_random_play k s =
     (if py_startswith s random_prefix then
        (case js_station_array (drop (length random_prefix) s) of
           None \<Rightarrow> None
         | Some (obs, r) \<Rightarrow> if r = random_suffix \<and> k < length obs then Some (obs ! k) else None)
      else None)"

subsection \<open>Lemmas\<close>

lemma st_name_init_row [simp]: "st_name (init_row d) = fst d"
  by (simp add: init_row_def split: prod.split)

lemma load_stations_fresh:
  "distinct (map fst ds) \<Longrightarrow> fst ` set ds \<inter> set (map st_name t) = {} \<Longrightarrow>
     load_stations ds t = Inr (t @ map init_row ds)"
proof (induction ds arbitrary: t)
  case (Cons d ds)
  then have "st_insert (init_row d) t = Inr (t @ [init_row d])"
    by (auto simp: st_insert_def)
  moreover have "fst ` set ds \<inter> set (map st_name (t @ [init_row d])) = {}"
    using Cons.prems by auto
  ultimately show ?case
    using Cons by simp
qed simp

lemma js_plain_py_quote: "js_plain (py_quote u)"
  unfolding js_plain_for_def list_all_iff
proof (intro ballI)
  fix c assume "c \<in> set (py_quote u)"
  then have "quote_safe (of_char c) \<or> c = CHR ''%''" by (rule py_quote_url_char)
  then show "c \<noteq> js_sq \<and> c \<noteq> CHR 0x5C \<and> c \<noteq> CHR 0x0A \<and> c \<noteq> CHR 0x0D"
    by (auto simp: quote_safe_def js_sq_def)
qed

lemma js_plain_play_url: "js_plain (play_url u)"
  using js_plain_py_quote [of u] by (simp add: play_url_def js_plain_for_def js_sq_def)

lemma drop_length_append: "drop (length p) (p @ x) = x"
  by simp

lemma py_startswith_append: "py_startswith (p @ x) p"
  by (simp add: py_startswith_def)

text \<open>A play button whose name is a plain literal calls
  \<open>playStation\<close> with the name and the play URL.\<close>

lemma js_play_call_station:
  assumes name: "js_plain (st_name s)"
  shows "js_play_call (station_onclick s) = Some (st_name s, play_url (st_stream_url s))"
proof -
  let ?p = "''playStation('' @ [js_sq]" and ?q = "'', '' @ [js_sq]"
  let ?u = "play_url (st_stream_url s)"
  have s: "station_onclick s = ?p @ st_name s @ js_sq # ?q @ ?u @ js_sq # '')''"
    by (simp add: station_onclick_def)
  have b1: "js_lit_body js_sq (st_name s @ js_sq # ?q @ ?u @ js_sq # '')'') = Some (st_name s, ?q @ ?u @ js_sq # '')'')"
    by (rule js_lit_body_plain [OF name])
  have b2: "js_lit_body js_sq (?u @ js_sq # '')'') = Some (?u, '')'')"
    by (rule js_lit_body_plain [OF js_plain_play_url])
  show ?thesis
    unfolding js_play_call_def Let_def s
    by (simp only: py_startswith_append drop_length_append b1 b2 if_True option.case prod.case) simp
qed

lemma url_proxy_url: "url_path (''/proxy?url='' @ x) = ''/proxy'' \<and> url_query (''/proxy?url='' @ x) = ''url='' @ x"
  by (simp add: url_path_def url_query_def)

lemma py_unquote_plus_url: "py_unquote_plus ''url'' = Some ''url''"
proof -
  have "pct_decode ''url'' = utf8_encode ''url''"
    by (simp add: utf8_encode_def)
  then show ?thesis
    by (simp add: py_unquote_plus_def py_unquote_def del: utf8_decode.simps)
qed

lemma proxy_request_url:
  "query_param ''url'' (''url'' @ CHR ''='' # x) = Some v \<Longrightarrow>
     proxy_request fetch (''/proxy?url='' @ x) = Some (proxy_stream fetch v)"
  using url_proxy_url [of x] by (simp add: proxy_request_def)

text \<open>The request for a play URL reaches \<open>proxy_stream\<close> with the stored
  URL; so does the custom Play button's, with the typed URL.\<close>

lemma proxy_request_play_url: "proxy_request fetch (play_url u) = Some (proxy_stream fetch u)"
  unfolding play_url_def
  by (rule proxy_request_url, rule query_param_quote [OF py_unquote_plus_url]) simp_all

lemma proxy_request_custom: "proxy_request fetch (snd (custom_play n u)) = Some (proxy_stream fetch u)"
  unfolding custom_play_def snd_conv
  by (rule proxy_request_url, rule query_param_uri_component [OF py_unquote_plus_url]) simp_all

lemma js_lit_body_json_esc:
  "js_lit_body js_dq (concat (map json_esc_char s) @ js_dq # r) = Some (s, r)"
  using js_lit_body_json_quote [of s r] by (simp add: json_quote_def js_dq_def)

lemma js_station_obj_json:
  "js_station_obj (json_dumps (station_json s) @ r) = Some ((st_name s, st_stream_url s), r)"
proof -
  let ?p = "''{'' @ [js_dq] @ ''name'' @ [js_dq] @ '': '' @ [js_dq]"
  let ?q = "'', '' @ [js_dq] @ ''url'' @ [js_dq] @ '': '' @ [js_dq]"
  let ?n = "concat (map json_esc_char (st_name s))"
  let ?u = "concat (map json_esc_char (st_stream_url s))"
  have e: "json_dumps (station_json s) @ r = ?p @ ?n @ js_dq # ?q @ ?u @ js_dq # ''}'' @ r"
    by (simp add: station_json_def json_quote_def json_esc_char_def js_dq_def)
  show ?thesis
    unfolding js_station_obj_def Let_def e
    by (simp only: py_startswith_append drop_length_append js_lit_body_json_esc if_True
        option.case prod.case) (simp add: py_startswith_def)
qed

lemma js_station_objs_json:
  "ss \<noteq> [] \<Longrightarrow> \<not> py_startswith r '', '' \<Longrightarrow>
     js_station_objs (py_join '', '' (map json_dumps (map station_json ss)) @ r) =
       Some (map (\<lambda>s. (st_name s, st_stream_url s)) ss, r)"
proof (induction ss)
  case (Cons s ss)
  let ?rest = "py_join '', '' (map json_dumps (map station_json ss)) @ r"
  show ?case
  proof (cases ss)
    case Nil
    with Cons.prems show ?thesis
      by (subst js_station_objs.simps) (simp add: js_station_obj_json)
  next
    case (Cons s' ss')
    have "js_station_obj (json_dumps (station_json s) @ '', '' @ ?rest) =
        Some ((st_name s, st_stream_url s), '', '' @ ?rest)"
      by (rule js_station_obj_json)
    with Cons Cons.IH Cons.prems show ?thesis
      by (subst js_station_objs.simps) (simp add: py_startswith_def)
  qed
qed simp

lemma js_station_array_json:
  "js_station_array (random_stations_json t @ r) = Some (map (\<lambda>s. (st_name s, st_stream_url s)) t, r)"
proof (cases t)
  case Nil
  then show ?thesis by (simp add: random_stations_json_def js_station_array_def py_startswith_def)
next
  case (Cons s ss)
  let ?body = "py_join '', '' (map json_dumps (map station_json t)) @ '']'' @ r"
  have e: "random_stations_json t @ r = ''['' @ ?body"
    by (simp add: random_stations_json_def)
  have objs: "js_station_objs ?body = Some (map (\<lambda>s. (st_name s, st_stream_url s)) t, '']'' @ r)"
    using Cons by (intro js_station_objs_json) (simp_all add: py_startswith_def)
  have "\<not> py_startswith (''['' @ ?body) ''[]''"
    using Cons by (simp add: py_join_Cons station_json_def py_startswith_def)
  with objs show ?thesis
    unfolding js_station_array_def e
    by (simp add: py_startswith_def)
qed

lemma js_random_play_onclick:
  "js_random_play k (random_onclick t) =
     (if k < length t then Some (st_name (t ! k), st_stream_url (t ! k)) else None)"
  by (simp add: js_random_play_def random_onclick_def py_startswith_append js_station_array_json)

lemma index_get_simps [simp]:
  "ip_random (index_get t) = random_onclick t"
  "ip_entries (index_get t) = index_entries t"
  by (simp_all add: index_get_def)

subsection \<open>Properties\<close>

text \<open>C28. \<open>init_db\<close> on a fresh database stores every station of the list,
  in its order, with \<open>url\<close> and \<open>stream_url\<close> both the listed URL, its
  description the name, no \<open>last_checked\<close>, and its category from the name
  (\<open>SOMA...\<close> is SomaFM; BLUE, CRYO and VOWI are Bluemars; anything else is
  Other), and it leaves an existing table as it is. The names of the list
  are distinct, being the keys of the JSON object of \<^verbatim>\<open>stations.txt\<close>.\<close>

theorem station_init_db:
  assumes "distinct (map fst data)"
  shows "init_db None data =
           Inr (map (\<lambda>(n, u). \<lparr>st_name = n, st_url = Some u, st_stream_url = u,
                     st_category = Some (if py_startswith n ''SOMA'' then ''SomaFM''
                                         else if n \<in> set [''BLUE'', ''CRYO'', ''VOWI''] then ''Bluemars''
                                         else ''Other''),
                     st_description = Some n, st_last_checked = None\<rparr>) data) \<and>
         init_db (Some t) data = Inr t"
  using load_stations_fresh [OF assms, of "[]"]
  by (simp add: init_db_def init_row_def station_category_def)

theorem station_init_db_witness:
  "init_db None [(''SOMA_GROOVE'', ''http://somafm.com/groovesalad.pls''), (''BLUE'', ''http://bm/x'')] =
     Inr [\<lparr>st_name = ''SOMA_GROOVE'', st_url = Some ''http://somafm.com/groovesalad.pls'',
           st_stream_url = ''http://somafm.com/groovesalad.pls'', st_category = Some ''SomaFM'',
           st_description = Some ''SOMA_GROOVE'', st_last_checked = None\<rparr>,
          \<lparr>st_name = ''BLUE'', st_url = Some ''http://bm/x'', st_stream_url = ''http://bm/x'',
           st_category = Some ''Bluemars'', st_description = Some ''BLUE'', st_last_checked = None\<rparr>] \<and>
   init_db (Some []) [(''SOMA_GROOVE'', ''http://somafm.com/groovesalad.pls''), (''BLUE'', ''http://bm/x'')] =
     Inr []"
  using station_init_db [of "[(''SOMA_GROOVE'', ''http://somafm.com/groovesalad.pls''), (''BLUE'', ''http://bm/x'')]" "[]"]
  by (simp add: py_startswith_def)

text \<open>C29. Round trip from the stored URL to the proxy: for a station whose
  name is a plain JavaScript literal, the play button calls \<open>playStation\<close>
  with the name and a URL whose request, parsed by Starlette, calls
  \<open>proxy_stream\<close> with exactly the stored stream URL (\<open>quote\<close> then
  \<open>parse_qsl\<close> is the identity, for any characters of the URL).\<close>

theorem station_play_roundtrip:
  assumes "js_plain (st_name s)"
  shows "\<exists>u. js_play_call (station_onclick s) = Some (st_name s, u) \<and>
             proxy_request fetch u = Some (proxy_stream fetch (st_stream_url s))"
  using js_play_call_station [OF assms] proxy_request_play_url by blast

theorem station_play_roundtrip_witness:
  "\<exists>u. js_play_call (station_onclick (init_row (''SOMA_GROOVE'', ''http://x/a b?c=d&e''))) =
         Some (''SOMA_GROOVE'', u) \<and>
       proxy_request (fail_all ConnectTimeout) u =
         Some (proxy_stream (fail_all ConnectTimeout) ''http://x/a b?c=d&e'')"
  using station_play_roundtrip [of "init_row (''SOMA_GROOVE'', ''http://x/a b?c=d&e'')"
      "fail_all ConnectTimeout"]
  by (simp add: init_row_def js_plain_for_def js_sq_def)

text \<open>C30. The station name is put into the \<open>onclick\<close> JavaScript without
  escaping. For a name whose first character that a single-quoted literal
  would need escaped is an apostrophe (\<open>Radio d'Italia\<close>, saved through
  \<open>/add_station\<close>), the browser ends the first argument at that apostrophe:
  the play button either is no \<open>playStation\<close> call of two literals at all
  or calls it with the name cut before the apostrophe, never with the
  stored name (and the rest of the name runs as script).\<close>

theorem station_apostrophe_breaks_play:
  assumes plain: "js_plain v" and name: "st_name s = v @ js_sq # w"
  shows "map_option fst (js_play_call (station_onclick s)) \<in> {None, Some v}"
proof -
  let ?p = "''playStation('' @ [js_sq]" and ?q = "'', '' @ [js_sq]"
  let ?r = "w @ js_sq # ?q @ play_url (st_stream_url s) @ js_sq # '')''"
  have e: "station_onclick s = ?p @ v @ js_sq # ?r"
    by (simp add: station_onclick_def name)
  have b1: "js_lit_body js_sq (v @ js_sq # ?r) = Some (v, ?r)"
    by (rule js_lit_body_plain [OF plain])
  show ?thesis
    unfolding js_play_call_def Let_def e
    by (simp only: py_startswith_append drop_length_append b1 if_True option.case prod.case)
      (auto split: option.splits if_splits)
qed

theorem station_apostrophe_breaks_play_witness:
  "map_option fst (js_play_call (station_onclick (init_row (''Radio d'Italia'', ''http://x/live''))))
     \<in> {None, Some ''Radio d''}"
  using station_apostrophe_breaks_play [of "''Radio d''" "init_row (''Radio d'Italia'', ''http://x/live'')"
      "''Italia''"]
  by (simp add: js_plain_for_def js_sq_def)

text \<open>C31. Saving a custom station under a new name redirects to the index,
  where it is listed last and its play button streams the URL that was
  saved.\<close>

theorem add_station_listed:
  assumes "name \<notin> set (map st_name t)" and "js_plain name"
  shows "fst (add_station name url t) = Redirect ''/'' 303 \<and>
         se_name (last (index_entries (snd (add_station name url t)))) = name \<and>
         (\<exists>u. js_play_call (se_onclick (last (index_entries (snd (add_station name url t))))) =
                Some (name, u) \<and>
              proxy_request fetch u = Some (proxy_stream fetch url))"
proof -
  let ?s = "\<lparr>st_name = name, st_url = None, st_stream_url = url, st_category = None,
             st_description = None, st_last_checked = None\<rparr>"
  have add: "add_station name url t = (Redirect ''/'' 303, t @ [?s])"
    using assms(1) by (simp add: add_station_def st_insert_def)
  have "js_play_call (station_onclick ?s) = Some (name, play_url url)"
    using js_play_call_station [of ?s] assms(2) by simp
  with add show ?thesis
    by (simp add: index_entries_def proxy_request_play_url)
qed

theorem add_station_listed_witness:
  "fst (add_station ''Jazz24'' ''http://live.wostreaming.net/jazz24'' []) = Redirect ''/'' 303 \<and>
   se_name (last (index_entries (snd (add_station ''Jazz24'' ''http://live.wostreaming.net/jazz24'' [])))) =
     ''Jazz24'' \<and>
   (\<exists>u. js_play_call (se_onclick (last (index_entries
          (snd (add_station ''Jazz24'' ''http://live.wostreaming.net/jazz24'' []))))) = Some (''Jazz24'', u) \<and>
        proxy_request (fail_all ConnectTimeout) u =
          Some (proxy_stream (fail_all ConnectTimeout) ''http://live.wostreaming.net/jazz24''))"
  using add_station_listed [of "''Jazz24''" "[]" "''http://live.wostreaming.net/jazz24''"
      "fail_all ConnectTimeout"]
  by (simp add: js_plain_for_def js_sq_def)

text \<open>Saving a station under a name that is already stored (a preset or
  an earlier custom station) raises \<open>IntegrityError\<close>: the client gets a 500
  and the table is unchanged.\<close>

theorem add_station_duplicate:
  assumes "name \<in> set (map st_name t)"
  shows "add_station name url t = (ServerError (IntegrityError name), t)"
  using assms by (simp add: add_station_def st_insert_def)

theorem add_station_duplicate_witness:
  "add_station ''BLUE'' ''http://other'' [init_row (''BLUE'', ''http://bm/x'')] =
     (ServerError (IntegrityError ''BLUE''), [init_row (''BLUE'', ''http://bm/x'')])"
  using add_station_duplicate [of "''BLUE''" "[init_row (''BLUE'', ''http://bm/x'')]" "''http://other''"]
  by simp


text \<open>C32. The random button plays a station of the table with its name and
  stream URL exactly as stored, whatever characters they hold (an
  apostrophe included, unlike the play buttons): the browser reads the
  handler's \<open>json.dumps\<close> text back as the list of the stations, and
  \<open>stations[k]\<close> for the index \<open>k\<close> that \<open>Math.random\<close> gives is the
  \<open>k\<close>-th row. On an empty table the handler throws instead of playing.\<close>

theorem random_play_roundtrip:
  "js_random_play k (ip_random (index_get t)) =
     (if k < length t then Some (st_name (t ! k), st_stream_url (t ! k)) else None)"
  by (simp add: js_random_play_onclick)

text \<open>C34. The custom Play button plays the typed URL through \<open>/proxy\<close>: the
  request it makes reaches \<open>proxy_stream\<close> with exactly the typed URL,
  whatever characters it holds (\<open>encodeURIComponent\<close> then Starlette's
  \<open>parse_qsl\<close> is the identity), under the typed name, or
  \<open>'Custom Stream'\<close> when the name is empty, so never under an empty name.\<close>

theorem custom_play_roundtrip:
  "proxy_request fetch (snd (custom_play n u)) = Some (proxy_stream fetch u) \<and>
   fst (custom_play n u) \<noteq> [] \<and> (n \<noteq> [] \<longrightarrow> fst (custom_play n u) = n)"
  using proxy_request_custom by (simp add: custom_play_def)

theorem custom_play_roundtrip_witness:
  "proxy_request (fail_all ConnectTimeout) (snd (custom_play ''Jazz'' ''http://h/s?a=1&b=2 3'')) =
     Some (proxy_stream (fail_all ConnectTimeout) ''http://h/s?a=1&b=2 3'') \<and>
   fst (custom_play ''Jazz'' ''http://h/s?a=1&b=2 3'') \<noteq> [] \<and>
   fst (custom_play ''Jazz'' ''http://h/s?a=1&b=2 3'') = ''Jazz''"
  using custom_play_roundtrip [of "fail_all ConnectTimeout" "''Jazz''" "''http://h/s?a=1&b=2 3''"]
  by simp

text \<open>C35. Whatever the station names and URLs, the random button's handler
  is ASCII text: \<open>json.dumps\<close> writes every character outside printable
  ASCII as an escape, so no stored text reaches the page's script raw.\<close>

theorem random_onclick_ascii: "list_all (\<lambda>c. of_char c < (128 :: nat)) (ip_random (index_get t))"
  unfolding list_all_iff index_get_simps
proof
  fix c assume c: "c \<in> set (random_onclick t)"
  have lit: "(of_char d :: nat) < 128" if "d \<in> set (random_prefix @ random_suffix)" for d
    using that by (auto simp: random_prefix_def random_suffix_def js_indent_def)
  from c have "c \<in> set (random_prefix @ random_suffix) \<or>
      c \<in> set (json_dumps (JArray (map station_json t)))"
    unfolding random_onclick_def random_stations_json_def by auto
  then show "(of_char c :: nat) < 128"
    using lit json_dumps_ascii by blast
qed

end
