(* ===== verification/LinkPull.thy ===== *)
theory LinkPull
  imports Http "HOL-Library.Sublist"
begin

text \<open>
  The LinkPull scraper, \<^verbatim>\<open>src/linkpull/main.py\<close>: \<open>scrape_links\<close> fetches a
  page, collects the \<open>href\<close> of every anchor made absolute against the page
  URL, and keeps those a regular expression finds; \<open>post\<close> of \<open>/extract\<close>
  cleans the form input and renders the outcome. The libraries it calls
  are the parameters of the model (\<open>lp_env\<close>): the \<open>requests\<close> fetcher, the
  anchors BeautifulSoup finds in a document (in document order),
  \<open>urljoin\<close> (\<open>Inl\<close> with the text of the \<open>ValueError\<close> it raises on a
  malformed URL such as \<open>http://[x\<close>), the compilation of a pattern by
  \<open>re\<close> (\<open>None\<close> when it raises \<open>re.error\<close>) and the text \<open>str(e)\<close> of an
  exception. An exception of \<open>urljoin\<close> reaches the final
  \<open>except Exception\<close>; exceptions of BeautifulSoup and of \<open>re.search\<close>
  other than \<open>re.error\<close> are not modelled. The rendered
  page keeps the form values and the outcome: the heading text (without its
  check-mark symbol), the text of the results box and whether the copy
  button is shown, or the error message.
\<close>

record lp_env =
  lp_fetch :: fetcher
  lp_hrefs :: "pystr \<Rightarrow> pystr list"
  lp_join :: "pystr \<Rightarrow> pystr \<Rightarrow> pystr + pystr"
  lp_compile :: "pystr \<Rightarrow> (pystr \<Rightarrow> bool) option"
  lp_exc_str :: "requests_exc \<Rightarrow> pystr"
  lp_re_error_str :: "pystr \<Rightarrow> pystr"

text \<open>The returned pair: \<open>(True, links)\<close> or \<open>(False, message)\<close>.\<close>

datatype scrape_result = ScrapeOk "pystr list" | ScrapeErr pystr

text \<open>The \<open>except\<close> clauses in their order: the first whose class the
  exception belongs to gives the message.\<close>

definition scrape_exc_message :: "(requests_exc \<Rightarrow> pystr) \<Rightarrow> requests_exc \<Rightarrow> pystr" where
  "scrape_exc_message exc_str e =
     (if is_timeout e then ''Request timed out. The server took too long to respond.''
      else if is_connection_error e then ''Connection error. Could not reach the URL.''
      else (case e of
              HTTPError st reason \<Rightarrow> ''HTTP error: '' @ py_str_int (int st) @ '' - '' @ reason
            | _ \<Rightarrow> ''Error during request: '' @ exc_str e))"

text \<open>The pattern filter. \<open>re.search(pat, link)\<close> compiles the pattern at its
  first call, inside the list comprehension, so a page without links never
  compiles it and an invalid pattern is not reported.\<close>

definition scrape_filter :: "lp_env \<Rightarrow> pystr \<Rightarrow> pystr list \<Rightarrow> scrape_result" where
  "scrape_filter env pat links =
     (if links = [] then ScrapeOk []
      else (case lp_compile env pat of
              None \<Rightarrow> ScrapeErr (''Invalid regex pattern: '' @ lp_re_error_str env pat)
            | Some m \<Rightarrow> ScrapeOk (filter m links)))"

text \<open>The loop over the anchors (lines 30--33): each \<open>href\<close> made absolute
  with \<open>urljoin(url, href)\<close>, in document order; the first that raises ends
  the loop with its message.\<close>

fun lp_absolute_links :: "lp_env \<Rightarrow> pystr \<Rightarrow> pystr list \<Rightarrow> pystr + pystr list" where
  "lp_absolute_links env url [] = Inr []"
| "lp_absolute_links env url (h # hs) =
     (case lp_join env url h of
        Inl msg \<Rightarrow> Inl msg
      | Inr a \<Rightarrow> (case lp_absolute_links env url hs of Inl msg \<Rightarrow> Inl msg | Inr as \<Rightarrow> Inr (a # as)))"

definition scrape_links :: "lp_env \<Rightarrow> pystr \<Rightarrow> pystr option \<Rightarrow> scrape_result" where
  "scrape_links env url pat =
     (case lp_fetch env url of
        Inl e \<Rightarrow> ScrapeErr (scrape_exc_message (lp_exc_str env) e)
      | Inr resp \<Rightarrow>
          (case raise_for_status resp of
             Inl e \<Rightarrow> ScrapeErr (scrape_exc_message (lp_exc_str env) e)
           | Inr r \<Rightarrow>
               (case lp_absolute_links env url (lp_hrefs env (resp_text r)) of
                  Inl msg \<Rightarrow> ScrapeErr (''Unexpected error: '' @ msg)
                | Inr absolute_links \<Rightarrow>
                    (case pat of
                       Some p \<Rightarrow> if p \<noteq> [] then scrape_filter env p absolute_links
                                 else ScrapeOk absolute_links
                     | None \<Rightarrow> ScrapeOk absolute_links))))"

subsection \<open>The extract handler\<close>

text \<open>\<open>url.strip()\<close>, then \<open>https://\<close> in front unless it starts with
  \<open>http://\<close> or \<open>https://\<close> (case-sensitive).\<close>

definition lp_normalise :: "pystr \<Rightarrow> pystr" where
  "lp_normalise url =
     (let u = py_strip url
      in if py_startswith u ''http://'' \<or> py_startswith u ''https://'' then u else ''https://'' @ u)"

definition lp_clean_pattern :: "pystr option \<Rightarrow> pystr option" where
  "lp_clean_pattern pattern =
     (case pattern of None \<Rightarrow> None | Some p \<Rightarrow> if p \<noteq> [] then Some (py_strip p) else None)"

datatype lp_outcome = LpResults pystr pystr bool | LpError pystr

record lp_page =
  lpp_title :: pystr
  lpp_url_value :: pystr
  lpp_pattern_value :: pystr
  lpp_outcome :: lp_outcome

definition lp_outcome_of :: "scrape_result \<Rightarrow> lp_outcome" where
  "lp_outcome_of res =
     (case res of
        ScrapeOk links \<Rightarrow>
          (let count = length links in
           LpResults (''Found '' @ py_str_int (int count) @ '' matching link'' @
                        (if count \<noteq> 1 then ''s'' else ''''))
                     (py_join [CHR 0x0A] links) (0 < count))
      | ScrapeErr msg \<Rightarrow> LpError msg)"

definition lp_extract :: "lp_env \<Rightarrow> pystr \<Rightarrow> pystr option \<Rightarrow> lp_page" where
  "lp_extract env url pattern =
     (let u = lp_normalise url; p = lp_clean_pattern pattern
      in \<lparr>lpp_title = ''LinkPull - Results'', lpp_url_value = u,
          lpp_pattern_value = (case p of None \<Rightarrow> '''' | Some q \<Rightarrow> q),
          lpp_outcome = lp_outcome_of (scrape_links env u p)\<rparr>)"

subsection \<open>Lemmas\<close>

lemma lp_absolute_links_Inr:
  "lp_absolute_links env url hs = Inr as \<longleftrightarrow> list_all2 (\<lambda>h a. lp_join env url h = Inr a) hs as"
proof (induction hs arbitrary: as)
  case (Cons h hs)
  show ?case
    by (cases as) (auto simp: Cons.IH [symmetric] split: sum.splits)
qed auto

lemma scrape_links_response:
  "lp_fetch env url = Inr r \<Longrightarrow> resp_status r < 400 \<Longrightarrow>
     scrape_links env url pat =
       (case lp_absolute_links env url (lp_hrefs env (resp_text r)) of
          Inl msg \<Rightarrow> ScrapeErr (''Unexpected error: '' @ msg)
        | Inr links \<Rightarrow>
            (case pat of Some p \<Rightarrow> if p \<noteq> [] then scrape_filter env p links else ScrapeOk links
                       | None \<Rightarrow> ScrapeOk links))"
  by (simp add: scrape_links_def raise_for_status_def)

lemma scrape_filter_subseq: "scrape_filter env p links = ScrapeOk ls \<Longrightarrow> subseq ls links"
  by (auto simp: scrape_filter_def split: option.splits if_splits)

subsection \<open>Properties\<close>

text \<open>C36. Every link the scraper reports is the \<open>urljoin\<close> of an \<open>href\<close> of
  the fetched page with the page URL, and they come in the page's order:
  the result is a subsequence of the page's links made absolute, with or
  without a pattern.\<close>

theorem linkpull_links_subseq:
  assumes "scrape_links env url pat = ScrapeOk ls" and "lp_fetch env url = Inr r"
  shows "\<exists>as. list_all2 (\<lambda>h a. lp_join env url h = Inr a) (lp_hrefs env (resp_text r)) as \<and>
             subseq ls as"
  using assms scrape_filter_subseq
  by (auto simp: scrape_links_def raise_for_status_def lp_absolute_links_Inr [symmetric]
      split: sum.splits option.splits if_splits)

theorem linkpull_links_subseq_witness:
  "\<exists>as. list_all2 (\<lambda>h a. lp_join \<lparr>lp_fetch = serve_text 200 ''page'', lp_hrefs = (\<lambda>_. [''x.pdf'', ''y.html'']),
                     lp_join = (\<lambda>b h. Inr (b @ ''/'' @ h)), lp_compile = (\<lambda>p. Some (\<lambda>l. py_endswith l p)),
                     lp_exc_str = (\<lambda>_. ''''), lp_re_error_str = (\<lambda>_. '''')\<rparr> ''http://a'' h = Inr a)
          [''x.pdf'', ''y.html''] as \<and> subseq [''http://a/x.pdf''] as"
  using linkpull_links_subseq [of "\<lparr>lp_fetch = serve_text 200 ''page'', lp_hrefs = (\<lambda>_. [''x.pdf'', ''y.html'']),
      lp_join = (\<lambda>b h. Inr (b @ ''/'' @ h)), lp_compile = (\<lambda>p. Some (\<lambda>l. py_endswith l p)),
      lp_exc_str = (\<lambda>_. ''''), lp_re_error_str = (\<lambda>_. '''')\<rparr>" "''http://a''" "Some ''.pdf''"
      "[''http://a/x.pdf'']" "\<lparr>resp_status = 200, resp_reason = [], resp_text = ''page''\<rparr>"]
  by (simp add: scrape_links_def raise_for_status_def scrape_filter_def serve_text_def py_endswith_def)

text \<open>C37. The \<open>/extract\<close> page for a pattern that does not compile, on a
  page that was fetched: an \<open>href\<close> that \<open>urljoin\<close> rejects is reported as
  an unexpected error, before the pattern is ever used; otherwise the
  pattern is reported invalid only when the page has links, and a page
  without links shows that no link was found, since the pattern is compiled
  at the first \<open>re.search\<close> call.\<close>

theorem linkpull_invalid_regex:
  assumes "lp_fetch env (lp_normalise url) = Inr r" and "resp_status r < 400"
    and "lp_clean_pattern pattern = Some p" and "p \<noteq> []" and "lp_compile env p = None"
  shows "lpp_outcome (lp_extract env url pattern) =
           (case lp_absolute_links env (lp_normalise url) (lp_hrefs env (resp_text r)) of
              Inl msg \<Rightarrow> LpError (''Unexpected error: '' @ msg)
            | Inr [] \<Rightarrow> LpResults ''Found 0 matching links'' [] False
            | Inr (a # as) \<Rightarrow> LpError (''Invalid regex pattern: '' @ lp_re_error_str env p))"
  using assms
  by (simp add: lp_extract_def scrape_links_response scrape_filter_def lp_outcome_of_def pystr_simps
      split: sum.split list.split)

theorem linkpull_invalid_regex_witness:
  "lpp_outcome (lp_extract \<lparr>lp_fetch = serve_text 200 ''page'', lp_hrefs = (\<lambda>_. [''x.pdf'']),
                 lp_join = (\<lambda>b h. Inr (b @ ''/'' @ h)), lp_compile = (\<lambda>p. None),
                 lp_exc_str = (\<lambda>_. ''''), lp_re_error_str = (\<lambda>_. ''missing )'')\<rparr>
     ''http://a'' (Some ''((''))  = LpError (''Invalid regex pattern: '' @ ''missing )'')"
  using linkpull_invalid_regex [of "\<lparr>lp_fetch = serve_text 200 ''page'', lp_hrefs = (\<lambda>_. [''x.pdf'']),
                 lp_join = (\<lambda>b h. Inr (b @ ''/'' @ h)), lp_compile = (\<lambda>p. None),
                 lp_exc_str = (\<lambda>_. ''''), lp_re_error_str = (\<lambda>_. ''missing )'')\<rparr>"
      "''http://a''" "\<lparr>resp_status = 200, resp_reason = [], resp_text = ''page''\<rparr>" "Some ''((''" "''((''"]
  by (simp add: serve_text_def lp_normalise_def lp_clean_pattern_def py_startswith_def pystr_simps)

end
