(* ===== verification/Player.thy ===== *)
theory Player
  imports Prelude "HOL-Library.While_Combinator"
begin

text \<open>
  The radio player that runs in the browser: the JavaScript \<open>audio_js\<close>
  embedded in \<^verbatim>\<open>src/radio/main.py\<close> (lines 15--127). Its state is the
  page's: the globals \<open>currentStation\<close> and \<open>audio\<close>, the text of
  \<open>nowPlaying\<close>, the label of the pause button and the debug log (newest line
  first). The page reacts to events: the functions called from buttons
  (\<open>playStation\<close>, \<open>pauseRadio\<close>, \<open>setVolume\<close>), the media events an audio
  element fires, and the settling of the promises \<open>play()\<close> returns. Every
  audio element created keeps its listeners, closed over the \<open>name\<close> of the
  \<open>playStation\<close> call that created it, so events of an element that is no
  longer current still run them (\<open>listeners\<close>). The browser decides when
  events arrive: a run is any sequence of events.

  Log lines keep their message and error flag; the timestamp is left out.
  Messages and button labels that contain symbols outside U+0000..U+00FF
  (check marks, the pause and play symbols) are constructors instead of
  text. Volumes are percentages. The highlighting of the station buttons
  (styles only) is not modelled.
\<close>

datatype log_msg =
    LogInit
  | LogAttempt pystr
  | LogStreamUrl pystr
  | LogStopped
  | LogLoading
  | LogReady
  | LogPlaybackStarted
  | LogPaused
  | LogError pystr
  | LogStalled
  | LogBuffering
  | LogDownloading
  | LogPlayOk
  | LogPlayBlocked pystr
  | LogResumeError pystr
  | LogVolume nat

datatype pause_label = PauseLabel | ResumeLabel

record audio_el =
  au_id :: nat
  au_paused :: bool
  au_volume :: nat
  au_src :: pystr
  au_error :: "nat option"

record player =
  current_station :: "pystr option"
  audio :: "audio_el option"
  now_playing :: pystr
  pause_btn :: pause_label
  debug_log :: "(log_msg \<times> bool) list"
  listeners :: "(nat \<times> pystr) list"
  next_el :: nat

datatype media_kind =
  Loadstart | Canplay | Playing | PauseEv | ErrorEv "nat option" | Stalled | Waiting | Progress

datatype js_event =
    PlayStation pystr pystr
  | PauseRadio
  | SetVolume nat
  | MediaEvent nat media_kind
  | PlaySettled nat "pystr option"
  | ResumeSettled nat "pystr option"

subsection \<open>The debug log\<close>

text \<open>The loop of \<open>log()\<close>: \<open>while (debugLog.children.length > 20)\<close> remove
  the last child.\<close>

definition trim_loop :: "'a list \<Rightarrow> 'a list option" where
  "trim_loop l = while_option (\<lambda>l. 20 < length l) butlast l"

definition trim_log :: "'a list \<Rightarrow> 'a list" where
  "trim_log l = the (trim_loop l)"

definition log_push :: "log_msg \<Rightarrow> bool \<Rightarrow> player \<Rightarrow> player" where
  "log_push m is_error p = p\<lparr>debug_log := trim_log ((m, is_error) # debug_log p)\<rparr>"

subsection \<open>The handlers\<close>

text \<open>String concatenation with a variable that may be \<open>null\<close>.\<close>

definition js_str :: "pystr option \<Rightarrow> pystr" where
  "js_str v = (case v of None \<Rightarrow> ''null'' | Some s \<Rightarrow> s)"

definition player_init :: player where
  "player_init =
     log_push LogInit False
       \<lparr>current_station = None, audio = None, now_playing = ''Select a station'',
        pause_btn = PauseLabel, debug_log = [], listeners = [], next_el = 0\<rparr>"

definition play_station :: "pystr \<Rightarrow> pystr \<Rightarrow> player \<Rightarrow> player" where
  "play_station name url p =
     (let p1 = log_push (LogStreamUrl url) False
                 (log_push (LogAttempt name) False (p\<lparr>current_station := Some name\<rparr>));
          p2 = (case audio p1 of
                  None \<Rightarrow> p1
                | Some a \<Rightarrow> log_push LogStopped False
                              (p1\<lparr>audio := Some (a\<lparr>au_paused := True, au_src := []\<rparr>)\<rparr>));
          el = \<lparr>au_id = next_el p2, au_paused = False, au_volume = 80, au_src = url, au_error = None\<rparr>
      in p2\<lparr>audio := Some el, listeners := listeners p2 @ [(next_el p2, name)],
             next_el := Suc (next_el p2)\<rparr>)"

definition pause_radio :: "player \<Rightarrow> player" where
  "pause_radio p =
     (case audio p of
        None \<Rightarrow> p
      | Some a \<Rightarrow>
          if \<not> au_paused a
          then p\<lparr>audio := Some (a\<lparr>au_paused := True\<rparr>),
                 now_playing := ''Paused: '' @ js_str (current_station p)\<rparr>
          else p\<lparr>audio := Some (a\<lparr>au_paused := False\<rparr>)\<rparr>)"

definition set_volume :: "nat \<Rightarrow> player \<Rightarrow> player" where
  "set_volume v p =
     (case audio p of
        None \<Rightarrow> p
      | Some a \<Rightarrow> log_push (LogVolume v) False (p\<lparr>audio := Some (a\<lparr>au_volume := v\<rparr>)\<rparr>))"

definition error_messages :: "pystr list" where
  "error_messages =
     [''Unknown error'', ''MEDIA_ERR_ABORTED: Playback aborted'', ''MEDIA_ERR_NETWORK: Network error'',
      ''MEDIA_ERR_DECODE: Decode error'', ''MEDIA_ERR_SRC_NOT_SUPPORTED: Format not supported'']"

text \<open>\<open>errorMessages[audio.error?.code || 0] || 'Unknown error'\<close>: the code
  is read from the global \<open>audio\<close>, the current element, whichever element
  fired the event.\<close>

definition error_text :: "audio_el option \<Rightarrow> pystr" where
  "error_text a =
     (let i = (case a of None \<Rightarrow> 0 | Some el \<Rightarrow> (case au_error el of None \<Rightarrow> 0 | Some c \<Rightarrow> c))
      in if i < length error_messages then error_messages ! i else ''Unknown error'')"

text \<open>The listeners of element \<open>i\<close>, closed over \<open>name\<close>. The browser sets
  the element's \<open>error\<close> before it fires \<open>error\<close>.\<close>

definition media_listener :: "nat \<Rightarrow> pystr \<Rightarrow> media_kind \<Rightarrow> player \<Rightarrow> player" where
  "media_listener i name k p =
     (case k of
        Loadstart \<Rightarrow> log_push LogLoading False p
      | Canplay \<Rightarrow> log_push LogReady False p
      | Playing \<Rightarrow> (log_push LogPlaybackStarted False p)\<lparr>now_playing := ''Now Playing: '' @ name,
                                                        pause_btn := PauseLabel\<rparr>
      | PauseEv \<Rightarrow> (log_push LogPaused False p)\<lparr>pause_btn := ResumeLabel\<rparr>
      | ErrorEv c \<Rightarrow>
          (let a = (case audio p of
                      Some el \<Rightarrow> if au_id el = i then Some (el\<lparr>au_error := c\<rparr>) else Some el
                    | None \<Rightarrow> None);
               p1 = p\<lparr>audio := a\<rparr>
           in (log_push (LogError (error_text a)) True p1)\<lparr>now_playing := ''Error: '' @ name\<rparr>)
      | Stalled \<Rightarrow> log_push LogStalled False p
      | Waiting \<Rightarrow> log_push LogBuffering False p
      | Progress \<Rightarrow> log_push LogDownloading False p)"

text \<open>A rejected \<open>play()\<close> promise: the browser has set element \<open>i\<close>
  back to paused before the \<open>catch\<close> handler runs.\<close>

definition play_rejected :: "nat \<Rightarrow> player \<Rightarrow> player" where
  "play_rejected i p =
     p\<lparr>audio := map_option (\<lambda>a. if au_id a = i then a\<lparr>au_paused := True\<rparr> else a) (audio p)\<rparr>"

fun player_step :: "player \<Rightarrow> js_event \<Rightarrow> player" where
  "player_step p (PlayStation name url) = play_station name url p"
| "player_step p PauseRadio = pause_radio p"
| "player_step p (SetVolume v) = set_volume v p"
| "player_step p (MediaEvent i k) =
     (case map_of (listeners p) i of None \<Rightarrow> p | Some name \<Rightarrow> media_listener i name k p)"
| "player_step p (PlaySettled i r) =
     (case r of
        None \<Rightarrow> log_push LogPlayOk False p
      | Some msg \<Rightarrow> log_push (LogPlayBlocked msg) True (play_rejected i p))"
| "player_step p (ResumeSettled i r) =
     (case r of
        None \<Rightarrow> p\<lparr>now_playing := ''Now Playing: '' @ js_str (current_station p)\<rparr>
      | Some msg \<Rightarrow> log_push (LogResumeError msg) True (play_rejected i p))"

definition player_run :: "js_event list \<Rightarrow> player \<Rightarrow> player" where
  "player_run es p = foldl player_step p es"

text \<open>The invariant of the page state: every listener was attached to an
  element created before, so its id is below the next element's.\<close>

definition player_inv :: "player \<Rightarrow> bool" where
  "player_inv p \<longleftrightarrow> (\<forall>j \<in> fst ` set (listeners p). j < next_el p)"

subsection \<open>Lemmas\<close>

text \<open>The trimming loop keeps the first twenty lines.\<close>

text \<open>A loop that drops the last element while more than \<open>n\<close> are left
  ends, with the first \<open>n\<close>: the length decreases, and the first \<open>n\<close>
  elements stay.\<close>

lemma while_option_butlast: "while_option (\<lambda>l. n < length l) butlast l = Some (take n l)"
proof -
  have step: "take n (butlast l') = take n l'" if "n < length l'" for l' :: "'a list"
    using that by (cases l' rule: rev_cases) simp_all
  have "\<exists>t. while_option (\<lambda>l. n < length l) butlast l = Some t"
    by (rule measure_while_option_Some [where f = length and P = "\<lambda>_. True"]) simp_all
  then obtain t where t: "while_option (\<lambda>l. n < length l) butlast l = Some t"
    by blast
  have inv: "take n t = take n l"
    by (rule while_option_rule [where P = "\<lambda>l'. take n l' = take n l", OF _ t]) (simp_all add: step)
  have stop: "\<not> n < length t"
    using while_option_stop [OF t] by simp
  from stop have "take n t = t" by simp
  with t inv show ?thesis by simp
qed

lemma trim_log_take: "trim_log l = take 20 l"
  by (simp add: trim_log_def trim_loop_def while_option_butlast)

lemma au_src_play_station [simp]: "map_option au_src (audio (play_station name url p)) = Some url"
  by (simp add: play_station_def Let_def)

lemma log_push_length: "length (debug_log (log_push m b p)) \<le> 20"
  by (simp add: log_push_def trim_log_take)

lemma log_push_fields [simp]:
  "current_station (log_push m b p) = current_station p"
  "audio (log_push m b p) = audio p"
  "now_playing (log_push m b p) = now_playing p"
  "listeners (log_push m b p) = listeners p"
  "next_el (log_push m b p) = next_el p"
  by (simp_all add: log_push_def)

lemma media_listener_log:
  "length (debug_log (media_listener i name k p)) \<le> 20"
  by (cases k) (simp_all add: media_listener_def log_push_length Let_def)

lemma player_step_log:
  assumes "length (debug_log p) \<le> 20"
  shows "length (debug_log (player_step p e)) \<le> 20"
proof (cases e)
  case (PlayStation name url)
  then show ?thesis
    by (simp add: play_station_def Let_def log_push_length split: option.split)
next
  case PauseRadio
  then show ?thesis using assms by (simp add: pause_radio_def split: option.split)
next
  case (SetVolume v)
  then show ?thesis using assms by (simp add: set_volume_def log_push_length split: option.split)
next
  case (MediaEvent i k)
  then show ?thesis using assms by (simp add: media_listener_log split: option.split)
next
  case (PlaySettled i r)
  then show ?thesis by (simp add: log_push_length split: option.split)
next
  case (ResumeSettled i r)
  then show ?thesis using assms by (simp add: log_push_length split: option.split)
qed

lemma player_run_Cons [simp]: "player_run (e # es) p = player_run es (player_step p e)"
  by (simp add: player_run_def)

lemma play_station_state:
  "listeners (play_station n u p) = listeners p @ [(next_el p, n)] \<and>
   next_el (play_station n u p) = Suc (next_el p) \<and>
   current_station (play_station n u p) = Some n \<and>
   audio (play_station n u p) =
     Some \<lparr>au_id = next_el p, au_paused = False, au_volume = 80, au_src = u, au_error = None\<rparr>"
  by (simp add: play_station_def Let_def split: option.split)

lemma media_listener_ids:
  "listeners (media_listener i n k p) = listeners p \<and> next_el (media_listener i n k p) = next_el p"
  by (cases k) (simp_all add: media_listener_def Let_def)

lemma player_inv_step:
  assumes "player_inv p"
  shows "player_inv (player_step p e)"
proof (cases e)
  case (PlayStation name url)
  then show ?thesis
    using assms play_station_state [of name url p] by (auto simp: player_inv_def)
next
  case (MediaEvent i k)
  then show ?thesis
    using assms media_listener_ids by (simp add: player_inv_def split: option.split)
qed (insert assms, simp_all add: player_inv_def pause_radio_def set_volume_def play_rejected_def
      split: option.split)

lemma player_inv_run: "player_inv p \<Longrightarrow> player_inv (player_run es p)"
  by (induction es arbitrary: p) (simp_all add: player_run_def player_inv_step)

lemma player_inv_init: "player_inv player_init"
  by (simp add: player_inv_def player_init_def)

lemma player_run_log: "length (debug_log p) \<le> 20 \<Longrightarrow> length (debug_log (player_run es p)) \<le> 20"
proof (induction es arbitrary: p)
  case Nil
  then show ?case by (simp add: player_run_def)
next
  case (Cons e es)
  then show ?case by (simp add: player_step_log)
qed

subsection \<open>Properties\<close>

text \<open>C38. The debug log never holds more than twenty lines: the trimming
  loop of \<open>log()\<close> terminates and equals keeping the twenty newest lines, and
  in every run of the page, whatever the events, the log stays within
  twenty lines.\<close>

theorem player_log_bounded:
  "trim_log l = take 20 l \<and> length (debug_log (player_run es player_init)) \<le> 20"
  using trim_log_take player_run_log [OF log_push_length] by (simp add: player_init_def)

text \<open>C39. The loop of \<open>log()\<close> that trims the debug log
  (\<open>while (debugLog.children.length > 20) removeChild(lastChild)\<close>)
  terminates whatever the log, and leaves its first twenty lines, the
  newest, as \<open>log()\<close> inserts at the top.\<close>

theorem trim_loop_terminates: "trim_loop l = Some (take 20 l)"
  unfolding trim_loop_def by (rule while_option_butlast)

text \<open>C40. The listeners of a replaced audio element stay attached. In
  every state the page can reach, when a station is played and then another,
  an \<open>error\<close> event of the first element (as setting its \<open>src\<close> to the
  empty string makes it fire) runs its listener: the status reads
  \<open>Error:\<close> with the first station's name while the second is current and
  still streaming, and the log records the message for the error code of
  the current element, which has none, whatever code the old one reports.\<close>

theorem player_stale_error:
  "let p = player_run es player_init;
       p2 = player_step (player_step p (PlayStation n1 u1)) (PlayStation n2 u2);
       p3 = player_step p2 (MediaEvent (next_el p) (ErrorEv c))
   in now_playing p3 = ''Error: '' @ n1 \<and> current_station p3 = Some n2 \<and>
      map_option au_src (audio p3) = Some u2 \<and> fst (hd (debug_log p3)) = LogError ''Unknown error''"
proof -
  define p where "p = player_run es player_init"
  define i where "i = next_el p"
  let ?p2 = "play_station n2 u2 (play_station n1 u1 p)"
  have fresh: "map_of (listeners p) i = None"
    using player_inv_run [OF player_inv_init, of es]
    by (auto simp: player_inv_def p_def i_def map_of_eq_None_iff)
  have ls: "map_of (listeners ?p2) i = Some n1"
    using fresh play_station_state [of n1 u1 p] play_station_state [of n2 u2 "play_station n1 u1 p"]
    by (simp add: i_def map_add_def)
  have el: "audio ?p2 = Some \<lparr>au_id = Suc i, au_paused = False, au_volume = 80, au_src = u2, au_error = None\<rparr>"
    using play_station_state [of n1 u1 p] play_station_state [of n2 u2 "play_station n1 u1 p"]
    by (simp add: i_def)
  have cur: "current_station ?p2 = Some n2"
    using play_station_state [of n2 u2 "play_station n1 u1 p"] by simp
  show ?thesis
    unfolding Let_def p_def [symmetric] i_def [symmetric]
    using ls el cur
    by (simp add: media_listener_def log_push_def trim_log_take error_text_def error_messages_def Let_def)
qed

end
