(* ===== verification/Probe.thy ===== *)
theory Probe
  imports Http
begin

text \<open>
  The probe script \<^verbatim>\<open>src/radio/test_streams.py\<close>: for each of five SomaFM
  stations it tries every protocol, server and format variant of the stream
  URL and records the variants that answer 200 with a first chunk of bytes.
  A probe's outcome is what \<open>requests.get(url, timeout=5, stream=True)\<close> and
  the first \<open>iter_content(1024)\<close> chunk give: the raised exception, or the
  status and the first chunk (\<open>None\<close> when the body is empty). The printed
  table is not modelled.
\<close>

definition stations_to_test :: "pystr list" where
  "stations_to_test = [''groovesalad'', ''dronezone'', ''deepspaceone'', ''secretagent'', ''lush'']"

definition ice_servers :: "pystr list" where
  "ice_servers = [''ice2'', ''ice4'', ''ice6'']"

definition protocols :: "pystr list" where
  "protocols = [''http'', ''https'']"

definition formats :: "(pystr \<times> pystr) list" where
  "formats = [(''256-mp3'', ''MP3 256k''), (''128-mp3'', ''MP3 128k''), (''128-aac'', ''AAC 128k''),
              (''64-aacp'', ''AAC+ 64k'')]"

text \<open>The variants of one station, in the order of the three nested loops.\<close>

definition probe_variants :: "pystr \<Rightarrow> (pystr \<times> pystr \<times> pystr \<times> pystr) list" where
  "probe_variants station =
     concat (map (\<lambda>protocol. concat (map (\<lambda>ice. map (\<lambda>(fmt_code, fmt_name). (protocol, ice, fmt_code, fmt_name))
        formats) ice_servers)) protocols)"

definition probe_url :: "pystr \<Rightarrow> pystr \<times> pystr \<times> pystr \<times> pystr \<Rightarrow> pystr" where
  "probe_url station = (\<lambda>(protocol, ice, fmt_code, fmt_name).
     protocol @ ''://'' @ ice @ ''.somafm.com/'' @ station @ ''-'' @ fmt_code)"

text \<open>\<open>test_url\<close>: any exception is a failure; otherwise success needs
  status 200 and a non-empty first chunk.\<close>

type_synonym probe_outcome = "requests_exc + (nat \<times> bytes option)"

definition test_url :: "probe_outcome \<Rightarrow> bool" where
  "test_url r =
     (case r of
        Inl e \<Rightarrow> False
      | Inr (status, chunk) \<Rightarrow> status = 200 \<and> (case chunk of None \<Rightarrow> False | Some c \<Rightarrow> c \<noteq> []))"

text \<open>The \<open>results\<close> dictionary: for each station, its working variants in
  probing order; \<open>net\<close> gives the outcome of probing a URL.\<close>

definition probe_results :: "(pystr \<Rightarrow> probe_outcome) \<Rightarrow> (pystr \<times> (pystr \<times> pystr \<times> pystr \<times> pystr) list) list" where
  "probe_results net =
     map (\<lambda>station. (station, filter (\<lambda>v. test_url (net (probe_url station v))) (probe_variants station)))
       stations_to_test"

subsection \<open>Lemmas\<close>

lemma probe_variants_length: "length (probe_variants station) = 24"
  by (simp add: probe_variants_def protocols_def ice_servers_def formats_def)

text \<open>The script probes 120 URLs, 24 different variants per station.\<close>

lemma probe_urls_count:
  "length (concat (map (\<lambda>s. map (probe_url s) (probe_variants s)) stations_to_test)) = 120"
  by (simp add: probe_variants_length stations_to_test_def)

lemma probe_variants_distinct: "distinct (probe_variants station)"
  by (simp add: probe_variants_def protocols_def ice_servers_def formats_def)

lemma probe_results_working:
  "(station, vs) \<in> set (probe_results net) \<Longrightarrow> v \<in> set vs \<Longrightarrow>
     v \<in> set (probe_variants station) \<and> test_url (net (probe_url station v))"
  by (auto simp: probe_results_def)

end
