(* ===== verification/Spec2Isabelle.thy ===== *)
theory Spec2Isabelle
  imports Notes Menu Station LinkPull Player Probe
begin

text \<open>
  \<^bold>\<open>A verification development for the lalten web utilities.\<close>

  The repository holds four small single-user web applications built on
  FastHTML: a link scraper (\<^verbatim>\<open>src/linkpull/main.py\<close>), a menu list
  (\<^verbatim>\<open>src/menu/main.py\<close>), a notes/shopping list (\<^verbatim>\<open>src/notes/main.py\<close>) and
  an internet-radio player (\<^verbatim>\<open>src/radio/\<close>). The radio player's \<open>/proxy\<close>
  endpoint is the core the design document describes: it resolves a playlist
  URL to a stream URL (\<^verbatim>\<open>src/radio/playlist_parser.py\<close>,
  \<open>parse_playlist_url\<close>) and relays the origin's audio bytes to the browser
  in 8192-byte chunks (\<^verbatim>\<open>src/radio/main.py\<close>, \<open>proxy_stream\<close>).

  \<^bold>\<open>Theories.\<close>
  \<^item> \<open>Prelude\<close>: the types of the model (\<open>pystr\<close>, \<open>bytes\<close>) and the Python
    string built-ins the sources call (\<open>str.strip\<close>, \<open>str.splitlines\<close>,
    \<open>startswith\<close>, \<open>endswith\<close>, \<open>in\<close>, \<open>str(int)\<close>, \<open>int(str)\<close>), with
    their library-level meaning and the round trip \<open>int(str(i)) = i\<close>
    (\<open>prefix\<close>, \<open>suffix\<close>, \<open>sublist\<close>) and the round trip of
    \<open>splitlines\<close> with LF-joining. Python strings are read as sequences of
    code points U+0000..U+00FF; the character classes are Python's own on
    that range.
  \<^item> \<open>Http\<close>: the interface to the \<open>requests\<close> library: a request is a
    \<open>fetcher\<close>, a function from the URL to the raised exception or the
    response (status, reason, decoded text); the class hierarchy of
    \<open>requests.exceptions\<close> and \<open>raise_for_status\<close>.
  \<^item> \<open>Playlist\<close>: \<open>parse_playlist_url\<close>, line by line: the regular expression
    \<open>File\d+=(.+)\<close> as an anchored matcher (\<open>file_entry_at\<close>) and the leftmost
    search of \<open>re.search\<close> (\<open>re_search_file\<close>), the PLS loop (\<open>pls_scan\<close>,
    \<open>pls_choose\<close>), the M3U loop (\<open>m3u_scan\<close>), the try/except fallback. Its
    lemmas prove the refinement of the design's algorithm
    (\<open>resolve_spec\<close>), the fallbacks, the regular-expression semantics,
    that a resolved URL is always text of the fetched body, and that a
    blank first entry is returned as the empty URL.
  \<^item> \<open>Relay\<close>: the generator of \<open>proxy_stream\<close> as a step function over the
    events a relay sees (origin head, origin data, origin end or failure,
    client disconnect), with httpx's 8192-byte chunker (\<open>chunker_decode\<close>,
    \<open>chunker_flush\<close>). Its lemmas give the bytes sent as whole chunks of the
    bytes received (\<open>full_chunks\<close>, \<open>pending\<close>), an invariant of every run,
    the chunk sizes, the bound on the buffer, and that the connection is
    closed on every terminal state.
  \<^item> \<open>Proxy\<close>: the \<open>/proxy\<close> endpoint composing the resolver and the relay,
    with the response head Starlette sends before the generator runs.
  \<^item> \<open>Url\<close>: percent-encoding over UTF-8 with a safe set (\<open>pct_encode\<close>),
    instantiated to Python's \<open>urllib.parse.quote\<close> and to JavaScript's
    \<open>encodeURIComponent\<close>, and the query parsing Starlette applies
    (\<open>parse_qsl\<close>, \<open>unquote\<close>, UTF-8), with the round trip
    \<open>unquote(encode(s)) = s\<close> for every such safe set and the lemma that an
    encoded value is one query parameter.
  \<^item> \<open>Js\<close>: the browser's reading of a JavaScript string literal
    (\<open>js_lit_body\<close>: escapes, \<open>\x\<close>, \<open>\u\<close>, line continuations), a
    \<open>function\<close> whose termination is the length measure; its lemmas read a
    literal without escapes back as itself and show that what follows a
    literal is a proper suffix, which the readers built on it need for their
    own termination.
  \<^item> \<open>Json\<close>: Python's \<open>json.dumps\<close> with its defaults on strings, lists
    and dictionaries; its lemmas prove that the browser reads a dumped
    string back as the string, character by character through every escape
    (\<open>js_lit_body_json_quote\<close>), and that the output is ASCII.
  \<^item> \<open>Station\<close>: the station store (\<open>init_db\<close> of
    \<^verbatim>\<open>src/radio/db_setup.py\<close>, \<open>/add_station\<close>) and the index page
    \<open>get()\<close> (\<open>index_get\<close>): the status area, the custom stream form with
    its Play handler (\<open>custom_play\<close>), each entry's play button as the text
    of its \<open>onclick\<close> handler, and the random button's handler with the
    \<open>json.dumps\<close> of the stations (\<open>random_onclick\<close>); the browser's
    reading of these texts (\<open>js_play_call\<close>, \<open>js_random_play\<close>, over
    \<open>Js\<close>) and the \<open>/proxy\<close> request a play URL leads to. Its lemmas prove
    the loading of the preset list with every stored attribute, the round trips stored URL, play button,
    proxy request and typed URL, custom button, proxy request, the round
    trip of the station list through the random button's JSON, that the
    handler text is ASCII, and the ways saving or playing a station goes
    wrong (any name whose first character to escape is an apostrophe, a name
    already stored, an empty table).
  \<^item> \<open>Player\<close>: the player JavaScript embedded in
    \<^verbatim>\<open>src/radio/main.py\<close> (\<open>playStation\<close>, \<open>pauseRadio\<close>,
    \<open>setVolume\<close>, the listeners of each audio element, \<open>log\<close>) as a step
    function of the page state over browser events, the debug log's trimming
    loop as a \<open>while_option\<close> (\<open>trim_loop\<close>), a rejected \<open>play()\<close> as the
    element paused again. Its lemmas prove that the loop terminates, keeping
    twenty lines, the bound in every run, an invariant of every reachable
    state (listener ids below the next element's), and that in every
    reachable state the listeners of a replaced element still run.
  \<^item> \<open>LinkPull\<close>: \<^verbatim>\<open>src/linkpull/main.py\<close>, \<open>scrape_links\<close> and the
    \<open>/extract\<close> handler, over the libraries it calls as parameters
    (\<open>requests\<close>, BeautifulSoup, \<open>urljoin\<close>, \<open>re\<close>); the \<open>except\<close> chain with
    the class hierarchy of \<open>requests.exceptions\<close> (in \<open>Http\<close>). Its lemmas
    prove the reported links a subsequence of the page's links made absolute
    and the outcome of the \<open>/extract\<close> page for a pattern that does not
    compile (an \<open>href\<close> that \<open>urljoin\<close> rejects reaches the final
    \<open>except Exception\<close> first; the pattern is reported only on a page with
    links).
  \<^item> \<open>Probe\<close>: the probe script \<^verbatim>\<open>src/radio/test_streams.py\<close>: the
    enumeration of the SomaFM URL variants, \<open>test_url\<close> over the outcome of
    a request, and the dictionary of working variants; its lemmas count the
    120 probes and characterise the recorded variants.
  \<^item> \<open>Table\<close>: the fastlite table with an integer key that the notes and
    menu apps use (insert with the next id, update and delete that raise
    \<open>NotFoundError\<close> on a missing key, queries by decreasing id), its
    well-formedness, the properties of rows that insert, update and delete
    keep, the id the next insert takes after the newest row is deleted, and
    the lemmas every handler proof reuses.
  \<^item> \<open>Web\<close>: the handler reply (303 redirect, or 500 on an escaped
    exception), the data of the rendered cards and forms, Starlette's routing
    of \<open>/path/{id}\<close> with \<open>int()\<close>, and the round trip of printing an id
    into a URL and routing it back (\<open>py_str_int\<close>, \<open>py_int\<close> in \<open>Prelude\<close>).
  \<^item> \<open>Notes\<close>: \<^verbatim>\<open>src/notes/main.py\<close>: the handlers \<open>post\<close>, \<open>archive\<close>,
    \<open>activate\<close>, \<open>delete\<close> as functions on the table, a session as a list of
    requests, and the page of \<open>get()\<close>. Its lemmas prove the table
    invariant, what adding, archiving, reactivating and deleting do on every
    branch (missing ids included), that every link of the page routes to the
    action on its own note, and exactly when the id of a deleted newest note
    is given to the next one.
  \<^item> \<open>Menu\<close>: \<^verbatim>\<open>src/menu/main.py\<close>, the same shape: \<open>post\<close>, \<open>update\<close>,
    \<open>delete\<close>, the list page and the edit page (\<open>menu_edit\<close>). Its lemmas
    prove the table invariant (well-formed ids, no item blank after
    \<open>strip()\<close>), adding, updating (the strip test runs before
    the lookup), the errors on a missing id, the round trip list page, edit
    page, update, and that saving an unchanged edit form is a no-op.

  \<^bold>\<open>How the parts interact.\<close> The index page (\<open>Station\<close>) renders each
  stored station as a play button, and all of them, as JSON (\<open>Json\<close>), in
  the random button; the browser reads the handlers' literals (\<open>Js\<close>)
  and the player (\<open>Player\<close>) requests the play URL, which Starlette routes to \<open>proxy_stream\<close> (\<open>Proxy\<close>), which resolves
  it (\<open>Playlist\<close>) and relays it (\<open>Relay\<close>). The notes and menu apps share
  the table interface (\<open>Table\<close>) and the handler and routing conventions
  (\<open>Web\<close>): the lemmas of \<open>Table\<close> (well-formedness kept by insert, update
  and delete; updates that restore a row) discharge the invariant and
  round-trip proofs of both. LinkPull and the probe script stand alone on
  the \<open>requests\<close> interface of \<open>Http\<close>. The last section of this theory composes
  \<open>Station\<close> and \<open>Player\<close>: for the same station, the entry's button has
  the player stream the \<open>/proxy\<close> URL and the random button the stored URL
  itself.

  \<^bold>\<open>Bounds.\<close> No model needs fuel: every loop of the sources runs over a
  finite list (lines, links, rows, events) and is structural recursion; the
  loops that are not are \<open>function\<close>s with a length measure
  (\<open>chunks_of\<close>, the literal reader \<open>js_lit_body\<close>, the reader of the
  random button's array \<open>js_station_objs\<close>) or, for the log trimming
  \<open>while\<close> loop, a \<open>while_option\<close> proved to return \<open>Some\<close> on every
  input (\<open>Player.trim_loop_terminates\<close>). Unbounded radio streams are finite
  prefixes of events, each of any length. The constants are the code's:
  8192-byte chunks, a log of twenty lines, the 303 redirect status. Integers
  that the code keeps in Python \<open>int\<close> are \<open>int\<close>; byte values are
  \<open>8 word\<close> in the relay and \<open>nat\<close> below 256 in the URL codec.

  \<^bold>\<open>Not modelled.\<close> HTML rendering and styling (the pages are kept as
  the data they show: titles, texts, form actions, handler texts), the
  \<open>print\<close> logging and the printed tables, the emoji of the labels (outside
  the Latin-1 characters of the model), the JavaScript engine beyond the
  string literals and the layout of the arrays the page writes, and the
  libraries the sources only call (FastHTML, Starlette,
  \<open>requests\<close>, \<open>httpx\<close>, BeautifulSoup, SQLite) beyond the behaviour the
  interfaces above state.
\<close>


subsection \<open>Properties across components\<close>

text \<open>C33. The random button bypasses \<open>/proxy\<close>. For the same station, the
  play button of its entry makes the player (\<open>Player\<close>) stream the
  \<open>/proxy\<close> URL of the stored URL, which \<open>proxy_stream\<close> resolves and relays,
  while the random button (\<open>Station\<close>) makes it stream the stored URL
  itself: a playlist URL (\<open>.pls\<close>, \<open>.m3u\<close>, as the SomaFM presets are) or a
  plain-http stream reaches the audio element unresolved.\<close>

theorem random_button_bypasses_proxy:
  assumes "k < length t" and "js_plain (st_name (t ! k))"
  shows "\<exists>u u'. js_play_call (se_onclick (ip_entries (index_get t) ! k)) = Some (st_name (t ! k), u) \<and>
           js_random_play k (ip_random (index_get t)) = Some (st_name (t ! k), u') \<and>
           map_option au_src (audio (player_step p (PlayStation (st_name (t ! k)) u))) =
             Some (play_url (st_stream_url (t ! k))) \<and>
           map_option au_src (audio (player_step p (PlayStation (st_name (t ! k)) u'))) =
             Some (st_stream_url (t ! k))"
proof -
  have "se_onclick (ip_entries (index_get t) ! k) = station_onclick (t ! k)"
    using assms(1) by (simp add: index_entries_def)
  then show ?thesis
    using assms js_play_call_station [OF assms(2)] js_random_play_onclick [of k t] by simp
qed

theorem random_button_bypasses_proxy_witness:
  "\<exists>u u'. js_play_call (se_onclick (ip_entries (index_get
              [init_row (''SOMA_GROOVE'', ''http://somafm.com/groovesalad.pls'')]) ! 0)) =
            Some (''SOMA_GROOVE'', u) \<and>
          js_random_play 0 (ip_random (index_get
              [init_row (''SOMA_GROOVE'', ''http://somafm.com/groovesalad.pls'')])) =
            Some (''SOMA_GROOVE'', u') \<and>
          map_option au_src (audio (player_step player_init (PlayStation ''SOMA_GROOVE'' u))) =
            Some (play_url ''http://somafm.com/groovesalad.pls'') \<and>
          map_option au_src (audio (player_step player_init (PlayStation ''SOMA_GROOVE'' u'))) =
            Some ''http://somafm.com/groovesalad.pls''"
  using random_button_bypasses_proxy [of 0 "[init_row (''SOMA_GROOVE'', ''http://somafm.com/groovesalad.pls'')]"
      player_init]
  by (simp add: init_row_def js_plain_for_def js_sq_def)

end
